theory Spec2Isabelle
  imports Complex_Main "HOL-Library.Word"
begin

section \<open>JavaScript arithmetic on finite numbers\<close>

text \<open>
  Where every number a function handles is finite, a JavaScript \<open>number\<close> is modelled
  by a \<open>real\<close>: the arithmetic is exact, rounding to the nearest double is not modelled.
  The one place where the rounding decides what the code does, the grain timer of
  \<open>GranularEngine.tick\<close>, is computed in doubles (see the section on double-precision
  rounding).
  \<open>Math.round\<close> rounds half up, \<open>%\<close> is the remainder of the division truncated
  towards zero (the result has the sign of the dividend).
\<close>

definition js_round :: "real \<Rightarrow> int" where
  "js_round x = \<lfloor>x + 1 / 2\<rfloor>"

definition js_trunc :: "real \<Rightarrow> int" where
  "js_trunc x = (if 0 \<le> x then \<lfloor>x\<rfloor> else \<lceil>x\<rceil>)"

text \<open>\<open>x % y\<close> for a divisor \<open>y \<noteq> 0\<close> (every use below has a divisor of at least 1).\<close>

definition js_mod :: "real \<Rightarrow> real \<Rightarrow> real" where
  "js_mod x y = x - y * of_int (js_trunc (x / y))"

section \<open>Web Audio parameters as automation timelines\<close>

text \<open>
  An \<open>AudioParam\<close> is the value it was created with and the automation events scheduled
  on it, kept in time order; an event scheduled at the time of an earlier one goes after
  it. The first number of an event is its value (the target of a ramp), the second its
  time (the end of a ramp, the start of \<open>setTargetAtTime\<close>).
\<close>

datatype automation =
    SetValueAtTime real real
  | LinearRampToValueAtTime real real
  | ExponentialRampToValueAtTime real real
  | SetTargetAtTime real real real

fun ev_value :: "automation \<Rightarrow> real" where
  "ev_value (SetValueAtTime v t) = v"
| "ev_value (LinearRampToValueAtTime v t) = v"
| "ev_value (ExponentialRampToValueAtTime v t) = v"
| "ev_value (SetTargetAtTime v t c) = v"

fun ev_time :: "automation \<Rightarrow> real" where
  "ev_time (SetValueAtTime v t) = t"
| "ev_time (LinearRampToValueAtTime v t) = t"
| "ev_time (ExponentialRampToValueAtTime v t) = t"
| "ev_time (SetTargetAtTime v t c) = t"

fun is_ramp :: "automation \<Rightarrow> bool" where
  "is_ramp (LinearRampToValueAtTime v t) = True"
| "is_ramp (ExponentialRampToValueAtTime v t) = True"
| "is_ramp e = False"

record AudioParam =
  defaultValue :: real
  timeline :: "automation list"

definition createParam :: "real \<Rightarrow> AudioParam" where
  "createParam v = \<lparr>defaultValue = v, timeline = []\<rparr>"

fun insertEvent :: "automation \<Rightarrow> automation list \<Rightarrow> automation list" where
  "insertEvent e [] = [e]"
| "insertEvent e (x # xs) =
     (if ev_time x \<le> ev_time e then x # insertEvent e xs else e # x # xs)"

definition schedule :: "automation \<Rightarrow> AudioParam \<Rightarrow> AudioParam" where
  "schedule e p = p\<lparr>timeline := insertEvent e (timeline p)\<rparr>"

definition setValueAtTime :: "real \<Rightarrow> real \<Rightarrow> AudioParam \<Rightarrow> AudioParam" where
  "setValueAtTime v t = schedule (SetValueAtTime v t)"

definition linearRampToValueAtTime :: "real \<Rightarrow> real \<Rightarrow> AudioParam \<Rightarrow> AudioParam" where
  "linearRampToValueAtTime v t = schedule (LinearRampToValueAtTime v t)"

definition exponentialRampToValueAtTime :: "real \<Rightarrow> real \<Rightarrow> AudioParam \<Rightarrow> AudioParam" where
  "exponentialRampToValueAtTime v t = schedule (ExponentialRampToValueAtTime v t)"

definition setTargetAtTime :: "real \<Rightarrow> real \<Rightarrow> real \<Rightarrow> AudioParam \<Rightarrow> AudioParam" where
  "setTargetAtTime v t c = schedule (SetTargetAtTime v t c)"

text \<open>\<open>cancelScheduledValues(t)\<close> removes every event whose time is \<open>t\<close> or later.\<close>

definition cancelScheduledValues :: "real \<Rightarrow> AudioParam \<Rightarrow> AudioParam" where
  "cancelScheduledValues t p = p\<lparr>timeline := filter (\<lambda>e. ev_time e < t) (timeline p)\<rparr>"

text \<open>
  The value a parameter holds at time \<open>t\<close>, where the timeline determines a held value:
  the value of the last event at or before \<open>t\<close> when that event is not an exponential
  approach still running and no ramp towards a later event is under way; the creation value
  when nothing is scheduled at or before \<open>t\<close>. \<open>None\<close> while the value is in transition.
\<close>

definition valueAt :: "AudioParam \<Rightarrow> real \<Rightarrow> real option" where
  "valueAt p t =
     (let past = filter (\<lambda>e. ev_time e \<le> t) (timeline p);
          future = filter (\<lambda>e. t < ev_time e) (timeline p)
      in if future \<noteq> [] \<and> is_ramp (hd future) then None
         else if past = [] then Some (defaultValue p)
         else (case last past of
                 SetTargetAtTime v t0 c \<Rightarrow> None
               | e \<Rightarrow> Some (ev_value e)))"



section \<open>Double-precision rounding\<close>

text \<open>
  Where the result of a computation depends on how its numbers are rounded, a JavaScript
  number is the real it denotes and every operation rounds its exact result to the nearest
  double: 53 significant bits, a tie going to the even significand. The exponent is not
  bounded here, so overflow and the subnormal numbers are not modelled.
\<close>

definition roundEven :: "real \<Rightarrow> int" where
  "roundEven y =
     (let f = \<lfloor>y\<rfloor>
      in if y - of_int f < 1 / 2 then f
         else if 1 / 2 < y - of_int f then f + 1
         else if even f then f else f + 1)"

definition fl :: "real \<Rightarrow> real" where
  "fl x =
     (if x = 0 then 0
      else (let e = \<lfloor>log 2 \<bar>x\<bar>\<rfloor>
            in of_int (roundEven (x * 2 powr of_int (52 - e))) * 2 powr of_int (e - 52)))"


lemma fl_zero [simp]: "fl 0 = 0"
  by (simp add: fl_def)





section \<open>GranularEngine\<close>

text \<open>
  The audio context supplies the clock and the sample rate; a sample buffer is known by its
  duration. \<open>Math.random()\<close> is the sequence of numbers it is going to return and the
  count of those already drawn.
\<close>

record AudioContext =
  currentTime :: real
  sampleRate :: real

record AudioBuffer =
  duration :: real

definition MAX_GRAINS :: nat where
  "MAX_GRAINS = 32"

text \<open>\<open>makeHannCurve\<close>: sample \<open>i\<close> of a Hann window of \<open>durationSamples\<close> samples.\<close>

definition makeHannCurve :: "int \<Rightarrow> nat \<Rightarrow> real" where
  "makeHannCurve durationSamples i =
     0.5 * (1 - cos ((2 * pi * real i) / (of_int durationSamples - 1)))"

record GrainSource =
  playbackRate :: real
  startTime :: real
  startOffset :: real
  startDuration :: real
  stopTime :: real

record GrainEnvelope =
  hannSamples :: int
  envStart :: real
  envStop :: real

record GrainSlot =
  gain :: AudioParam
  panner :: AudioParam
  busy :: bool
  source :: "GrainSource option"
  envelope :: "GrainEnvelope option"

record GranularParams =
  grainDensity :: real
  grainDuration :: real
  position :: real
  positionScatter :: real
  pitchShift :: real
  pitchScatter :: real
  stereoWidth :: real
  amplitude :: real
  attackRatio :: real

record GranularEngine =
  outputNode :: AudioParam
  outputConnected :: bool
  buffer :: "AudioBuffer option"
  slots :: "GrainSlot list"
  grainTimer :: real
  active :: bool
  hannCache :: "int \<rightharpoonup> int"
  random :: "nat \<Rightarrow> real"
  drawn :: nat

definition newSlot :: "AudioContext \<Rightarrow> GrainSlot" where
  "newSlot ctx =
     \<lparr>gain = setValueAtTime 0 (currentTime ctx) (createParam 1),
      panner = setValueAtTime 0 (currentTime ctx) (createParam 0),
      busy = False, source = None, envelope = None\<rparr>"

definition newGranularEngine :: "AudioContext \<Rightarrow> (nat \<Rightarrow> real) \<Rightarrow> GranularEngine" where
  "newGranularEngine ctx rnd =
     \<lparr>outputNode = setValueAtTime 1 (currentTime ctx) (createParam 1),
      outputConnected = True,
      buffer = None,
      slots = replicate MAX_GRAINS (newSlot ctx),
      grainTimer = 0,
      active = True,
      hannCache = Map.empty,
      random = rnd,
      drawn = 0\<rparr>"

definition setBuffer :: "AudioBuffer \<Rightarrow> GranularEngine \<Rightarrow> GranularEngine" where
  "setBuffer b s = s\<lparr>buffer := Some b, hannCache := Map.empty\<rparr>"

definition stopSlot :: "real \<Rightarrow> GrainSlot \<Rightarrow> GrainSlot" where
  "stopSlot now slot =
     slot\<lparr>gain := setValueAtTime 0 now (gain slot), busy := False,
          source := None, envelope := None\<rparr>"

definition stopAllGrains :: "AudioContext \<Rightarrow> GranularEngine \<Rightarrow> GranularEngine" where
  "stopAllGrains ctx s =
     s\<lparr>slots := map (stopSlot (currentTime ctx)) (slots s), grainTimer := 0\<rparr>"

definition clearBuffer :: "AudioContext \<Rightarrow> GranularEngine \<Rightarrow> GranularEngine" where
  "clearBuffer ctx s = stopAllGrains ctx (s\<lparr>buffer := None\<rparr>)"

definition reset :: "AudioContext \<Rightarrow> GranularEngine \<Rightarrow> GranularEngine" where
  "reset ctx s = (stopAllGrains ctx s)\<lparr>grainTimer := 0\<rparr>"

definition disconnect :: "AudioContext \<Rightarrow> GranularEngine \<Rightarrow> GranularEngine" where
  "disconnect ctx s = (stopAllGrains ctx (s\<lparr>active := False\<rparr>))\<lparr>outputConnected := False\<rparr>"

text \<open>\<open>getFreeSlot\<close>: the index of the first slot that is not busy.\<close>

fun getFreeSlot :: "GrainSlot list \<Rightarrow> nat option" where
  "getFreeSlot [] = None"
| "getFreeSlot (slot # rest) =
     (if \<not> busy slot then Some 0 else map_option Suc (getFreeSlot rest))"

text \<open>\<open>getHann\<close>: the length of the cached window for a grain, and the cache afterwards.\<close>

definition getHann :: "(int \<rightharpoonup> int) \<Rightarrow> int \<Rightarrow> int \<times> (int \<rightharpoonup> int)" where
  "getHann cache samples =
     (let bucket = js_round (of_int samples / 64) * 64
      in case cache bucket of
           Some b \<Rightarrow> (b, cache)
         | None \<Rightarrow> (max 64 bucket, cache(bucket \<mapsto> max 64 bucket)))"

definition fireGrain :: "AudioContext \<Rightarrow> GranularParams \<Rightarrow> GranularEngine \<Rightarrow> GranularEngine" where
  "fireGrain ctx params s =
     (case buffer s of
        None \<Rightarrow> s
      | Some buf \<Rightarrow>
         (case getFreeSlot (slots s) of
            None \<Rightarrow> s
          | Some i \<Rightarrow>
             (let now = currentTime ctx;
                  sr = sampleRate ctx;
                  bufDur = duration buf;
                  scatter = positionScatter params * (random s (drawn s) - 0.5) * 2;
                  pos = max 0 (min 1 (position params + scatter));
                  offsetSec = pos * bufDur;
                  grainDur = max 0.015 (grainDuration params);
                  grainSamples = js_round (grainDur * sr);
                  pitchScatterSemitones =
                    (random s (drawn s + 1) - 0.5) * 2 * pitchScatter params;
                  totalSemitones = pitchShift params + pitchScatterSemitones;
                  rate = 2 powr (totalSemitones / 12);
                  pan = (random s (drawn s + 2) - 0.5) * 2 * stereoWidth params;
                  (hannBuf, cache) = getHann (hannCache s) grainSamples;
                  releaseSec = grainDur + 0.005;
                  slot = slots s ! i;
                  slot' = slot
                    \<lparr>gain := setValueAtTime (amplitude params) now (gain slot),
                     panner := setValueAtTime (max (- 1) (min 1 pan)) now (panner slot),
                     busy := True,
                     source := Some \<lparr>playbackRate = rate, startTime = now,
                       startOffset = offsetSec, startDuration = grainDur / rate,
                       stopTime = now + releaseSec\<rparr>,
                     envelope := Some \<lparr>hannSamples = hannBuf, envStart = now,
                       envStop = now + releaseSec\<rparr>\<rparr>
              in s\<lparr>slots := (slots s)[i := slot'], hannCache := cache,
                    drawn := drawn s + 3\<rparr>)))"

text \<open>The \<open>onended\<close> callback of the grain playing in slot \<open>i\<close>: the slot is released.\<close>

definition onended :: "AudioContext \<Rightarrow> nat \<Rightarrow> GranularEngine \<Rightarrow> GranularEngine" where
  "onended ctx i s =
     (if i < length (slots s)
      then s\<lparr>slots := (slots s)[i := stopSlot (currentTime ctx) (slots s ! i)]\<rparr>
      else s)"

text \<open>
  The interval between grains, \<open>1 / Math.max(1, params.grainDensity)\<close>. The grain timer is
  computed in doubles: the number of passes of the loop of \<open>tick\<close> depends on the
  rounding of each subtraction.
\<close>

definition interval :: "GranularParams \<Rightarrow> real" where
  "interval params = fl (1 / max 1 (grainDensity params))"

lemma fireGrain_grainTimer: "grainTimer (fireGrain ctx params s) = grainTimer s"
  by (simp add: fireGrain_def Let_def split: option.splits prod.splits)

text \<open>
  The \<open>while\<close> loop of \<open>tick\<close>. Nothing bounds it: where the rounded subtraction leaves
  the timer at or above the interval for ever (a timer so large that the interval is
  below half the gap to the next double) the loop does not return, and the result is
  \<open>None\<close>.
\<close>

partial_function (option) tickLoop ::
  "AudioContext \<Rightarrow> GranularParams \<Rightarrow> GranularEngine \<Rightarrow> GranularEngine option" where
  "tickLoop ctx params s =
     (if grainTimer s \<ge> interval params
      then tickLoop ctx params
             (fireGrain ctx params (s\<lparr>grainTimer := fl (grainTimer s - interval params)\<rparr>))
      else Some s)"

definition tick ::
  "AudioContext \<Rightarrow> GranularParams \<Rightarrow> real \<Rightarrow> GranularEngine \<Rightarrow> GranularEngine option" where
  "tick ctx params dt s =
     (if \<not> active s \<or> buffer s = None then Some s
      else tickLoop ctx params (s\<lparr>grainTimer := fl (grainTimer s + dt)\<rparr>))"

text \<open>The timer after \<open>k\<close> passes of the loop: \<open>k\<close> rounded subtractions of the interval.\<close>

definition timerAfter :: "real \<Rightarrow> real \<Rightarrow> nat \<Rightarrow> real" where
  "timerAfter i t k = ((\<lambda>u. fl (u - i)) ^^ k) t"

text \<open>The number of slots playing a grain.\<close>

definition busyCount :: "GranularEngine \<Rightarrow> nat" where
  "busyCount s = length (filter busy (slots s))"

text \<open>A context, a sample buffer and grain parameters to run the engine on.\<close>

definition ctx0 :: AudioContext where
  "ctx0 = \<lparr>currentTime = 0, sampleRate = 44100\<rparr>"

definition buf0 :: AudioBuffer where
  "buf0 = \<lparr>duration = 2\<rparr>"

definition grains :: "real \<Rightarrow> GranularParams" where
  "grains density =
     \<lparr>grainDensity = density, grainDuration = 0.05, position = 0.5, positionScatter = 0.1,
      pitchShift = 0, pitchScatter = 1, stereoWidth = 0.5, amplitude = 0.5,
      attackRatio = 0.15\<rparr>"

definition engine0 :: GranularEngine where
  "engine0 = newGranularEngine ctx0 (\<lambda>k. 1 / 2)"


subsection \<open>The tick loop\<close>



lemma funpow_fireGrain_grainTimer:
  "grainTimer ((fireGrain ctx params ^^ n) s) = grainTimer s"
  by (induction n) (simp_all add: fireGrain_grainTimer)









text \<open>The number of passes is determined by the timer.\<close>

lemma passes_unique:
  assumes "\<forall>k<n. i \<le> timerAfter i t k" "timerAfter i t n < i"
    "\<forall>k<m. i \<le> timerAfter i t k" "timerAfter i t m < i"
  shows "n = m"
proof (rule ccontr)
  assume "n \<noteq> m"
  then consider "n < m" | "m < n" by linarith
  then show False
  proof cases
    case 1
    with assms(3) have "i \<le> timerAfter i t n" by simp
    with assms(2) show False by simp
  next
    case 2
    with assms(1) have "i \<le> timerAfter i t m" by simp
    with assms(4) show False by simp
  qed
qed





lemma fireGrain_no_buffer: "buffer s = None \<Longrightarrow> fireGrain ctx p s = s"
  by (simp add: fireGrain_def)












lemma busyCount_timer [simp]: "busyCount (s\<lparr>grainTimer := x\<rparr>) = busyCount s"
  by (simp add: busyCount_def)


lemma slots_setBuffer [simp]: "slots (setBuffer b s) = slots s"
  by (simp add: setBuffer_def)





subsection \<open>One second at ten grains a second\<close>
















subsection \<open>What a fired grain leaves in its slot\<close>















subsection \<open>Grains fired by a tick, and the pool\<close>




text \<open>
  Claim C10. With no sample buffer set, or after \<open>disconnect\<close> (the engine is no longer
  active), \<open>tick\<close> returns the engine exactly as it was: no grain is fired and the timer
  does not accumulate \<open>dt\<close>. So a buffer set after any unloaded tick is followed by the
  same next tick as a buffer set before it: there is no catch-up burst.
\<close>

theorem tick_unloaded_is_noop:
  assumes "buffer s = None \<or> \<not> active s"
  shows "tick ctx params dt s = Some s
       \<and> map_option grainTimer (tick ctx params dt s) = Some (grainTimer s)
       \<and> Option.bind (tick ctx params dt s) (\<lambda>s1. tick ctx' params' dt' (setBuffer b s1))
           = tick ctx' params' dt' (setBuffer b s)"
  using assms by (auto simp: tick_def)

theorem tick_unloaded_is_noop_witness:
  "(buffer engine0 = None \<or> \<not> active engine0)
   \<and> tick ctx0 (grains 10) 5 engine0 = Some engine0
   \<and> grainTimer engine0 = 0
   \<and> map_option grainTimer (tick ctx0 (grains 10) 5 engine0) = Some 0
   \<and> Option.bind (tick ctx0 (grains 10) 5 engine0)
        (\<lambda>s1. tick ctx0 (grains 10) 1 (setBuffer buf0 s1))
       = tick ctx0 (grains 10) 1 (setBuffer buf0 engine0)"
proof -
  have a: "buffer engine0 = None \<or> \<not> active engine0"
    by (simp add: engine0_def newGranularEngine_def)
  have t: "grainTimer engine0 = 0"
    by (simp add: engine0_def newGranularEngine_def)
  from tick_unloaded_is_noop
         [OF a, where ctx=ctx0 and params="grains 10" and dt=5
            and ctx'=ctx0 and params'="grains 10" and dt'=1 and b=buf0] a t
  show ?thesis by simp
qed

lemma disconnect_inactive: "\<not> active (disconnect ctx s)"
  by (simp add: disconnect_def stopAllGrains_def)




section \<open>Layers\<close>

text \<open>
  The layer record of the store (\<open>RectLayer\<close>). The fields the code reads with a default
  (\<open>layer.scanPos ?? 0\<close>, \<open>layer.scanDirection ?? 'horizontal'\<close>,
  \<open>layer.paramOverrides ?? {}\<close>, \<open>layer.pitchSemitones ?? 0\<close>) are optional;
  \<open>generatedModeId\<close> and \<open>sampleBuffer\<close> may be null.
\<close>

datatype ScanDirection = Horizontal | Vertical | DiagonalDown | DiagonalUp

datatype PixelMappingMode = Glide | Drift | SubMode | Strike | Grain | Weave | Mangle

datatype SoundSource = Synth | Sample

datatype OscillatorType = Sine | Square | Sawtooth | Triangle

record LayerEffects =
  reverbEnabled :: bool
  reverbMix :: real
  reverbDecay :: real
  delayEnabled :: bool
  delayTime :: real
  delayFeedback :: real
  delayMix :: real
  distortionEnabled :: bool
  distortionAmount :: real
  flangerEnabled :: bool
  flangerRate :: real
  flangerDepth :: real
  flangerMix :: real
  chorusEnabled :: bool
  chorusRate :: real
  chorusDepth :: real
  chorusMix :: real
  eqEnabled :: bool
  eqLowGain :: real
  eqMidGain :: real
  eqHighGain :: real
  eqMidFreq :: real

definition defaultEffects :: LayerEffects where
  "defaultEffects =
     \<lparr>reverbEnabled = False, reverbMix = 0.3, reverbDecay = 2,
      delayEnabled = False, delayTime = 0.3, delayFeedback = 0.4, delayMix = 0.4,
      distortionEnabled = False, distortionAmount = 100,
      flangerEnabled = False, flangerRate = 0.5, flangerDepth = 0.004, flangerMix = 0.5,
      chorusEnabled = False, chorusRate = 1.5, chorusDepth = 0.008, chorusMix = 0.5,
      eqEnabled = False, eqLowGain = 0, eqMidGain = 0, eqHighGain = 0, eqMidFreq = 1000\<rparr>"

record RectLayer =
  layerId :: string
  layerX :: real
  layerY :: real
  layerWidth :: real
  layerHeight :: real
  scanX :: real
  scanPos :: "real option"
  scanSpeed :: real
  scanDirection :: "ScanDirection option"
  volume :: real
  muted :: bool
  generatedModeId :: "string option"
  pixelMode :: PixelMappingMode
  soundSource :: SoundSource
  oscillatorType :: OscillatorType
  sampleBuffer :: "AudioBuffer option"
  color :: string
  label :: string
  selected :: bool
  effects :: LayerEffects
  paramOverrides :: "(string \<times> real) list option"
  pitchSemitones :: "real option"

section \<open>The scheduler's write-back of the scan position\<close>

text \<open>
  \<open>scanUpdates\<close> is the \<open>Map\<close> the frame fills: the layer's id is the key of its new
  \<open>scanX\<close>, the id followed by \<open>:pos\<close>, \<open>:absX\<close> and \<open>:absY\<close> the keys of the new
  scan position and of the scan head's image coordinates.
\<close>

type_synonym scanUpdates = "string \<rightharpoonup> real"

text \<open>
  The scan step of one layer in the \<open>forEach\<close> of the frame: the new \<open>scanX\<close>, the new
  \<open>scanPos\<close> and the scan head \<open>(absX, absY)\<close>, from the layer as the frame read it and
  the frame's time step \<open>delta\<close>.
\<close>

definition scanStep :: "real \<Rightarrow> RectLayer \<Rightarrow> real \<times> real \<times> real \<times> real" where
  "scanStep delta layer =
     (let dir = (case scanDirection layer of None \<Rightarrow> Horizontal | Some d \<Rightarrow> d);
          speed = scanSpeed layer * delta;
          pos0 = (case scanPos layer of None \<Rightarrow> 0 | Some q \<Rightarrow> q)
      in if dir = Horizontal then
           (let newScanX = js_mod (scanX layer + speed) (max (layerWidth layer) 1);
                newScanPos = newScanX / max (layerWidth layer) 1;
                absX = of_int \<lfloor>layerX layer + newScanX\<rfloor>;
                absY = of_int \<lfloor>layerY layer + layerHeight layer / 2\<rfloor>
            in (newScanX, newScanPos, absX, absY))
         else if dir = Vertical then
           (let newScanPos = js_mod (pos0 + speed / max (layerHeight layer) 1) 1;
                absX = of_int \<lfloor>layerX layer + layerWidth layer / 2\<rfloor>;
                absY = of_int \<lfloor>layerY layer + newScanPos * layerHeight layer\<rfloor>
            in (scanX layer, newScanPos, absX, absY))
         else
           (let newScanPos =
                  js_mod (pos0 + speed / max (max (layerWidth layer) (layerHeight layer)) 1) 1;
                absX = of_int \<lfloor>layerX layer + newScanPos * layerWidth layer\<rfloor>;
                absY = of_int \<lfloor>layerY layer
                  + (if dir = DiagonalDown then newScanPos * layerHeight layer
                     else (1 - newScanPos) * layerHeight layer)\<rfloor>
            in (scanX layer, newScanPos, absX, absY)))"

text \<open>
  One layer of the \<open>forEach\<close>: a layer without an audio node is skipped; the calls on
  the audio node do not touch the store and are not part of this model.
\<close>

definition recordScan :: "real \<Rightarrow> (string \<Rightarrow> bool) \<Rightarrow> RectLayer \<Rightarrow> scanUpdates \<Rightarrow> scanUpdates" where
  "recordScan delta hasNode layer u =
     (if \<not> hasNode (layerId layer) then u
      else (case scanStep delta layer of
              (newScanX, newScanPos, absX, absY) \<Rightarrow>
                u(layerId layer \<mapsto> newScanX,
                  layerId layer @ '':pos'' \<mapsto> newScanPos,
                  layerId layer @ '':absX'' \<mapsto> absX,
                  layerId layer @ '':absY'' \<mapsto> absY)))"

definition collectScanUpdates :: "real \<Rightarrow> (string \<Rightarrow> bool) \<Rightarrow> RectLayer list \<Rightarrow> scanUpdates" where
  "collectScanUpdates delta hasNode layers = fold (recordScan delta hasNode) layers Map.empty"

text \<open>The updater handed to \<open>store.setState\<close>, on one layer of the store and on all.\<close>

definition writeBackLayer :: "scanUpdates \<Rightarrow> RectLayer \<Rightarrow> RectLayer" where
  "writeBackLayer u l =
     (case u (layerId l) of
        None \<Rightarrow> l
      | Some sx \<Rightarrow>
          l\<lparr>scanX := sx,
            scanPos := Some (case u (layerId l @ '':pos'') of
                               Some q \<Rightarrow> q
                             | None \<Rightarrow> (case scanPos l of Some q \<Rightarrow> q | None \<Rightarrow> 0))\<rparr>)"

definition writeBack :: "scanUpdates \<Rightarrow> RectLayer list \<Rightarrow> RectLayer list" where
  "writeBack u layers = map (writeBackLayer u) layers"

text \<open>
  The store's layers after one frame: \<open>read\<close> is the list the frame read from
  \<open>store.getState()\<close>, \<open>stored\<close> the list in the store when the updater runs.
\<close>

definition frameLayers ::
  "real \<Rightarrow> (string \<Rightarrow> bool) \<Rightarrow> bool \<Rightarrow> bool \<Rightarrow> RectLayer list \<Rightarrow> RectLayer list \<Rightarrow> RectLayer list" where
  "frameLayers delta hasNode isPlaying hasPixelData read stored =
     (if isPlaying \<and> hasPixelData \<and> length read > 0
      then writeBack (collectScanUpdates delta hasNode read) stored
      else stored)"

text \<open>A layer of the store to run the frame on.\<close>

definition layerA :: RectLayer where
  "layerA =
     \<lparr>layerId = ''layer-1'', layerX = 10, layerY = 20, layerWidth = 120, layerHeight = 48,
      scanX = 0, scanPos = Some 0, scanSpeed = 60, scanDirection = Some Horizontal,
      volume = 0.7, muted = False, generatedModeId = Some ''tonal-0'', pixelMode = Glide,
      soundSource = Synth, oscillatorType = Sine, sampleBuffer = None,
      color = ''#38bdf8'', label = ''Layer 1'', selected = False, effects = defaultEffects,
      paramOverrides = Some [], pitchSemitones = Some 0\<rparr>"

lemma writeBackLayer_other_fields:
  "(writeBackLayer u l)\<lparr>scanX := scanX l, scanPos := scanPos l\<rparr> = l"
  by (simp add: writeBackLayer_def split: option.splits)

text \<open>
  Claim C5. After a frame the store holds as many layers as before, and each of them is
  the layer that was in the store when the updater ran with at most \<open>scanX\<close> and
  \<open>scanPos\<close> replaced: putting these two fields back gives the stored layer, so every
  other field has the value it had in the store at write-back time, whatever the frame had
  read (\<open>read\<close> and \<open>stored\<close> are independent) and whether or not the frame wrote.
\<close>

theorem write_back_touches_only_scan_fields:
  "length (frameLayers delta hasNode isPlaying hasPixelData read stored) = length stored
   \<and> (\<forall>i < length stored.
        (frameLayers delta hasNode isPlaying hasPixelData read stored ! i)
          \<lparr>scanX := scanX (stored ! i), scanPos := scanPos (stored ! i)\<rparr> = stored ! i)"
  by (simp add: frameLayers_def writeBack_def writeBackLayer_other_fields)

theorem write_back_touches_only_scan_fields_witness:
  "frameLayers 0.1 (\<lambda>k. True) True True [layerA]
       [layerA\<lparr>paramOverrides := Some [(''grainDensity'', 40)], muted := True\<rparr>]
     = [layerA\<lparr>paramOverrides := Some [(''grainDensity'', 40)], muted := True,
               scanX := 6, scanPos := Some 0.05\<rparr>]
   \<and> (frameLayers 0.1 (\<lambda>k. True) True True [layerA]
       [layerA\<lparr>paramOverrides := Some [(''grainDensity'', 40)], muted := True\<rparr>] ! 0)
       \<lparr>scanX := 0, scanPos := Some 0\<rparr>
     = layerA\<lparr>paramOverrides := Some [(''grainDensity'', 40)], muted := True\<rparr>"
proof -
  have s: "scanStep 0.1 layerA = (6, 0.05, 16, 44)"
    by (simp add: scanStep_def layerA_def Let_def js_mod_def js_trunc_def)
  have f: "frameLayers 0.1 (\<lambda>k. True) True True [layerA]
       [layerA\<lparr>paramOverrides := Some [(''grainDensity'', 40)], muted := True\<rparr>]
     = [layerA\<lparr>paramOverrides := Some [(''grainDensity'', 40)], muted := True,
               scanX := 6, scanPos := Some 0.05\<rparr>]"
    by (simp add: frameLayers_def collectScanUpdates_def recordScan_def s writeBack_def
        writeBackLayer_def)
  from write_back_touches_only_scan_fields
         [where delta="0.1" and hasNode="\<lambda>k. True" and isPlaying=True and hasPixelData=True
            and read="[layerA]"
            and stored="[layerA\<lparr>paramOverrides := Some [(''grainDensity'', 40)], muted := True\<rparr>]"]
  have "(frameLayers 0.1 (\<lambda>k. True) True True [layerA]
       [layerA\<lparr>paramOverrides := Some [(''grainDensity'', 40)], muted := True\<rparr>] ! 0)
       \<lparr>scanX := 0, scanPos := Some 0\<rparr>
     = layerA\<lparr>paramOverrides := Some [(''grainDensity'', 40)], muted := True\<rparr>"
    by (simp add: layerA_def)
  with f show ?thesis by simp
qed

section \<open>EffectsChain\<close>

text \<open>
  The chain is the automation parameters of its nodes (\<open>node_param\<close> is the parameter
  \<open>param\<close> of the node \<open>node\<close>; a gain node is known by its gain), the curve of the
  wave shaper, the convolver's buffer and \<open>lastReverbDecay\<close>. An impulse response is known
  by its length and sample rate (its samples are decaying noise). \<open>impulseResponses\<close> lists
  every impulse response \<open>makeImpulseResponse\<close> has synthesized for the chain, newest
  first: one entry per call.
\<close>

record ImpulseResponse =
  irLength :: int
  irSampleRate :: real

record DistortionStage =
  distortionNode_curve :: "real list option"
  distortionBypass :: AudioParam
  distortionWet :: AudioParam

record EqStage =
  eqLow_frequency :: AudioParam
  eqLow_gain :: AudioParam
  eqMid_frequency :: AudioParam
  eqMid_Q :: AudioParam
  eqMid_gain :: AudioParam
  eqHigh_frequency :: AudioParam
  eqHigh_gain :: AudioParam
  eqWet :: AudioParam
  eqBypass :: AudioParam

record FlangerStage =
  flangerDelay_delayTime :: AudioParam
  flangerLFO_frequency :: AudioParam
  flangerLFOGain :: AudioParam
  flangerWet :: AudioParam
  flangerBypass :: AudioParam

record ChorusStage =
  chorusDelay_delayTime :: AudioParam
  chorusLFO_frequency :: AudioParam
  chorusLFOGain :: AudioParam
  chorusWet :: AudioParam
  chorusBypass :: AudioParam

record DelayStage =
  delayNode_delayTime :: AudioParam
  delayFeedbackGain :: AudioParam
  delayWet :: AudioParam
  delayDry :: AudioParam

record ReverbStage =
  reverbNode_buffer :: "ImpulseResponse option"
  reverbWet :: AudioParam
  reverbDry :: AudioParam
  lastReverbDecay :: real
  impulseResponses :: "ImpulseResponse list"

record EffectsChain =
  input_gain :: AudioParam
  output_gain :: AudioParam
  distortion :: DistortionStage
  equalizer :: EqStage
  flanger :: FlangerStage
  chorus :: ChorusStage
  delay :: DelayStage
  reverb :: ReverbStage

definition newEffectsChain :: "AudioContext \<Rightarrow> EffectsChain" where
  "newEffectsChain ctx =
     (let t = currentTime ctx in
      \<lparr>input_gain = createParam 1,
       output_gain = setValueAtTime 1 t (createParam 1),
       distortion =
         \<lparr>distortionNode_curve = None,
          distortionBypass = setValueAtTime 1 t (createParam 1),
          distortionWet = setValueAtTime 0 t (createParam 1)\<rparr>,
       equalizer =
         \<lparr>eqLow_frequency = setValueAtTime 300 t (createParam 350),
          eqLow_gain = createParam 0,
          eqMid_frequency = setValueAtTime 1000 t (createParam 350),
          eqMid_Q = setValueAtTime 1 t (createParam 1),
          eqMid_gain = createParam 0,
          eqHigh_frequency = setValueAtTime 3000 t (createParam 350),
          eqHigh_gain = createParam 0,
          eqWet = setValueAtTime 0 t (createParam 1),
          eqBypass = setValueAtTime 1 t (createParam 1)\<rparr>,
       flanger =
         \<lparr>flangerDelay_delayTime = setValueAtTime 0.004 t (createParam 0),
          flangerLFO_frequency = setValueAtTime 0.5 t (createParam 440),
          flangerLFOGain = setValueAtTime 0.003 t (createParam 1),
          flangerWet = setValueAtTime 0 t (createParam 1),
          flangerBypass = setValueAtTime 1 t (createParam 1)\<rparr>,
       chorus =
         \<lparr>chorusDelay_delayTime = setValueAtTime 0.01 t (createParam 0),
          chorusLFO_frequency = setValueAtTime 1.5 t (createParam 440),
          chorusLFOGain = setValueAtTime 0.006 t (createParam 1),
          chorusWet = setValueAtTime 0 t (createParam 1),
          chorusBypass = setValueAtTime 1 t (createParam 1)\<rparr>,
       delay =
         \<lparr>delayNode_delayTime = setValueAtTime 0.3 t (createParam 0),
          delayFeedbackGain = setValueAtTime 0.4 t (createParam 1),
          delayWet = setValueAtTime 0 t (createParam 1),
          delayDry = setValueAtTime 1 t (createParam 1)\<rparr>,
       reverb =
         \<lparr>reverbNode_buffer = None,
          reverbWet = setValueAtTime 0 t (createParam 1),
          reverbDry = setValueAtTime 1 t (createParam 1),
          lastReverbDecay = - 1,
          impulseResponses = []\<rparr>\<rparr>)"

















lemma insertEvent_last:
  "\<forall>x \<in> set evs. ev_time x \<le> ev_time e \<Longrightarrow> insertEvent e evs = evs @ [e]"
  by (induction evs) auto








section \<open>JavaScript numbers with NaN and the infinities\<close>

text \<open>
  Where a computation can leave the finite numbers (the analyzer divides by a count that
  can be zero and reads beyond the end of an array; \<open>snapToScale\<close> starts its search from
  \<open>Infinity\<close>), a \<open>number\<close> is a real, an infinity or NaN. Finite arithmetic is exact
  (no rounding) and zero carries no sign: a nonzero number over zero takes the sign of the
  numerator. A value \<open>undefined\<close> that only enters arithmetic is NaN.
\<close>

datatype num = Fin real | PInf | NInf | NaN

fun nneg :: "num \<Rightarrow> num" where
  "nneg (Fin a) = Fin (- a)"
| "nneg PInf = NInf"
| "nneg NInf = PInf"
| "nneg NaN = NaN"

fun nadd :: "num \<Rightarrow> num \<Rightarrow> num" where
  "nadd (Fin a) (Fin b) = Fin (a + b)"
| "nadd NaN y = NaN"
| "nadd x NaN = NaN"
| "nadd PInf NInf = NaN"
| "nadd NInf PInf = NaN"
| "nadd PInf y = PInf"
| "nadd x PInf = PInf"
| "nadd NInf y = NInf"
| "nadd x NInf = NInf"

definition nsub :: "num \<Rightarrow> num \<Rightarrow> num" where
  "nsub x y = nadd x (nneg y)"

fun nmul :: "num \<Rightarrow> num \<Rightarrow> num" where
  "nmul (Fin a) (Fin b) = Fin (a * b)"
| "nmul NaN y = NaN"
| "nmul x NaN = NaN"
| "nmul PInf (Fin b) = (if b = 0 then NaN else if 0 < b then PInf else NInf)"
| "nmul NInf (Fin b) = (if b = 0 then NaN else if 0 < b then NInf else PInf)"
| "nmul (Fin a) PInf = (if a = 0 then NaN else if 0 < a then PInf else NInf)"
| "nmul (Fin a) NInf = (if a = 0 then NaN else if 0 < a then NInf else PInf)"
| "nmul PInf PInf = PInf"
| "nmul PInf NInf = NInf"
| "nmul NInf PInf = NInf"
| "nmul NInf NInf = PInf"

fun ndiv :: "num \<Rightarrow> num \<Rightarrow> num" where
  "ndiv (Fin a) (Fin b) =
     (if b \<noteq> 0 then Fin (a / b) else if a = 0 then NaN else if 0 < a then PInf else NInf)"
| "ndiv NaN y = NaN"
| "ndiv x NaN = NaN"
| "ndiv (Fin a) PInf = Fin 0"
| "ndiv (Fin a) NInf = Fin 0"
| "ndiv PInf (Fin b) = (if 0 \<le> b then PInf else NInf)"
| "ndiv NInf (Fin b) = (if 0 \<le> b then NInf else PInf)"
| "ndiv x y = NaN"

text \<open>The comparisons \<open><\<close>, \<open>>\<close>, \<open>>=\<close>, \<open><=\<close> and \<open>===\<close>: false whenever a side is NaN.\<close>

fun nlt :: "num \<Rightarrow> num \<Rightarrow> bool" where
  "nlt (Fin a) (Fin b) = (a < b)"
| "nlt NaN y = False"
| "nlt x NaN = False"
| "nlt PInf y = False"
| "nlt x NInf = False"
| "nlt x y = True"

definition ngt :: "num \<Rightarrow> num \<Rightarrow> bool" where
  "ngt x y = nlt y x"

fun nge :: "num \<Rightarrow> num \<Rightarrow> bool" where
  "nge (Fin a) (Fin b) = (a \<ge> b)"
| "nge NaN y = False"
| "nge x NaN = False"
| "nge PInf y = True"
| "nge x NInf = True"
| "nge x y = False"


definition neq :: "num \<Rightarrow> num \<Rightarrow> bool" where
  "neq x y = (x \<noteq> NaN \<and> x = y)"

text \<open>\<open>Math.min\<close> and \<open>Math.max\<close> of two numbers (NaN when either is NaN).\<close>

fun nmin :: "num \<Rightarrow> num \<Rightarrow> num" where
  "nmin (Fin a) (Fin b) = Fin (min a b)"
| "nmin NaN y = NaN"
| "nmin x NaN = NaN"
| "nmin NInf y = NInf"
| "nmin x NInf = NInf"
| "nmin PInf y = y"
| "nmin x PInf = x"

fun nmax :: "num \<Rightarrow> num \<Rightarrow> num" where
  "nmax (Fin a) (Fin b) = Fin (max a b)"
| "nmax NaN y = NaN"
| "nmax x NaN = NaN"
| "nmax PInf y = PInf"
| "nmax x PInf = PInf"
| "nmax NInf y = y"
| "nmax x NInf = x"

fun nabs :: "num \<Rightarrow> num" where
  "nabs (Fin a) = Fin \<bar>a\<bar>"
| "nabs NaN = NaN"
| "nabs x = PInf"

fun nsqrt :: "num \<Rightarrow> num" where
  "nsqrt (Fin a) = (if a < 0 then NaN else Fin (sqrt a))"
| "nsqrt PInf = PInf"
| "nsqrt x = NaN"

fun nfloor :: "num \<Rightarrow> num" where
  "nfloor (Fin a) = Fin (of_int \<lfloor>a\<rfloor>)"
| "nfloor x = x"

fun nmod :: "num \<Rightarrow> num \<Rightarrow> num" where
  "nmod (Fin a) (Fin b) = (if b = 0 then NaN else Fin (js_mod a b))"
| "nmod NaN y = NaN"
| "nmod x NaN = NaN"
| "nmod (Fin a) y = Fin a"
| "nmod x y = NaN"

text \<open>\<open>Math.pow(2, x)\<close> and \<open>Math.log2(x)\<close>.\<close>

fun npow2 :: "num \<Rightarrow> num" where
  "npow2 (Fin a) = Fin (2 powr a)"
| "npow2 PInf = PInf"
| "npow2 NInf = Fin 0"
| "npow2 NaN = NaN"

fun nlog2 :: "num \<Rightarrow> num" where
  "nlog2 (Fin a) = (if 0 < a then Fin (log 2 a) else if a = 0 then NInf else NaN)"
| "nlog2 PInf = PInf"
| "nlog2 x = NaN"

text \<open>
  Reading an array of numbers at an index: \<open>undefined\<close> (here NaN, every such read
  enters arithmetic) outside the array and at an index that is not a whole number.
\<close>

definition nthInt :: "real list \<Rightarrow> int \<Rightarrow> num" where
  "nthInt xs k = (if 0 \<le> k \<and> k < int (length xs) then Fin (xs ! nat k) else NaN)"

fun nthNum :: "real list \<Rightarrow> num \<Rightarrow> num" where
  "nthNum xs (Fin a) = (if a = of_int \<lfloor>a\<rfloor> then nthInt xs \<lfloor>a\<rfloor> else NaN)"
| "nthNum xs x = NaN"

section \<open>Scales and frequencies\<close>

datatype ScaleType = Major | Minor | Pentatonic | Wholetone | Chromatic

fun SCALES :: "ScaleType \<Rightarrow> real list" where
  "SCALES Major = [1, 9/8, 5/4, 4/3, 3/2, 5/3, 15/8]"
| "SCALES Minor = [1, 9/8, 6/5, 4/3, 3/2, 8/5, 9/5]"
| "SCALES Pentatonic = [1, 9/8, 5/4, 3/2, 5/3]"
| "SCALES Wholetone = [1, 9/8, 5/4, 45/32, 3/2, 27/16]"
| "SCALES Chromatic = [1, 16/15, 9/8, 6/5, 5/4, 4/3, 45/32, 3/2, 8/5, 5/3, 9/5, 15/8]"

definition ROOT_NOTES :: "real list" where
  "ROOT_NOTES = [110, 116.54, 123.47, 130.81, 138.59, 146.83,
                 155.56, 164.81, 174.61, 185, 196, 207.65]"

text \<open>
  The two fields of an \<open>ImageProfile\<close> the frequency functions read; \<open>setModeParams\<close>
  passes an object holding just these two.
\<close>

record Tuning =
  rootHz :: num
  scaleRatios :: "real list"

definition BASE_NOTE :: real where
  "BASE_NOTE = 110"

definition PENTATONIC_RATIOS :: "real list" where
  "PENTATONIC_RATIOS = [1, 9 / 8, 5 / 4, 3 / 2, 5 / 3]"

definition brightnessToFrequency :: "real \<Rightarrow> 'a Tuning_scheme option \<Rightarrow> num" where
  "brightnessToFrequency brightness profile =
     (case profile of
        Some p \<Rightarrow>
          (let normalized = brightness / 255;
               octaveShift = \<lfloor>normalized * 3\<rfloor>;
               posInOctave = js_mod (normalized * 3) 1;
               degreeCount = int (length (scaleRatios p));
               degree = \<lfloor>posInOctave * of_int degreeCount\<rfloor>;
               ratio = nthInt (scaleRatios p) (min degree (degreeCount - 1))
           in nmul (nmul (rootHz p) (Fin (2 powr of_int octaveShift))) ratio)
      | None \<Rightarrow>
          (let normalized = brightness / 255;
               octave = \<lfloor>normalized * 3\<rfloor>;
               degree = \<lfloor>js_mod (normalized * 3) 1 * 5\<rfloor>
           in nmul (nmul (Fin BASE_NOTE) (Fin (2 powr of_int octave)))
                (nthInt PENTATONIC_RATIOS degree)))"

definition binToFrequency :: "nat \<Rightarrow> nat \<Rightarrow> 'a Tuning_scheme option \<Rightarrow> num" where
  "binToFrequency binIdx numBins profile =
     (let t = real binIdx / real numBins;
          brightness = t * 255
      in brightnessToFrequency brightness profile)"

section \<open>AudioLayerNode\<close>

text \<open>
  The value of an \<open>AudioParam\<close> method is a \<open>float\<close> of the interface definition
  language: the call raises a \<open>TypeError\<close> when the number is not finite, and also
  when it is finite but the nearest single-precision number is not, which is so from
  \<open>2^128 - 2^103\<close> on (half way from the largest single to \<open>2^128\<close>). Functions that
  pass a computed number to the audio graph return the error or the new state.
\<close>

datatype error = TypeError

definition FLOAT_LIMIT :: real where
  "FLOAT_LIMIT = 2 ^ 128 - 2 ^ 103"

definition fitsFloat :: "real \<Rightarrow> bool" where
  "fitsFloat v \<longleftrightarrow> \<bar>v\<bar> < FLOAT_LIMIT"

fun foldE :: "('a \<Rightarrow> 's \<Rightarrow> error + 's) \<Rightarrow> 'a list \<Rightarrow> 's \<Rightarrow> error + 's" where
  "foldE f [] s = Inr s"
| "foldE f (x # xs) s = (case f x s of Inl e \<Rightarrow> Inl e | Inr s' \<Rightarrow> foldE f xs s')"

definition NUM_BINS :: nat where
  "NUM_BINS = 24"

datatype ArchetypeId = Tonal | Rhythmic | Textural | Sub | Spectral | ChromaticNoise

record OscillatorWeighting =
  sine :: real
  triangle :: real
  sawtooth :: real
  square :: real

text \<open>
  \<open>ModeParams\<close>, every number finite. A field whose name another record of this theory
  has already taken carries the suffix \<open>_m\<close>.
\<close>

record ModeParams =
  archetype_m :: ArchetypeId
  binWeightCurve :: "real list"
  spectralSmoothing :: real
  detuneSpread_m :: real
  oscillatorType_m :: OscillatorWeighting
  attackTime :: real
  releaseTime :: real
  triggerThreshold :: real
  grainDensity_m :: real
  grainWidth :: real
  rootHz_m :: real
  scaleRatios_m :: "real list"
  harmonicRichness :: real
  stereoWidth_m :: real
  colorChannelBalance :: "real \<times> real \<times> real"
  outputGain :: real

text \<open>\<open>dominantOscType\<close>: the first entry, in the order of the object's keys, that no later
  entry exceeds.\<close>

definition dominantOscType :: "OscillatorWeighting \<Rightarrow> OscillatorType" where
  "dominantOscType w =
     fst (foldl (\<lambda>a b. if snd b > snd a then b else a) (Sine, sine w)
            [(Triangle, triangle w), (Sawtooth, sawtooth w), (Square, square w)])"

datatype FilterType = Allpass | Peaking | Lowpass

record Oscillator =
  osc_type :: OscillatorType
  osc_frequency :: AudioParam
  osc_detune :: AudioParam

record BiquadFilter =
  filter_type :: FilterType
  filter_frequency :: AudioParam
  filter_gain :: AudioParam
  filter_Q :: AudioParam

record Limiter =
  limiter_threshold :: AudioParam
  limiter_knee :: AudioParam
  limiter_ratio :: AudioParam
  limiter_attack :: AudioParam
  limiter_release :: AudioParam

text \<open>
  The fields of the class, grouped: the oscillator bank with its smoothing state, the
  mangle path, the sample path, and the rest. A gain node is known by its gain, a panner
  by its pan.
\<close>

record OscillatorBank =
  specOscs :: "Oscillator list"
  specGains :: "AudioParam list"
  weavePanners :: "AudioParam list"
  specMix :: AudioParam
  smoothedBins :: "real list"
  lastBinFreqs :: "real list"

record ManglePath =
  specMixGate :: AudioParam
  mangleSend :: AudioParam
  sampleMangleSend :: AudioParam
  mangleRingGain :: AudioParam
  mangleShaper_curve :: "real list"
  mangleReturn :: AudioParam
  mangleRingOsc :: Oscillator
  mangleRingFreq :: real

record SamplePath =
  sampleSource :: "AudioBuffer option"
  sampleGain :: AudioParam
  sampleModeGain :: AudioParam
  sampleFilter :: BiquadFilter
  sampleModeLevel :: real
  granular :: "GranularEngine option"
  sampleBuffer_n :: "AudioBuffer option"
  granularScanPos :: real
  pitchSemitones_n :: real

record AudioLayerNode =
  masterGain :: AudioParam
  limiter :: Limiter
  effects_n :: EffectsChain
  connected :: bool
  lastDt :: real
  currentParams :: "ModeParams option"
  bank :: OscillatorBank
  mangle :: ManglePath
  samplePath :: SamplePath
  lastTriggerTime :: real
  grainTimer_n :: real
  strikeEnvelope :: "real list"

definition makeMangleCurve :: "real \<Rightarrow> real list" where
  "makeMangleCurve amount =
     (let crush = max 1 \<lfloor>amount * 16\<rfloor>
      in map (\<lambda>i. let x = (real i * 2) / 512 - 1;
                      q = of_int (js_round (x * of_int crush)) / of_int crush
                  in tanh (q * (1 + amount * 3))) [0..<512])"

text \<open>
  A loop \<open>for (let i = 0; i < NUM_BINS; i++)\<close> that calls a method on entry \<open>i\<close> of an
  array. The constructor gives every array \<open>NUM_BINS\<close> entries; an index beyond an
  array, which would raise in JavaScript, leaves the list as it is.
\<close>

definition forBins :: "(nat \<Rightarrow> 'a \<Rightarrow> 'a) \<Rightarrow> 'a list \<Rightarrow> 'a list" where
  "forBins f xs = fold (\<lambda>i ys. ys[i := f i (ys ! i)]) [0..<NUM_BINS] xs"

definition silenceAllBins :: "real \<Rightarrow> OscillatorBank \<Rightarrow> OscillatorBank" where
  "silenceAllBins now b =
     b\<lparr>specGains :=
         forBins (\<lambda>i g. setValueAtTime 0 now (cancelScheduledValues now g)) (specGains b)\<rparr>"

definition updateBinFrequency ::
  "real \<Rightarrow> Tuning \<Rightarrow> nat \<Rightarrow> OscillatorBank \<Rightarrow> error + OscillatorBank" where
  "updateBinFrequency now profile i b =
     (let freq = binToFrequency i NUM_BINS (Some profile)
      in if ngt (nabs (nsub (Fin (lastBinFreqs b ! i)) freq)) (Fin 0.5)
         then (case freq of
                 Fin f \<Rightarrow>
                   if fitsFloat f then
                     Inr (b\<lparr>specOscs := (specOscs b)
                              [i := (specOscs b ! i)
                                 \<lparr>osc_frequency :=
                                    linearRampToValueAtTime f (now + 0.1)
                                      (osc_frequency (specOscs b ! i))\<rparr>],
                            lastBinFreqs := (lastBinFreqs b)[i := f]\<rparr>)
                   else Inl TypeError
               | _ \<Rightarrow> Inl TypeError)
         else Inr b)"

definition updateBinFrequencies ::
  "AudioContext \<Rightarrow> Tuning \<Rightarrow> OscillatorBank \<Rightarrow> error + OscillatorBank" where
  "updateBinFrequencies ctx profile b =
     foldE (updateBinFrequency (currentTime ctx) profile) [0..<NUM_BINS] b"

definition silence :: "real \<Rightarrow> real \<Rightarrow> AudioParam \<Rightarrow> AudioParam" where
  "silence v now p = setValueAtTime v now (cancelScheduledValues now p)"

text \<open>
  \<open>_initSampleRouting\<close>. A granular engine built here draws its random numbers from
  \<open>rnd\<close>. A looping source is known by its buffer.
\<close>

definition initSampleRouting ::
  "AudioContext \<Rightarrow> (nat \<Rightarrow> real) \<Rightarrow> ModeParams option \<Rightarrow> SamplePath \<Rightarrow> SamplePath" where
  "initSampleRouting ctx rnd params sp =
     (case sampleBuffer_n sp of
        None \<Rightarrow> sp
      | Some buf \<Rightarrow>
         (let now = currentTime ctx;
              archetype = (case params of Some p \<Rightarrow> archetype_m p | None \<Rightarrow> Tonal);
              useGranular = (archetype = Textural \<or> archetype = ChromaticNoise);
              sp1 = sp\<lparr>sampleSource := None\<rparr>
          in if useGranular then
               (let g = (case granular sp1 of
                           None \<Rightarrow> newGranularEngine ctx rnd
                         | Some g \<Rightarrow> g)
                in sp1\<lparr>granular := Some (reset ctx (setBuffer buf g)),
                       granularScanPos := 0,
                       sampleGain := silence 0 now (sampleGain sp1),
                       sampleModeGain := silence 0 now (sampleModeGain sp1)\<rparr>)
             else
               sp1\<lparr>granular := map_option (reset ctx) (granular sp1),
                    sampleSource := Some buf,
                    sampleGain := silence 0.8 now (sampleGain sp1),
                    sampleModeGain := silence 1 now (sampleModeGain sp1)\<rparr>))"

text \<open>
  \<open>setModeParams\<close>. Where retuning the oscillators raises, the call does not return and
  the result is the error.
\<close>

definition setModeParams ::
  "AudioContext \<Rightarrow> (nat \<Rightarrow> real) \<Rightarrow> ModeParams \<Rightarrow> AudioLayerNode \<Rightarrow> error + AudioLayerNode" where
  "setModeParams ctx rnd params s =
     (let now = currentTime ctx;
          b1 = silenceAllBins now (bank s);
          m1 = (mangle s)
                 \<lparr>mangleReturn := silence 0 now (mangleReturn (mangle s)),
                  mangleSend := silence 0 now (mangleSend (mangle s)),
                  sampleMangleSend := silence 0 now (sampleMangleSend (mangle s)),
                  specMixGate := silence 1 now (specMixGate (mangle s))\<rparr>;
          sp1 = (samplePath s)
                 \<lparr>sampleFilter := (sampleFilter (samplePath s))\<lparr>filter_type := Allpass\<rparr>\<rparr>
      in case updateBinFrequencies ctx
                \<lparr>rootHz = Fin (rootHz_m params), scaleRatios = scaleRatios_m params\<rparr> b1 of
           Inl e \<Rightarrow> Inl e
         | Inr b2 \<Rightarrow>
            (let oscType = dominantOscType (oscillatorType_m params);
                 oscs1 = map (\<lambda>osc. osc\<lparr>osc_type := oscType\<rparr>) (specOscs b2);
                 oscs2 = forBins (\<lambda>i osc. osc\<lparr>osc_detune :=
                            setTargetAtTime 0 now 0.05
                              (cancelScheduledValues now (osc_detune osc))\<rparr>) oscs1;
                 b3 = b2\<lparr>specOscs := oscs2,
                         smoothedBins := map (\<lambda>v. 0) (smoothedBins b2)\<rparr>;
                 sp2 = sp1\<lparr>sampleModeLevel := 0\<rparr>;
                 sp3 = (if sampleBuffer_n sp2 \<noteq> None
                        then initSampleRouting ctx rnd (Some params) sp2 else sp2)
             in Inr (s\<lparr>bank := b3, mangle := m1, samplePath := sp3,
                       currentParams := Some params,
                       grainTimer_n := 0, lastTriggerTime := 0\<rparr>)))"

text \<open>The constructor.\<close>

definition addBin :: "real \<Rightarrow> nat \<Rightarrow> OscillatorBank \<Rightarrow> error + OscillatorBank" where
  "addBin now i b =
     (case binToFrequency i NUM_BINS (None :: Tuning option) of
        Fin freq \<Rightarrow>
          Inr (b\<lparr>specOscs := specOscs b @
                   [\<lparr>osc_type = Sine,
                     osc_frequency = setValueAtTime freq now (createParam 440),
                     osc_detune = createParam 0\<rparr>],
                 specGains := specGains b @ [setValueAtTime 0 now (createParam 1)],
                 weavePanners := weavePanners b @ [setValueAtTime 0 now (createParam 0)],
                 lastBinFreqs := (lastBinFreqs b)[i := freq]\<rparr>)
      | _ \<Rightarrow> Inl TypeError)"

definition newAudioLayerNode :: "AudioContext \<Rightarrow> error + AudioLayerNode" where
  "newAudioLayerNode ctx =
     (let now = currentTime ctx;
          b0 = \<lparr>specOscs = [], specGains = [], weavePanners = [],
                specMix = setValueAtTime 1 now (createParam 1),
                smoothedBins = replicate NUM_BINS 0,
                lastBinFreqs = replicate NUM_BINS 0\<rparr>
      in case foldE (addBin now) [0..<NUM_BINS] b0 of
           Inl e \<Rightarrow> Inl e
         | Inr b \<Rightarrow>
            Inr \<lparr>masterGain = setValueAtTime 0 now (createParam 1),
                 limiter =
                   \<lparr>limiter_threshold = setValueAtTime (- 3) now (createParam (- 24)),
                    limiter_knee = setValueAtTime 3 now (createParam 30),
                    limiter_ratio = setValueAtTime 20 now (createParam 12),
                    limiter_attack = setValueAtTime 0.001 now (createParam 0.003),
                    limiter_release = setValueAtTime 0.1 now (createParam 0.25)\<rparr>,
                 effects_n = newEffectsChain ctx,
                 connected = True,
                 lastDt = 0.016,
                 currentParams = None,
                 bank = b,
                 mangle =
                   \<lparr>specMixGate = setValueAtTime 1 now (createParam 1),
                    mangleSend = setValueAtTime 0 now (createParam 1),
                    sampleMangleSend = setValueAtTime 0 now (createParam 1),
                    mangleRingGain = setValueAtTime 0.5 now (createParam 1),
                    mangleShaper_curve = makeMangleCurve 0.3,
                    mangleReturn = setValueAtTime 0 now (createParam 1),
                    mangleRingOsc =
                      \<lparr>osc_type = Sine,
                       osc_frequency = setValueAtTime 30 now (createParam 440),
                       osc_detune = createParam 0\<rparr>,
                    mangleRingFreq = 30\<rparr>,
                 samplePath =
                   \<lparr>sampleSource = None,
                    sampleGain = setValueAtTime 0 now (createParam 1),
                    sampleModeGain = setValueAtTime 0 now (createParam 1),
                    sampleFilter =
                      \<lparr>filter_type = Allpass, filter_frequency = createParam 350,
                       filter_gain = createParam 0, filter_Q = createParam 1\<rparr>,
                    sampleModeLevel = 0,
                    granular = None,
                    sampleBuffer_n = None,
                    granularScanPos = 0,
                    pitchSemitones_n = 0\<rparr>,
                 lastTriggerTime = 0,
                 grainTimer_n = 0,
                 strikeEnvelope = replicate NUM_BINS 0\<rparr>)"

text \<open>
  The invariant the constructor establishes: every per-bin array has \<open>NUM_BINS\<close>
  entries. \<open>params0\<close> is a set of mode parameters to call \<open>setModeParams\<close> with.
\<close>

definition wellFormed :: "AudioLayerNode \<Rightarrow> bool" where
  "wellFormed s \<longleftrightarrow>
     length (specOscs (bank s)) = NUM_BINS \<and> length (specGains (bank s)) = NUM_BINS
     \<and> length (weavePanners (bank s)) = NUM_BINS \<and> length (smoothedBins (bank s)) = NUM_BINS
     \<and> length (lastBinFreqs (bank s)) = NUM_BINS"

definition params0 :: ModeParams where
  "params0 =
     \<lparr>archetype_m = Textural, binWeightCurve = replicate 24 1, spectralSmoothing = 3,
      detuneSpread_m = 10, oscillatorType_m = \<lparr>sine = 1, triangle = 0, sawtooth = 0, square = 0\<rparr>,
      attackTime = 0.05, releaseTime = 0.3, triggerThreshold = 0.2, grainDensity_m = 20,
      grainWidth = 3, rootHz_m = 110, scaleRatios_m = SCALES Pentatonic,
      harmonicRichness = 0.3, stereoWidth_m = 0.4, colorChannelBalance = (0.33, 0.34, 0.33),
      outputGain = 0.8\<rparr>"

text \<open>
  A node in the middle of playback, to call \<open>setModeParams\<close> on: at time 1 every bin
  gain was set to 0.4 and the three mangle gains to 0.5, 0.3 and 0.6, and the smoothing
  state holds 0.7 in every bin. The call comes at time 2.
\<close>

definition ctx2 :: AudioContext where
  "ctx2 = \<lparr>currentTime = 2, sampleRate = 44100\<rparr>"

definition playingNode :: AudioLayerNode where
  "playingNode =
     (let s = projr (newAudioLayerNode ctx0)
      in s\<lparr>bank := (bank s)
                 \<lparr>specGains := map (silence 0.4 1) (specGains (bank s)),
                  smoothedBins := replicate NUM_BINS 0.7\<rparr>,
           mangle := (mangle s)
                 \<lparr>mangleSend := silence 0.5 1 (mangleSend (mangle s)),
                  sampleMangleSend := silence 0.3 1 (sampleMangleSend (mangle s)),
                  mangleReturn := silence 0.6 1 (mangleReturn (mangle s))\<rparr>\<rparr>)"


lemma fold_update_nth:
  "n \<le> length xs \<Longrightarrow>
   length (fold (\<lambda>i ys. ys[i := f i (ys ! i)]) [0..<n] xs) = length xs
   \<and> (\<forall>i < length xs. fold (\<lambda>i ys. ys[i := f i (ys ! i)]) [0..<n] xs ! i
          = (if i < n then f i (xs ! i) else xs ! i))"
proof (induction n)
  case 0
  show ?case by simp
next
  case (Suc n)
  let ?F = "\<lambda>i ys. ys[i := f i (ys ! i)]"
  let ?ys = "fold ?F [0..<n] xs"
  from Suc have n: "n < length xs" and
    len: "length ?ys = length xs" and
    nth: "\<And>i. i < length xs \<Longrightarrow> ?ys ! i = (if i < n then f i (xs ! i) else xs ! i)"
    by simp_all
  have step: "fold ?F [0..<Suc n] xs = ?ys[n := f n (?ys ! n)]"
    by simp
  show ?case
  proof (intro conjI allI impI)
    show "length (fold ?F [0..<Suc n] xs) = length xs"
      unfolding step by (simp add: len)
  next
    fix i assume i: "i < length xs"
    show "fold ?F [0..<Suc n] xs ! i = (if i < Suc n then f i (xs ! i) else xs ! i)"
      unfolding step using i n len nth[OF i] nth[OF n]
      by (cases "i = n") (simp_all add: nth_list_update)
  qed
qed

lemma fold_update_length:
  "length (fold (\<lambda>i ys. ys[i := g i ys]) js xs) = length xs"
  by (induction js arbitrary: xs) simp_all

lemma forBins_length: "length (forBins f xs) = length xs"
  unfolding forBins_def by (rule fold_update_length)

lemma forBins_nth:
  assumes "length xs = NUM_BINS" "i < NUM_BINS"
  shows "forBins f xs ! i = f i (xs ! i)"
  using assms fold_update_nth[of NUM_BINS xs f] by (simp add: forBins_def)

lemma timeline_silence:
  "timeline (silence v now p) = filter (\<lambda>e. ev_time e < now) (timeline p) @ [SetValueAtTime v now]"
  by (simp add: silence_def setValueAtTime_def schedule_def cancelScheduledValues_def
      insertEvent_last)

lemma valueAt_silence:
  assumes "now \<le> t"
  shows "valueAt (silence v now p) t = Some v"
proof -
  have a: "filter (\<lambda>e. t < ev_time e) (timeline (silence v now p)) = []"
    using assms by (auto simp: timeline_silence filter_empty_conv)
  have b: "filter (\<lambda>e. ev_time e \<le> t) (timeline (silence v now p)) = timeline (silence v now p)"
    using assms by (auto simp: timeline_silence intro: filter_cong)
  show ?thesis unfolding valueAt_def Let_def a b by (simp add: timeline_silence)
qed


text \<open>
  The frequency of a bin under a finite root: NaN where the scale has no ratio to read,
  and otherwise the root times 1, 2 or 4 times a ratio of the scale.
\<close>

lemma binToFrequency_cases:
  assumes "i < NUM_BINS"
  shows "binToFrequency i NUM_BINS (Some \<lparr>rootHz = Fin r, scaleRatios = rs\<rparr>) = NaN
       \<or> (\<exists>q \<in> set rs. \<exists>k. 0 \<le> k \<and> k \<le> 2
             \<and> binToFrequency i NUM_BINS (Some \<lparr>rootHz = Fin r, scaleRatios = rs\<rparr>)
                 = Fin (r * 2 powr of_int k * q))"
proof -
  define x where "x = real i / real NUM_BINS * 255 / 255 * 3"
  define k where "k = \<lfloor>x\<rfloor>"
  define j where "j = min \<lfloor>js_mod x 1 * of_int (int (length rs))\<rfloor> (int (length rs) - 1)"
  have "0 \<le> x" "x < 3" using assms by (simp_all add: x_def NUM_BINS_def)
  then have k: "0 \<le> k" "k \<le> 2" unfolding k_def by linarith+
  have v: "binToFrequency i NUM_BINS (Some \<lparr>rootHz = Fin r, scaleRatios = rs\<rparr>)
      = nmul (Fin (r * 2 powr of_int k)) (nthInt rs j)"
    unfolding binToFrequency_def brightnessToFrequency_def Let_def x_def k_def j_def
    by simp
  show ?thesis
  proof (cases "0 \<le> j \<and> j < int (length rs)")
    case True
    then have "nat j < length rs" by linarith
    with True have "nthInt rs j = Fin (rs ! nat j)" "rs ! nat j \<in> set rs"
      by (simp_all add: nthInt_def)
    with v k show ?thesis by auto
  next
    case False
    then have "nthInt rs j = NaN" by (auto simp: nthInt_def)
    with v show ?thesis by simp
  qed
qed

lemma updateBinFrequency_returns:
  assumes "i < NUM_BINS" "\<forall>q \<in> set rs. fitsFloat (4 * (r * q))"
  shows "\<exists>b'. updateBinFrequency now \<lparr>rootHz = Fin r, scaleRatios = rs\<rparr> i b = Inr b'"
proof -
  from binToFrequency_cases[OF assms(1), of r rs] show ?thesis
  proof
    assume "binToFrequency i NUM_BINS (Some \<lparr>rootHz = Fin r, scaleRatios = rs\<rparr>) = NaN"
    then show ?thesis by (simp add: updateBinFrequency_def Let_def ngt_def nsub_def)
  next
    assume "\<exists>q \<in> set rs. \<exists>k. 0 \<le> k \<and> k \<le> 2
             \<and> binToFrequency i NUM_BINS (Some \<lparr>rootHz = Fin r, scaleRatios = rs\<rparr>)
                 = Fin (r * 2 powr of_int k * q)"
    then obtain q k where q: "q \<in> set rs" "0 \<le> k" "k \<le> (2::int)"
      "binToFrequency i NUM_BINS (Some \<lparr>rootHz = Fin r, scaleRatios = rs\<rparr>)
         = Fin (r * 2 powr of_int k * q)" by blast
    have "(2::real) powr of_int k \<le> 2 powr of_int 2" using q(3) by (intro powr_mono) simp_all
    then have p: "(2::real) powr of_int k \<le> 4" by simp
    have "\<bar>r * 2 powr of_int k * q\<bar> = 2 powr of_int k * \<bar>r * q\<bar>"
      by (simp add: abs_mult mult.commute mult.left_commute)
    also have "\<dots> \<le> 4 * \<bar>r * q\<bar>" using p by (intro mult_right_mono) simp_all
    also have "\<dots> < FLOAT_LIMIT" using assms(2) q(1) by (simp add: fitsFloat_def abs_mult)
    finally have "fitsFloat (r * 2 powr of_int k * q)" by (simp add: fitsFloat_def)
    then show ?thesis by (simp add: updateBinFrequency_def Let_def q(4))
  qed
qed

lemma updateBinFrequencies_list_returns:
  assumes "\<forall>q \<in> set rs. fitsFloat (4 * (r * q))"
  shows "\<forall>i \<in> set is. i < NUM_BINS \<Longrightarrow>
         \<exists>b'. foldE (updateBinFrequency now \<lparr>rootHz = Fin r, scaleRatios = rs\<rparr>) is b = Inr b'"
proof (induction "is" arbitrary: b)
  case Nil
  then show ?case by simp
next
  case (Cons i "is")
  from Cons.prems have i: "i < NUM_BINS" by simp
  from updateBinFrequency_returns[OF i assms, of now b] obtain b1 where
    b1: "updateBinFrequency now \<lparr>rootHz = Fin r, scaleRatios = rs\<rparr> i b = Inr b1" by blast
  from Cons.IH[of b1] Cons.prems b1 show ?case by simp
qed

text \<open>What a retuning that returns leaves as it was.\<close>

lemma updateBinFrequency_effect:
  assumes "updateBinFrequency now profile i b = Inr b'"
  shows "specGains b' = specGains b \<and> smoothedBins b' = smoothedBins b
        \<and> weavePanners b' = weavePanners b
        \<and> length (specOscs b') = length (specOscs b)
        \<and> length (lastBinFreqs b') = length (lastBinFreqs b)"
  using assms by (auto simp: updateBinFrequency_def Let_def split: if_splits num.splits)

lemma updateBinFrequencies_list_effect:
  "foldE (updateBinFrequency now profile) is b = Inr b' \<Longrightarrow>
   specGains b' = specGains b \<and> smoothedBins b' = smoothedBins b
        \<and> weavePanners b' = weavePanners b
        \<and> length (specOscs b') = length (specOscs b)
        \<and> length (lastBinFreqs b') = length (lastBinFreqs b)"
proof (induction "is" arbitrary: b)
  case Nil
  then show ?case by simp
next
  case (Cons i "is")
  from Cons.prems obtain b1 where
    b1: "updateBinFrequency now profile i b = Inr b1"
      "foldE (updateBinFrequency now profile) is b1 = Inr b'"
    by (cases "updateBinFrequency now profile i b") simp_all
  from Cons.IH[OF b1(2)] updateBinFrequency_effect[OF b1(1)] show ?case by simp
qed

lemma silenceAllBins_gains:
  assumes "length (specGains b) = NUM_BINS" "i < NUM_BINS"
  shows "specGains (silenceAllBins now b) ! i = silence 0 now (specGains b ! i)"
  using assms by (simp add: silenceAllBins_def forBins_nth silence_def)

lemma silenceAllBins_other:
  "smoothedBins (silenceAllBins now b) = smoothedBins b"
  "length (specGains (silenceAllBins now b)) = length (specGains b)"
  "length (specOscs (silenceAllBins now b)) = length (specOscs b)"
  "length (lastBinFreqs (silenceAllBins now b)) = length (lastBinFreqs b)"
  "weavePanners (silenceAllBins now b) = weavePanners b"
  by (simp_all add: silenceAllBins_def forBins_length)

lemma setModeParams_effect:
  assumes "setModeParams ctx rnd params s = Inr s'"
  shows "specGains (bank s') = specGains (silenceAllBins (currentTime ctx) (bank s))
     \<and> smoothedBins (bank s') = map (\<lambda>v. 0) (smoothedBins (bank s))
     \<and> weavePanners (bank s') = weavePanners (bank s)
     \<and> length (specOscs (bank s')) = length (specOscs (bank s))
     \<and> length (lastBinFreqs (bank s')) = length (lastBinFreqs (bank s))
     \<and> mangleReturn (mangle s') = silence 0 (currentTime ctx) (mangleReturn (mangle s))
     \<and> mangleSend (mangle s') = silence 0 (currentTime ctx) (mangleSend (mangle s))
     \<and> sampleMangleSend (mangle s') = silence 0 (currentTime ctx) (sampleMangleSend (mangle s))
     \<and> specMixGate (mangle s') = silence 1 (currentTime ctx) (specMixGate (mangle s))
     \<and> currentParams s' = Some params
     \<and> grainTimer_n s' = 0 \<and> lastTriggerTime s' = 0
     \<and> sampleModeLevel (samplePath s') = 0"
proof -
  from assms obtain b2 where b2:
    "updateBinFrequencies ctx \<lparr>rootHz = Fin (rootHz_m params), scaleRatios = scaleRatios_m params\<rparr>
        (silenceAllBins (currentTime ctx) (bank s)) = Inr b2"
    by (cases "updateBinFrequencies ctx
                 \<lparr>rootHz = Fin (rootHz_m params), scaleRatios = scaleRatios_m params\<rparr>
                 (silenceAllBins (currentTime ctx) (bank s))")
       (simp_all add: setModeParams_def Let_def)
  note e = updateBinFrequencies_list_effect[OF b2[unfolded updateBinFrequencies_def]]
  have sp: "sampleModeLevel (initSampleRouting ctx rnd p x) = sampleModeLevel x" for p x
    by (simp add: initSampleRouting_def Let_def split: option.splits)
  from assms have "s' = projr (setModeParams ctx rnd params s)" by simp
  then show ?thesis
    by (simp add: b2 e silenceAllBins_other setModeParams_def Let_def forBins_length sp)
qed

lemma setModeParams_returns:
  assumes "\<forall>q \<in> set (scaleRatios_m params). fitsFloat (4 * (rootHz_m params * q))"
  shows "\<exists>s'. setModeParams ctx rnd params s = Inr s'"
proof -
  from updateBinFrequencies_list_returns[OF assms, of "[0..<NUM_BINS]" "currentTime ctx"
      "silenceAllBins (currentTime ctx) (bank s)"]
  obtain b2 where
    "updateBinFrequencies ctx \<lparr>rootHz = Fin (rootHz_m params), scaleRatios = scaleRatios_m params\<rparr>
        (silenceAllBins (currentTime ctx) (bank s)) = Inr b2"
    unfolding updateBinFrequencies_def by auto
  then show ?thesis by (simp add: setModeParams_def Let_def)
qed

lemma js_mod_1_bounds:
  assumes "0 \<le> x"
  shows "0 \<le> js_mod x 1 \<and> js_mod x 1 < 1"
proof -
  have "js_mod x 1 = x - of_int \<lfloor>x\<rfloor>"
    using assms by (simp add: js_mod_def js_trunc_def)
  then show ?thesis by linarith
qed

lemma pentatonic_degree:
  assumes "0 \<le> x"
  shows "\<exists>f. nthInt PENTATONIC_RATIOS \<lfloor>js_mod x 1 * 5\<rfloor> = Fin f"
proof -
  from js_mod_1_bounds[OF assms]
  have "0 \<le> \<lfloor>js_mod x 1 * 5\<rfloor>" "\<lfloor>js_mod x 1 * 5\<rfloor> < 5"
    by (simp_all add: floor_less_iff)
  then show ?thesis by (simp add: nthInt_def PENTATONIC_RATIOS_def)
qed

lemma fallback_frequency:
  "\<exists>f. binToFrequency i n (None :: Tuning option) = Fin f"
proof -
  have "0 \<le> real i / real n * 255 / 255 * 3" by simp
  from pentatonic_degree[OF this] obtain f where
    f: "nthInt PENTATONIC_RATIOS \<lfloor>js_mod (real i / real n * 255 / 255 * 3) 1 * 5\<rfloor> = Fin f"
    by blast
  show ?thesis
    unfolding binToFrequency_def brightnessToFrequency_def Let_def option.case f nmul.simps
    by blast
qed

lemma addBin_ok:
  "\<exists>b'. addBin now i b = Inr b'
     \<and> length (specOscs b') = Suc (length (specOscs b))
     \<and> length (specGains b') = Suc (length (specGains b))
     \<and> length (weavePanners b') = Suc (length (weavePanners b))
     \<and> smoothedBins b' = smoothedBins b
     \<and> length (lastBinFreqs b') = length (lastBinFreqs b)"
proof -
  from fallback_frequency[of i NUM_BINS] obtain f where
    "binToFrequency i NUM_BINS (None :: Tuning option) = Fin f" by blast
  then show ?thesis by (simp add: addBin_def)
qed

lemma addBins_ok:
  "\<exists>b'. foldE (addBin now) js b = Inr b'
     \<and> length (specOscs b') = length js + length (specOscs b)
     \<and> length (specGains b') = length js + length (specGains b)
     \<and> length (weavePanners b') = length js + length (weavePanners b)
     \<and> smoothedBins b' = smoothedBins b
     \<and> length (lastBinFreqs b') = length (lastBinFreqs b)"
proof (induction js arbitrary: b)
  case Nil
  then show ?case by simp
next
  case (Cons i js)
  from addBin_ok[of now i b] obtain b1 where
    b1: "addBin now i b = Inr b1"
      "length (specOscs b1) = Suc (length (specOscs b))"
      "length (specGains b1) = Suc (length (specGains b))"
      "length (weavePanners b1) = Suc (length (weavePanners b))"
      "smoothedBins b1 = smoothedBins b"
      "length (lastBinFreqs b1) = length (lastBinFreqs b)" by blast
  from Cons[of b1] b1 show ?case by simp
qed

lemma newAudioLayerNode_ok:
  "\<exists>s. newAudioLayerNode ctx = Inr s \<and> wellFormed s"
proof -
  let ?b0 = "\<lparr>specOscs = [], specGains = [], weavePanners = [],
                specMix = setValueAtTime 1 (currentTime ctx) (createParam 1),
                smoothedBins = replicate NUM_BINS 0,
                lastBinFreqs = replicate NUM_BINS 0\<rparr>"
  from addBins_ok[of "currentTime ctx" "[0..<NUM_BINS]" ?b0]
  obtain b where b: "foldE (addBin (currentTime ctx)) [0..<NUM_BINS] ?b0 = Inr b"
    "length (specOscs b) = NUM_BINS" "length (specGains b) = NUM_BINS"
    "length (weavePanners b) = NUM_BINS" "smoothedBins b = replicate NUM_BINS 0"
    "length (lastBinFreqs b) = NUM_BINS" by auto
  show ?thesis
    by (simp add: newAudioLayerNode_def Let_def b wellFormed_def)
qed

lemma playingNode_facts:
  "wellFormed playingNode"
  "\<forall>i < NUM_BINS. valueAt (specGains (bank playingNode) ! i) 2 = Some 0.4"
  "smoothedBins (bank playingNode) = replicate NUM_BINS 0.7"
  "valueAt (mangleSend (mangle playingNode)) 2 = Some 0.5"
  "valueAt (sampleMangleSend (mangle playingNode)) 2 = Some 0.3"
  "valueAt (mangleReturn (mangle playingNode)) 2 = Some 0.6"
proof -
  from newAudioLayerNode_ok[of ctx0] obtain s where
    s: "newAudioLayerNode ctx0 = Inr s" "wellFormed s" by blast
  then have len: "length (specGains (bank s)) = NUM_BINS" by (simp add: wellFormed_def)
  show "wellFormed playingNode"
    using s(2) by (simp add: playingNode_def Let_def s(1) wellFormed_def)
  show "\<forall>i < NUM_BINS. valueAt (specGains (bank playingNode) ! i) 2 = Some 0.4"
    using len by (simp add: playingNode_def Let_def s(1) valueAt_silence)
  show "smoothedBins (bank playingNode) = replicate NUM_BINS 0.7"
    by (simp add: playingNode_def Let_def s(1))
  show "valueAt (mangleSend (mangle playingNode)) 2 = Some 0.5"
    "valueAt (sampleMangleSend (mangle playingNode)) 2 = Some 0.3"
    "valueAt (mangleReturn (mangle playingNode)) 2 = Some 0.6"
    by (simp_all add: playingNode_def Let_def s(1) valueAt_silence)
qed

text \<open>
  Claim C4. On a node as the constructor builds it (every per-bin array has 24 entries),
  for every \<open>ModeParams\<close> argument and whatever the node held before: when
  \<open>setModeParams\<close> returns, in the node it leaves each of the 24 bin gains holds the
  value 0 from the time of the call on, with nothing scheduled after it, as do the gains
  of \<open>mangleSend\<close>, \<open>sampleMangleSend\<close> and \<open>mangleReturn\<close>, and
  \<open>smoothedBins\<close> is 24 zeros; this is the state before any later
  \<open>updateFromPixel\<close>. The call does return when four times the root times each scale
  ratio is within the range of a \<open>float\<close>; a frequency beyond that range makes the
  retuning raise a \<open>TypeError\<close>, and the call then does not return.
\<close>

theorem setModeParams_silences_bins:
  assumes "wellFormed s"
  shows "(\<forall>s'. setModeParams ctx rnd params s = Inr s' \<longrightarrow>
           wellFormed s'
           \<and> (\<forall>t \<ge> currentTime ctx.
                 (\<forall>i < NUM_BINS. valueAt (specGains (bank s') ! i) t = Some 0)
                 \<and> valueAt (mangleSend (mangle s')) t = Some 0
                 \<and> valueAt (sampleMangleSend (mangle s')) t = Some 0
                 \<and> valueAt (mangleReturn (mangle s')) t = Some 0)
           \<and> smoothedBins (bank s') = replicate NUM_BINS 0
           \<and> currentParams s' = Some params)
     \<and> ((\<forall>q \<in> set (scaleRatios_m params). fitsFloat (4 * (rootHz_m params * q))) \<longrightarrow>
           (\<exists>s'. setModeParams ctx rnd params s = Inr s'))
     \<and> NUM_BINS = 24"
proof (intro conjI allI impI)
  fix s' assume r: "setModeParams ctx rnd params s = Inr s'"
  note e = setModeParams_effect[OF r]
  from assms have len: "length (specGains (bank s)) = NUM_BINS"
    "length (smoothedBins (bank s)) = NUM_BINS" by (simp_all add: wellFormed_def)
  show "wellFormed s'"
    using assms by (simp add: wellFormed_def e silenceAllBins_other)
  show "smoothedBins (bank s') = replicate NUM_BINS 0"
    using len(2) by (simp add: e map_replicate_const)
  show "currentParams s' = Some params" by (simp add: e)
  fix t assume t: "currentTime ctx \<le> t"
  show "valueAt (mangleSend (mangle s')) t = Some 0"
    "valueAt (sampleMangleSend (mangle s')) t = Some 0"
    "valueAt (mangleReturn (mangle s')) t = Some 0"
    using t by (simp_all add: e valueAt_silence)
  fix i assume "i < NUM_BINS"
  then show "valueAt (specGains (bank s') ! i) t = Some 0"
    using t by (simp add: e silenceAllBins_gains[OF len(1)] valueAt_silence)
next
  assume "\<forall>q \<in> set (scaleRatios_m params). fitsFloat (4 * (rootHz_m params * q))"
  then show "\<exists>s'. setModeParams ctx rnd params s = Inr s'" by (rule setModeParams_returns)
next
  show "NUM_BINS = 24" by (simp add: NUM_BINS_def)
qed

theorem setModeParams_silences_bins_witness:
  "wellFormed playingNode
   \<and> valueAt (specGains (bank playingNode) ! 5) 2 = Some 0.4
   \<and> valueAt (mangleSend (mangle playingNode)) 2 = Some 0.5
   \<and> smoothedBins (bank playingNode) = replicate 24 0.7
   \<and> currentTime ctx2 = 2
   \<and> (\<exists>s'. setModeParams ctx2 (\<lambda>k. 1 / 2) params0 playingNode = Inr s'
        \<and> (\<forall>i < 24. valueAt (specGains (bank s') ! i) 2 = Some 0)
        \<and> valueAt (mangleSend (mangle s')) 2 = Some 0
        \<and> valueAt (sampleMangleSend (mangle s')) 2 = Some 0
        \<and> valueAt (mangleReturn (mangle s')) 2 = Some 0
        \<and> smoothedBins (bank s') = replicate 24 0)"
proof -
  note t = setModeParams_silences_bins[OF playingNode_facts(1), of ctx2 "\<lambda>k. 1 / 2" params0]
  have "\<forall>q \<in> set (scaleRatios_m params0). fitsFloat (4 * (rootHz_m params0 * q))"
    by (simp add: params0_def fitsFloat_def FLOAT_LIMIT_def)
  with t obtain s' where s': "setModeParams ctx2 (\<lambda>k. 1 / 2) params0 playingNode = Inr s'"
    by blast
  have c: "currentTime ctx2 = 2" by (simp add: ctx2_def)
  from t s' have after: "(\<forall>t \<ge> currentTime ctx2.
                 (\<forall>i < NUM_BINS. valueAt (specGains (bank s') ! i) t = Some 0)
                 \<and> valueAt (mangleSend (mangle s')) t = Some 0
                 \<and> valueAt (sampleMangleSend (mangle s')) t = Some 0
                 \<and> valueAt (mangleReturn (mangle s')) t = Some 0)"
    "smoothedBins (bank s') = replicate NUM_BINS 0"
    by blast+
  from after(1)[rule_format, of 2] c
  have a2: "\<forall>i < 24. valueAt (specGains (bank s') ! i) 2 = Some 0"
    "valueAt (mangleSend (mangle s')) 2 = Some 0"
    "valueAt (sampleMangleSend (mangle s')) 2 = Some 0"
    "valueAt (mangleReturn (mangle s')) 2 = Some 0"
    by (simp_all add: NUM_BINS_def)
  from playingNode_facts(2) have g5: "valueAt (specGains (bank playingNode) ! 5) 2 = Some 0.4"
    by (simp add: NUM_BINS_def)
  from s' a2 after(2) g5 playingNode_facts(1,3,4) c show ?thesis
    by (simp add: NUM_BINS_def)
qed

section \<open>brightnessToFrequency on a profile of the analyzer's scales\<close>























section \<open>The image analyzer\<close>

text \<open>
  The pixel buffer is the \<open>Uint8ClampedArray\<close> of the image, four bytes a pixel. A read
  beyond its end gives \<open>undefined\<close>, which the analyzer only ever adds and multiplies:
  NaN. Width and height are whole numbers.
\<close>

definition px :: "8 word list \<Rightarrow> nat \<Rightarrow> num" where
  "px pixelData i = (if i < length pixelData then Fin (real (unat (pixelData ! i))) else NaN)"

definition luma :: "num \<Rightarrow> num \<Rightarrow> num \<Rightarrow> num" where
  "luma r g b = nadd (nadd (nmul (Fin 0.299) r) (nmul (Fin 0.587) g)) (nmul (Fin 0.114) b)"

text \<open>\<open>Math.max(1, Math.floor((width * height) / k))\<close>, the step of both loops.\<close>

definition stride :: "nat \<Rightarrow> nat \<Rightarrow> nat \<Rightarrow> nat" where
  "stride width height k = max 1 ((width * height) div k)"

lemma stride_pos: "0 < stride width height k"
  by (simp add: stride_def)

subsection \<open>Spatial frequency estimation\<close>

text \<open>The counter \<open>n\<close> of the source is \<open>samples\<close>.\<close>

record SpatialAcc =
  diffClose :: num
  diffMid :: num
  diffFar :: num
  samples :: nat

record SpatialFreqs =
  high :: num
  mid :: num
  low :: num

text \<open>The body of the loop at index \<open>i\<close>, and the loop.\<close>

definition spatialStep :: "8 word list \<Rightarrow> nat \<Rightarrow> SpatialAcc \<Rightarrow> SpatialAcc" where
  "spatialStep pixelData i acc =
     (let lumaAt = (\<lambda>k. luma (px pixelData k) (px pixelData (k + 1)) (px pixelData (k + 2)));
          l0 = lumaAt i;
          l1 = lumaAt (i + 4);
          l4 = lumaAt (i + 4 * 4);
          l8 = lumaAt (nat (min (int i + 8 * 4) (int (length pixelData) - 4)))
      in acc\<lparr>diffClose := nadd (diffClose acc) (nabs (nsub l0 l1)),
              diffMid := nadd (diffMid acc) (nabs (nsub l0 l4)),
              diffFar := nadd (diffFar acc) (nabs (nsub l0 l8)),
              samples := Suc (samples acc)\<rparr>)"

function spatialLoop :: "8 word list \<Rightarrow> nat \<Rightarrow> nat \<Rightarrow> nat \<Rightarrow> SpatialAcc \<Rightarrow> SpatialAcc" where
  "spatialLoop pixelData width height i acc =
     (if int i < int (length pixelData) - 8 * 4
      then spatialLoop pixelData width height (i + stride width height 2048 * 4)
             (spatialStep pixelData i acc)
      else acc)"
  by pat_completeness auto
termination
  by (relation "measure (\<lambda>(pixelData, width, height, i, acc). length pixelData - i)")
     (use stride_pos in \<open>auto intro!: diff_less_mono2\<close>)

declare spatialLoop.simps [simp del]

definition estimateSpatialFreqs :: "8 word list \<Rightarrow> nat \<Rightarrow> nat \<Rightarrow> SpatialFreqs" where
  "estimateSpatialFreqs pixelData width height =
     (let acc = spatialLoop pixelData width height 0
                  \<lparr>diffClose = Fin 0, diffMid = Fin 0, diffFar = Fin 0, samples = 0\<rparr>;
          maxD = Fin 255
      in \<lparr>high = nmin (nmul (ndiv (ndiv (diffClose acc) (Fin (real (samples acc)))) maxD) (Fin 4)) (Fin 1),
          mid = nmin (nmul (ndiv (ndiv (diffMid acc) (Fin (real (samples acc)))) maxD) (Fin 3)) (Fin 1),
          low = nmin (nmul (ndiv (ndiv (diffFar acc) (Fin (real (samples acc)))) maxD) (Fin 2)) (Fin 1)\<rparr>)"

subsection \<open>The profile\<close>

record ScoreEntry =
  archetype :: ArchetypeId
  score :: num

text \<open>
  A generated mode is its archetype and score with an id, a name and a description. Its
  \<open>params\<close> (\<open>tuneParams\<close>) are computed for each entry after the selection and are not
  part of this model.
\<close>

record GeneratedMode = ScoreEntry +
  modeId :: string
  name :: string
  description :: string

record ImageProfile = Tuning +
  scale :: ScaleType
  warmth :: num
  saturation :: num
  brightness :: num
  contrast :: num
  detuneSpread :: num
  rhythmicDensity :: num
  spatialLow :: num
  spatialMid :: num
  spatialHigh :: num
  generatedModes :: "GeneratedMode list"

definition scoreTonal :: "ImageProfile \<Rightarrow> num" where
  "scoreTonal p =
     nadd (nadd (nmul (nsub (Fin 1) (contrast p)) (Fin 0.4))
                (nmul (ndiv (brightness p) (Fin 255)) (Fin 0.3)))
          (nmul (nsub (Fin 1) (spatialHigh p)) (Fin 0.3))"

definition scoreRhythmic :: "ImageProfile \<Rightarrow> num" where
  "scoreRhythmic p =
     nadd (nadd (nmul (contrast p) (Fin 0.5)) (nmul (spatialMid p) (Fin 0.3)))
          (nmul (rhythmicDensity p) (Fin 0.2))"

definition scoreTextural :: "ImageProfile \<Rightarrow> num" where
  "scoreTextural p =
     nadd (nadd (nmul (spatialHigh p) (Fin 0.5)) (nmul (contrast p) (Fin 0.3)))
          (nmul (nsub (Fin 1) (nabs (nsub (saturation p) (Fin 0.4)))) (Fin 0.2))"

definition scoreSub :: "ImageProfile \<Rightarrow> num" where
  "scoreSub p =
     nadd (nadd (nmul (nsub (Fin 1) (ndiv (brightness p) (Fin 255))) (Fin 0.5))
                (nmul (nsub (Fin 1) (warmth p)) (Fin 0.3)))
          (nmul (spatialLow p) (Fin 0.2))"

definition scoreSpectral :: "ImageProfile \<Rightarrow> num" where
  "scoreSpectral p =
     (let spatialVariety =
            nadd (nsub (Fin 1) (nmax (nmax (spatialLow p) (spatialMid p)) (spatialHigh p)))
                 (nmin (nmin (spatialLow p) (spatialMid p)) (spatialHigh p))
      in nadd (nadd (nmul (saturation p) (Fin 0.4)) (nmul spatialVariety (Fin 0.4)))
              (nmul (ndiv (brightness p) (Fin 255)) (Fin 0.2)))"

definition scoreChromaticNoise :: "ImageProfile \<Rightarrow> num" where
  "scoreChromaticNoise p =
     nadd (nadd (nmul (contrast p) (Fin 0.4)) (nmul (nsub (Fin 1) (saturation p)) (Fin 0.3)))
          (nmul (spatialHigh p) (Fin 0.3))"

fun archetypeName :: "ArchetypeId \<Rightarrow> string" where
  "archetypeName Tonal = ''tonal''"
| "archetypeName Rhythmic = ''rhythmic''"
| "archetypeName Textural = ''textural''"
| "archetypeName Sub = ''sub''"
| "archetypeName Spectral = ''spectral''"
| "archetypeName ChromaticNoise = ''chromatic_noise''"

fun names :: "ArchetypeId \<Rightarrow> (string \<times> string) list" where
  "names Tonal =
     [(''Sustain'', ''Long smooth tones shaped by the image's gradients''),
      (''Flow'', ''Continuous tones following the image's luminance curves''),
      (''Drift'', ''Slowly evolving tones, blurred across the spectrum'')]"
| "names Rhythmic =
     [(''Pulse'', ''Edges trigger percussive hits at the image's own rhythm''),
      (''Strike'', ''Hard edges become sharp percussive events''),
      (''Pattern'', ''The image's structure drives rhythmic repetition'')]"
| "names Textural =
     [(''Grain'', ''Fine texture becomes dense granular clusters''),
      (''Dust'', ''High-frequency detail scattered across the spectrum''),
      (''Scatter'', ''Image texture randomises grain timing and pitch'')]"
| "names Sub =
     [(''Deep'', ''Dark regions generate low sub-bass rumble''),
      (''Ground'', ''Image darkness anchors a deep sustained bass layer''),
      (''Weight'', ''The image's mass expressed as sub-bass pressure'')]"
| "names Spectral =
     [(''Shimmer'', ''All frequency bands active - the full image as sound''),
      (''Chorus'', ''Wide spectral spread, image colours in stereo''),
      (''Aura'', ''The image's complete spectral fingerprint'')]"
| "names ChromaticNoise =
     [(''Chaos'', ''High contrast becomes atonal noise bursts''),
      (''Static'', ''Image edges and transitions become chromatic noise''),
      (''Glitch'', ''The image's harshest moments expressed as glitch'')]"

definition nameForArchetype :: "ArchetypeId \<Rightarrow> ImageProfile \<Rightarrow> string \<times> string" where
  "nameForArchetype a profile =
     (let warm = ngt (warmth profile) (Fin 0.6);
          dark = nlt (brightness profile) (Fin 100);
          saturated = ngt (saturation profile) (Fin 0.5);
          pool = names a;
          idx = (if warm then 1 else 0) + (if dark then 2 else 0) + (if saturated then 1 else 0)
      in pool ! (idx mod length pool))"

subsection \<open>The colour statistics loop\<close>

record ColorAcc =
  totalR :: num
  totalG :: num
  totalB :: num
  brightnessValues :: "num list"
  count :: nat

definition colorStep :: "8 word list \<Rightarrow> nat \<Rightarrow> ColorAcc \<Rightarrow> ColorAcc" where
  "colorStep pixelData i acc =
     (let r = px pixelData i; g = px pixelData (i + 1); b = px pixelData (i + 2)
      in acc\<lparr>totalR := nadd (totalR acc) r,
              totalG := nadd (totalG acc) g,
              totalB := nadd (totalB acc) b,
              brightnessValues := brightnessValues acc @ [luma r g b],
              count := Suc (count acc)\<rparr>)"

function colorLoop :: "8 word list \<Rightarrow> nat \<Rightarrow> nat \<Rightarrow> nat \<Rightarrow> ColorAcc \<Rightarrow> ColorAcc" where
  "colorLoop pixelData width height i acc =
     (if i < length pixelData
      then colorLoop pixelData width height (i + stride width height 4096 * 4)
             (colorStep pixelData i acc)
      else acc)"
  by pat_completeness auto
termination
  by (relation "measure (\<lambda>(pixelData, width, height, i, acc). length pixelData - i)")
     (use stride_pos in \<open>auto intro!: diff_less_mono2\<close>)

declare colorLoop.simps [simp del]

subsection \<open>Sorting and selecting the archetypes\<close>

text \<open>
  \<open>Array.prototype.sort\<close> with a comparator: a stable sort in which \<open>x\<close> goes after
  \<open>y\<close> when the comparator gives a number above 0 for \<open>(x, y)\<close>; a comparator result of
  NaN counts as 0. Written as an insertion sort; where the comparator is a consistent
  ordering, as it is on scores that are all numbers or all NaN, the language fixes the
  result and this is it.
\<close>

fun sortInsert :: "('a \<Rightarrow> 'a \<Rightarrow> num) \<Rightarrow> 'a \<Rightarrow> 'a list \<Rightarrow> 'a list" where
  "sortInsert cmp x [] = [x]"
| "sortInsert cmp x (y # ys) =
     (if ngt (cmp x y) (Fin 0) then y # sortInsert cmp x ys else x # y # ys)"

definition arraySort :: "('a \<Rightarrow> 'a \<Rightarrow> num) \<Rightarrow> 'a list \<Rightarrow> 'a list" where
  "arraySort cmp xs = foldr (sortInsert cmp) xs []"

definition MIN_MODES :: nat where "MIN_MODES = 3"
definition MAX_MODES :: nat where "MAX_MODES = 5"
definition THRESHOLD :: num where "THRESHOLD = Fin 0.25"

text \<open>\<open>scores.filter((s, i) => i < MIN_MODES || (i < MAX_MODES && s.score >= THRESHOLD))\<close>\<close>

definition selectModes :: "ScoreEntry list \<Rightarrow> ScoreEntry list" where
  "selectModes scores =
     map snd (filter (\<lambda>(i, s). i < MIN_MODES \<or> (i < MAX_MODES \<and> nge (score s) THRESHOLD))
                (enumerate 0 scores))"

fun digits :: "nat \<Rightarrow> string" where
  "digits k = (if k < 10 then [char_of (48 + k)] else digits (k div 10) @ [char_of (48 + k mod 10)])"

declare digits.simps [simp del]

definition makeMode :: "ImageProfile \<Rightarrow> nat \<times> ScoreEntry \<Rightarrow> GeneratedMode" where
  "makeMode profile e =
     (case e of (idx, s) \<Rightarrow>
        (case nameForArchetype (archetype s) profile of (nm, ds) \<Rightarrow>
           \<lparr>archetype = archetype s, score = score s,
            modeId = archetypeName (archetype s) @ ''-'' @ digits idx,
            name = nm, description = ds\<rparr>))"

subsection \<open>analyzeImage\<close>

text \<open>
  The right-hand sides of the constants \<open>analyzeImage\<close> computes, one function each, in
  the order of the source; \<open>analyzeImage\<close> below binds them as the source does.
\<close>

definition average :: "num list \<Rightarrow> num" where
  "average bvs = ndiv (foldl nadd (Fin 0) bvs) (Fin (real (length bvs)))"

definition varianceOf :: "num list \<Rightarrow> num \<Rightarrow> num" where
  "varianceOf bvs avgBrightness =
     ndiv (foldl (\<lambda>a v. nadd a (nmul (nsub v avgBrightness) (nsub v avgBrightness)))
             (Fin 0) bvs)
          (Fin (real (length bvs)))"

definition contrastOf :: "num \<Rightarrow> num" where
  "contrastOf variance = nmin (ndiv (nsqrt variance) (Fin 80)) (Fin 1)"

definition warmthOf :: "num \<Rightarrow> num \<Rightarrow> num" where
  "warmthOf avgR avgB =
     nmax (Fin 0) (nmin (Fin 1) (nadd (nmul (ndiv (nsub avgR avgB) (Fin 128)) (Fin 0.5)) (Fin 0.5)))"

definition saturationOf :: "num \<Rightarrow> num \<Rightarrow> num" where
  "saturationOf maxC minC = (if ngt maxC (Fin 0) then ndiv (nsub maxC minC) maxC else Fin 0)"

definition hueOf :: "num \<Rightarrow> num \<Rightarrow> num \<Rightarrow> num \<Rightarrow> num \<Rightarrow> num" where
  "hueOf avgR avgG avgB maxC minC =
     (if ngt (nsub maxC minC) (Fin 1) then
        ndiv (if neq maxC avgR then
                nmod (nadd (ndiv (nsub avgG avgB) (nsub maxC minC)) (Fin 6)) (Fin 6)
              else if neq maxC avgG then
                nadd (ndiv (nsub avgB avgR) (nsub maxC minC)) (Fin 2)
              else nadd (ndiv (nsub avgR avgG) (nsub maxC minC)) (Fin 4))
             (Fin 6)
      else Fin 0)"

definition rootOf :: "num \<Rightarrow> num" where
  "rootOf hue = nthNum ROOT_NOTES (nmod (nfloor (nmul hue (Fin 12))) (Fin 12))"

definition scaleOf :: "num \<Rightarrow> num \<Rightarrow> num \<Rightarrow> ScaleType" where
  "scaleOf sat warm con =
     (if nlt sat (Fin 0.15) then
        (if ngt con (Fin 0.6) then Chromatic else Wholetone)
      else if ngt warm (Fin 0.6) then
        (if ngt con (Fin 0.5) then Major else Pentatonic)
      else if nlt warm (Fin 0.4) then Minor
      else Pentatonic)"

definition scoreAll :: "ImageProfile \<Rightarrow> ScoreEntry list" where
  "scoreAll profile =
     [\<lparr>archetype = Tonal, score = scoreTonal profile\<rparr>,
      \<lparr>archetype = Rhythmic, score = scoreRhythmic profile\<rparr>,
      \<lparr>archetype = Textural, score = scoreTextural profile\<rparr>,
      \<lparr>archetype = Sub, score = scoreSub profile\<rparr>,
      \<lparr>archetype = Spectral, score = scoreSpectral profile\<rparr>,
      \<lparr>archetype = ChromaticNoise, score = scoreChromaticNoise profile\<rparr>]"

definition generate :: "ImageProfile \<Rightarrow> GeneratedMode list" where
  "generate profile =
     (let scores = arraySort (\<lambda>a b. nsub (score b) (score a)) (scoreAll profile);
          selected = selectModes scores
      in map (makeMode profile) (enumerate 0 selected))"

text \<open>
  The profile as \<open>analyzeImage\<close> builds it before it scores the archetypes, its
  \<open>generatedModes\<close> empty, and \<open>analyzeImage\<close>, which fills them in. The constants
  \<open>contrast\<close>, \<open>warmth\<close>, \<open>saturation\<close>, \<open>rootHz\<close>, \<open>scale\<close>, \<open>detuneSpread\<close> and
  \<open>rhythmicDensity\<close> of the source are \<open>con\<close>, \<open>warm\<close>, \<open>sat\<close>, \<open>root\<close>, \<open>scl\<close>,
  \<open>detune\<close> and \<open>density\<close>: the fields of the profile have the names.
\<close>

definition measureProfile :: "8 word list \<Rightarrow> nat \<Rightarrow> nat \<Rightarrow> ImageProfile" where
  "measureProfile pixelData width height =
     (let acc = colorLoop pixelData width height 0
                  \<lparr>totalR = Fin 0, totalG = Fin 0, totalB = Fin 0,
                   brightnessValues = [], count = 0\<rparr>;
          avgR = ndiv (totalR acc) (Fin (real (count acc)));
          avgG = ndiv (totalG acc) (Fin (real (count acc)));
          avgB = ndiv (totalB acc) (Fin (real (count acc)));
          avgBrightness = average (brightnessValues acc);
          variance = varianceOf (brightnessValues acc) avgBrightness;
          con = contrastOf variance;
          warm = warmthOf avgR avgB;
          maxC = nmax (nmax avgR avgG) avgB;
          minC = nmin (nmin avgR avgG) avgB;
          sat = saturationOf maxC minC;
          hue = hueOf avgR avgG avgB maxC minC;
          root = rootOf hue;
          scl = scaleOf sat warm con;
          spatial = estimateSpatialFreqs pixelData width height;
          detune = nmin (nmul sat (Fin 1.5)) (Fin 1);
          density = con
      in \<lparr>rootHz = root, scaleRatios = SCALES scl, scale = scl,
          warmth = warm, saturation = sat, brightness = avgBrightness,
          contrast = con, detuneSpread = detune,
          rhythmicDensity = density,
          spatialLow = low spatial, spatialMid = mid spatial,
          spatialHigh = high spatial, generatedModes = []\<rparr>)"

definition analyzeImage :: "8 word list \<Rightarrow> nat \<Rightarrow> nat \<Rightarrow> ImageProfile" where
  "analyzeImage pixelData width height =
     (let profile = measureProfile pixelData width height
      in profile\<lparr>generatedModes := generate profile\<rparr>)"

subsection \<open>Arithmetic with NaN\<close>

definition isFin :: "num \<Rightarrow> bool" where
  "isFin v \<longleftrightarrow> (\<exists>a. v = Fin a)"

lemma isFin_Fin [simp]: "isFin (Fin a)" and not_isFin_NaN [simp]: "\<not> isFin NaN"
  by (simp_all add: isFin_def)

lemma nadd_NaN_right [simp]: "nadd x NaN = NaN" by (cases x) simp_all
lemma nmul_NaN_right [simp]: "nmul x NaN = NaN" by (cases x) simp_all
lemma ndiv_NaN_right [simp]: "ndiv x NaN = NaN" by (cases x) simp_all
lemma nmin_NaN_right [simp]: "nmin x NaN = NaN" by (cases x) simp_all
lemma nmax_NaN_right [simp]: "nmax x NaN = NaN" by (cases x) simp_all
lemma nsub_NaN [simp]: "nsub x NaN = NaN" "nsub NaN y = NaN" by (simp_all add: nsub_def)
lemma nsub_Fin [simp]: "nsub (Fin a) (Fin b) = Fin (a - b)" by (simp add: nsub_def)
lemma nlt_NaN_right [simp]: "nlt x NaN = False" by (cases x) simp_all
lemma nge_NaN_right [simp]: "nge x NaN = False" by (cases x) simp_all
lemma ngt_NaN [simp]: "ngt x NaN = False" "ngt NaN y = False" by (simp_all add: ngt_def)
lemma ngt_Fin [simp]: "ngt (Fin a) (Fin b) = (b < a)" by (simp add: ngt_def)

subsection \<open>The sort\<close>

lemma sortInsert_length [simp]: "length (sortInsert cmp x ys) = Suc (length ys)"
  by (induction ys) simp_all

lemma arraySort_length [simp]: "length (arraySort cmp xs) = length xs"
  by (induction xs) (simp_all add: arraySort_def)

lemma sortInsert_set [simp]: "set (sortInsert cmp x ys) = insert x (set ys)"
  by (induction ys) auto

lemma arraySort_set [simp]: "set (arraySort cmp xs) = set xs"
  by (induction xs) (simp_all add: arraySort_def)

lemma sortInsert_NaN:
  "score x = NaN \<Longrightarrow> sortInsert (\<lambda>a b. nsub (score b) (score a)) x ys = x # ys"
  by (cases ys) simp_all

lemma arraySort_Cons: "arraySort cmp (x # xs) = sortInsert cmp x (arraySort cmp xs)"
  by (simp add: arraySort_def)

lemma arraySort_NaN:
  "\<forall>x \<in> set xs. score x = NaN \<Longrightarrow> arraySort (\<lambda>a b. nsub (score b) (score a)) xs = xs"
proof (induction xs)
  case Nil
  then show ?case by (simp add: arraySort_def)
next
  case (Cons x xs)
  then have "arraySort (\<lambda>a b. nsub (score b) (score a)) xs = xs" by simp
  then show ?case using Cons.prems by (simp add: arraySort_def sortInsert_NaN)
qed

lemma sortInsert_sorted:
  assumes "sorted_wrt (\<lambda>a b. nge (score a) (score b)) ys"
    and "isFin (score x)" and "\<forall>y \<in> set ys. isFin (score y)"
  shows "sorted_wrt (\<lambda>a b. nge (score a) (score b))
           (sortInsert (\<lambda>a b. nsub (score b) (score a)) x ys)"
  using assms
proof (induction ys)
  case Nil
  then show ?case by simp
next
  case (Cons y ys)
  from Cons.prems obtain a b where ab: "score x = Fin a" "score y = Fin b"
    by (auto simp: isFin_def)
  show ?case
  proof (cases "a < b")
    case True
    have "sorted_wrt (\<lambda>a b. nge (score a) (score b))
            (sortInsert (\<lambda>a b. nsub (score b) (score a)) x ys)"
      using Cons by simp
    with True Cons.prems show ?thesis by (auto simp: ab)
  next
    case False
    have "nge (score x) (score z)" if "z \<in> set ys" for z
    proof -
      from that Cons.prems obtain c where c: "score z = Fin c" by (auto simp: isFin_def)
      from that Cons.prems(1) have "nge (score y) (score z)" by simp
      with False show ?thesis by (simp add: ab c)
    qed
    with False Cons.prems show ?thesis by (auto simp: ab)
  qed
qed

lemma arraySort_sorted:
  assumes "\<forall>x \<in> set xs. isFin (score x)"
  shows "sorted_wrt (\<lambda>a b. nge (score a) (score b))
           (arraySort (\<lambda>a b. nsub (score b) (score a)) xs)"
  using assms
proof (induction xs)
  case Nil
  then show ?case by (simp add: arraySort_def)
next
  case (Cons x xs)
  then have s: "sorted_wrt (\<lambda>a b. nge (score a) (score b))
           (arraySort (\<lambda>a b. nsub (score b) (score a)) xs)" by simp
  have f: "\<forall>y \<in> set (arraySort (\<lambda>a b. nsub (score b) (score a)) xs). isFin (score y)"
    using Cons.prems by simp
  have x: "isFin (score x)" using Cons.prems by simp
  show ?case unfolding arraySort_Cons by (rule sortInsert_sorted[OF s x f])
qed

subsection \<open>The selection\<close>

lemma length_6:
  assumes "length xs = 6"
  obtains a b c d e f where "xs = [a, b, c, d, e, f]"
proof -
  from assms obtain a r1 where "xs = a # r1" "length r1 = 5" by (cases xs) auto
  moreover then obtain b r2 where "r1 = b # r2" "length r2 = 4" by (cases r1) auto
  moreover then obtain c r3 where "r2 = c # r3" "length r3 = 3" by (cases r2) auto
  moreover then obtain d r4 where "r3 = d # r4" "length r4 = 2" by (cases r3) auto
  moreover then obtain e r5 where "r4 = e # r5" "length r5 = 1" by (cases r4) auto
  moreover then obtain f where "r5 = [f]" by (cases r5) auto
  ultimately show ?thesis using that by simp
qed

lemma selectModes_6:
  "selectModes [a, b, c, d, e, f] =
     [a, b, c] @ (if nge (score d) THRESHOLD then [d] else [])
               @ (if nge (score e) THRESHOLD then [e] else [])"
  by (simp add: selectModes_def MIN_MODES_def MAX_MODES_def enumerate_eq_zip upt_rec)

lemma nge_not_nlt: "nge x y \<Longrightarrow> \<not> nlt x y"
  by (cases x; cases y) simp_all

lemma makeMode_fields [simp]:
  "score (makeMode p e) = score (snd e)" "archetype (makeMode p e) = archetype (snd e)"
  by (simp_all add: makeMode_def split: prod.splits)

lemma map_snd_enumerate_fun:
  "map (\<lambda>e. f (snd e)) (enumerate k xs) = map f xs"
  by (induction xs arbitrary: k) simp_all

lemma generate_scores:
  "map score (generate p)
     = map score (selectModes (arraySort (\<lambda>a b. nsub (score b) (score a)) (scoreAll p)))"
  "map archetype (generate p)
     = map archetype (selectModes (arraySort (\<lambda>a b. nsub (score b) (score a)) (scoreAll p)))"
  by (simp_all add: generate_def Let_def o_def map_snd_enumerate_fun)

text \<open>What the selection gives on six sorted scores, and on six scores that are NaN.\<close>

definition selectionOk :: "num list \<Rightarrow> bool" where
  "selectionOk vs \<longleftrightarrow>
     3 \<le> length vs \<and> length vs \<le> 5
     \<and> sorted_wrt (\<lambda>a b. \<not> nlt a b) vs
     \<and> (\<forall>v \<in> set (drop 3 vs). nge v (Fin 0.25))"

lemma select_sorted:
  assumes "length xs = 6" "sorted_wrt (\<lambda>a b. nge (score a) (score b)) xs"
  shows "selectionOk (map score (selectModes xs))
       \<and> sorted_wrt nge (map score (selectModes xs))"
proof -
  from assms(1) obtain a b c d e f where xs: "xs = [a, b, c, d, e, f]" by (rule length_6)
  from assms(2) have o: "nge (score a) (score b)" "nge (score a) (score c)"
    "nge (score a) (score d)" "nge (score a) (score e)" "nge (score b) (score c)"
    "nge (score b) (score d)" "nge (score b) (score e)" "nge (score c) (score d)"
    "nge (score c) (score e)" "nge (score d) (score e)"
    by (simp_all add: xs)
  note n = o[THEN nge_not_nlt]
  consider (A) "\<not> nge (score d) THRESHOLD" "\<not> nge (score e) THRESHOLD"
    | (B) "nge (score d) THRESHOLD" "\<not> nge (score e) THRESHOLD"
    | (C) "\<not> nge (score d) THRESHOLD" "nge (score e) THRESHOLD"
    | (D) "nge (score d) THRESHOLD" "nge (score e) THRESHOLD" by blast
  then show ?thesis
  proof cases
    case A
    then have s: "selectModes xs = [a, b, c]" by (simp add: xs selectModes_6)
    show ?thesis unfolding s selectionOk_def using o n by simp
  next
    case B
    then have s: "selectModes xs = [a, b, c, d]" by (simp add: xs selectModes_6)
    show ?thesis unfolding s selectionOk_def using o n B
      by (simp add: THRESHOLD_def)
  next
    case C
    then have s: "selectModes xs = [a, b, c, e]" by (simp add: xs selectModes_6)
    show ?thesis unfolding s selectionOk_def using o n C
      by (simp add: THRESHOLD_def)
  next
    case D
    then have s: "selectModes xs = [a, b, c, d, e]" by (simp add: xs selectModes_6)
    show ?thesis unfolding s selectionOk_def using o n D
      by (simp add: THRESHOLD_def)
  qed
qed

lemma select_NaN:
  assumes "xs = [a, b, c, d, e, f]" "\<forall>x \<in> set xs. score x = NaN"
  shows "selectModes xs = [a, b, c]"
  using assms by (simp add: selectModes_6 THRESHOLD_def)

subsection \<open>The colour statistics\<close>

text \<open>
  The accumulator of the colour loop is either all numbers, or holds a brightness that is
  NaN together with a green or blue total that is NaN (a read beyond the buffer).
\<close>

definition goodAcc :: "ColorAcc \<Rightarrow> bool" where
  "goodAcc acc \<longleftrightarrow>
     isFin (totalR acc) \<and> isFin (totalG acc) \<and> isFin (totalB acc)
     \<and> (\<forall>v \<in> set (brightnessValues acc). isFin v)"

definition badAcc :: "ColorAcc \<Rightarrow> bool" where
  "badAcc acc \<longleftrightarrow>
     NaN \<in> set (brightnessValues acc) \<and> (totalG acc = NaN \<or> totalB acc = NaN)"

lemma px_cases: "isFin (px pd i) \<or> px pd i = NaN"
  by (simp add: px_def)

lemma px_in_range: "i < length pd \<Longrightarrow> px pd i = Fin (real (unat (pd ! i)))"
  by (simp add: px_def)

lemma luma_Fin: "luma (Fin r) (Fin g) (Fin b) = Fin (0.299 * r + 0.587 * g + 0.114 * b)"
  by (simp add: luma_def)

lemma luma_NaN: "luma r NaN b = NaN" "luma r g NaN = NaN"
  by (simp_all add: luma_def)

lemma colorStep_fields:
  "count (colorStep pd i acc) = Suc (count acc)"
  "length (brightnessValues (colorStep pd i acc)) = Suc (length (brightnessValues acc))"
  by (simp_all add: colorStep_def Let_def)

lemma colorStep_inv:
  assumes "i < length pd" "goodAcc acc \<or> badAcc acc"
  shows "goodAcc (colorStep pd i acc) \<or> badAcc (colorStep pd i acc)"
proof -
  obtain r where r: "px pd i = Fin r" using assms(1) by (simp add: px_def)
  from assms(2) show ?thesis
  proof
    assume bad: "badAcc acc"
    then have "badAcc (colorStep pd i acc)"
      by (auto simp: badAcc_def colorStep_def Let_def)
    then show ?thesis ..
  next
    assume good: "goodAcc acc"
    then obtain tr tg tb where t: "totalR acc = Fin tr" "totalG acc = Fin tg" "totalB acc = Fin tb"
      by (auto simp: goodAcc_def isFin_def)
    from px_cases[of pd "i + 1"] px_cases[of pd "i + 2"]
    consider (fin) g b where "px pd (i + 1) = Fin g" "px pd (i + 2) = Fin b"
      | (g) "px pd (i + 1) = NaN" | (b) "px pd (i + 2) = NaN"
      by (auto simp: isFin_def)
    then show ?thesis
    proof cases
      case fin
      then have "goodAcc (colorStep pd i acc)"
        using good by (simp add: goodAcc_def colorStep_def Let_def r t luma_Fin)
      then show ?thesis ..
    next
      case g
      then have "badAcc (colorStep pd i acc)"
        by (simp add: badAcc_def colorStep_def Let_def luma_NaN)
      then show ?thesis ..
    next
      case b
      then have "badAcc (colorStep pd i acc)"
        by (simp add: badAcc_def colorStep_def Let_def luma_NaN)
      then show ?thesis ..
    qed
  qed
qed

lemma colorLoop_inv:
  "goodAcc acc \<or> badAcc acc \<Longrightarrow>
   goodAcc (colorLoop pd w h i acc) \<or> badAcc (colorLoop pd w h i acc)"
proof (induction pd w h i acc rule: colorLoop.induct)
  case (1 pd w h i acc)
  show ?case
  proof (cases "i < length pd")
    case True
    from "1.IH"[OF True colorStep_inv[OF True "1.prems"]] True
    show ?thesis by (simp add: colorLoop.simps[of pd w h i acc])
  next
    case False
    with "1.prems" show ?thesis by (simp add: colorLoop.simps[of pd w h i acc])
  qed
qed

lemma colorLoop_count:
  "count acc = length (brightnessValues acc) \<Longrightarrow>
   count (colorLoop pd w h i acc) = length (brightnessValues (colorLoop pd w h i acc))
   \<and> count acc \<le> count (colorLoop pd w h i acc)"
proof (induction pd w h i acc rule: colorLoop.induct)
  case (1 pd w h i acc)
  show ?case
  proof (cases "i < length pd")
    case True
    have "count (colorStep pd i acc) = length (brightnessValues (colorStep pd i acc))"
      using "1.prems" by (simp add: colorStep_fields)
    from "1.IH"[OF True this] True
    show ?thesis by (simp add: colorLoop.simps[of pd w h i acc] colorStep_fields)
  next
    case False
    with "1.prems" show ?thesis by (simp add: colorLoop.simps[of pd w h i acc])
  qed
qed

definition acc0 :: ColorAcc where
  "acc0 = \<lparr>totalR = Fin 0, totalG = Fin 0, totalB = Fin 0, brightnessValues = [], count = 0\<rparr>"

lemma colorLoop_start:
  "goodAcc (colorLoop pd w h 0 acc0) \<or> badAcc (colorLoop pd w h 0 acc0)"
  "count (colorLoop pd w h 0 acc0) = length (brightnessValues (colorLoop pd w h 0 acc0))"
  "pd \<noteq> [] \<Longrightarrow> 0 < count (colorLoop pd w h 0 acc0)"
  "pd = [] \<Longrightarrow> colorLoop pd w h 0 acc0 = acc0"
proof -
  have g: "goodAcc acc0" by (simp add: goodAcc_def acc0_def)
  then show "goodAcc (colorLoop pd w h 0 acc0) \<or> badAcc (colorLoop pd w h 0 acc0)"
    by (intro colorLoop_inv) simp
  have c: "count acc0 = length (brightnessValues acc0)" by (simp add: acc0_def)
  from colorLoop_count[OF c]
  show "count (colorLoop pd w h 0 acc0) = length (brightnessValues (colorLoop pd w h 0 acc0))"
    by simp
  show "0 < count (colorLoop pd w h 0 acc0)" if "pd \<noteq> []"
  proof -
    have c1: "count (colorStep pd 0 acc0) = length (brightnessValues (colorStep pd 0 acc0))"
      by (simp add: colorStep_fields c)
    from that have eq: "colorLoop pd w h 0 acc0
        = colorLoop pd w h (0 + stride w h 4096 * 4) (colorStep pd 0 acc0)"
      by (simp add: colorLoop.simps[of pd w h 0 acc0])
    from colorLoop_count[OF c1, of pd w h "0 + stride w h 4096 * 4"]
    have "Suc (count acc0)
        \<le> count (colorLoop pd w h (0 + stride w h 4096 * 4) (colorStep pd 0 acc0))"
      by (simp add: colorStep_fields)
    then show ?thesis unfolding eq by simp
  qed
  show "colorLoop pd w h 0 acc0 = acc0" if "pd = []"
    using that by (simp add: colorLoop.simps[of "[]" w h 0 acc0])
qed

subsection \<open>Mean, variance and contrast\<close>

lemma foldl_nadd_NaN_start: "foldl (\<lambda>a v. nadd a (f v)) NaN xs = NaN"
  by (induction xs) simp_all

lemma foldl_nadd_NaN:
  "\<exists>x \<in> set xs. f x = NaN \<Longrightarrow> foldl (\<lambda>a v. nadd a (f v)) a xs = NaN"
proof (induction xs arbitrary: a)
  case Nil
  then show ?case by simp
next
  case (Cons x xs)
  show ?case
  proof (cases "f x = NaN")
    case True
    then show ?thesis by (simp add: foldl_nadd_NaN_start)
  next
    case False
    with Cons.prems have "\<exists>x \<in> set xs. f x = NaN" by simp
    from Cons.IH[OF this] show ?thesis by simp
  qed
qed

lemma foldl_nadd_Fin:
  "\<forall>x \<in> set xs. \<exists>c. f x = Fin c \<and> 0 \<le> c \<Longrightarrow> 0 \<le> a \<Longrightarrow>
   \<exists>c. foldl (\<lambda>a v. nadd a (f v)) (Fin a) xs = Fin c \<and> 0 \<le> c"
proof (induction xs arbitrary: a)
  case Nil
  then show ?case by simp
next
  case (Cons x xs)
  from Cons.prems obtain c where c: "f x = Fin c" "0 \<le> c" by auto
  have "\<exists>d. foldl (\<lambda>a v. nadd a (f v)) (Fin (a + c)) xs = Fin d \<and> 0 \<le> d"
    using Cons.prems c by (intro Cons.IH) simp_all
  then show ?case by (simp add: c)
qed

lemma foldl_nadd_isFin:
  "\<forall>x \<in> set xs. isFin x \<Longrightarrow> isFin (foldl nadd (Fin a) xs)"
proof (induction xs arbitrary: a)
  case Nil
  then show ?case by simp
next
  case (Cons x xs)
  then obtain c where "x = Fin c" by (auto simp: isFin_def)
  with Cons show ?case by simp
qed

lemma average_cases:
  "average [] = NaN"
  "NaN \<in> set bvs \<Longrightarrow> average bvs = NaN"
  "bvs \<noteq> [] \<Longrightarrow> \<forall>v \<in> set bvs. isFin v \<Longrightarrow> isFin (average bvs)"
proof -
  show "average [] = NaN" by (simp add: average_def)
  show "average bvs = NaN" if "NaN \<in> set bvs"
    using foldl_nadd_NaN[of bvs "\<lambda>v. v" "Fin 0"] that by (simp add: average_def)
  show "isFin (average bvs)" if "bvs \<noteq> []" "\<forall>v \<in> set bvs. isFin v"
  proof -
    from foldl_nadd_isFin[OF that(2), of 0] obtain c where "foldl nadd (Fin 0) bvs = Fin c"
      by (auto simp: isFin_def)
    with that(1) show ?thesis by (simp add: average_def)
  qed
qed

lemma varianceOf_cases:
  "varianceOf [] y = NaN"
  "bvs \<noteq> [] \<Longrightarrow> varianceOf bvs NaN = NaN"
  "bvs \<noteq> [] \<Longrightarrow> \<forall>v \<in> set bvs. isFin v \<Longrightarrow> \<exists>c. varianceOf bvs (Fin m) = Fin c \<and> 0 \<le> c"
proof -
  show "varianceOf [] y = NaN" by (simp add: varianceOf_def)
  show "varianceOf bvs NaN = NaN" if "bvs \<noteq> []"
  proof -
    from that have "\<exists>x \<in> set bvs. nmul (nsub x NaN) (nsub x NaN) = NaN"
      by (cases bvs) auto
    from foldl_nadd_NaN[of bvs "\<lambda>v. nmul (nsub v NaN) (nsub v NaN)" "Fin 0", OF this]
    show ?thesis by (simp add: varianceOf_def)
  qed
  show "\<exists>c. varianceOf bvs (Fin m) = Fin c \<and> 0 \<le> c"
    if "bvs \<noteq> []" "\<forall>v \<in> set bvs. isFin v"
  proof -
    have "\<forall>x \<in> set bvs. \<exists>c. nmul (nsub x (Fin m)) (nsub x (Fin m)) = Fin c \<and> 0 \<le> c"
      using that(2) by (auto simp: isFin_def)
    from foldl_nadd_Fin[of bvs "\<lambda>v. nmul (nsub v (Fin m)) (nsub v (Fin m))" 0, OF this]
    obtain c where "foldl (\<lambda>a v. nadd a (nmul (nsub v (Fin m)) (nsub v (Fin m)))) (Fin 0) bvs = Fin c"
      "0 \<le> c" by auto
    with that(1) show ?thesis by (simp add: varianceOf_def)
  qed
qed

lemma contrastOf_cases:
  "contrastOf NaN = NaN"
  "0 \<le> c \<Longrightarrow> contrastOf (Fin c) = Fin (min (sqrt c / 80) 1)"
  by (simp_all add: contrastOf_def)

subsection \<open>The spatial estimate\<close>

definition finSpatial :: "SpatialAcc \<Rightarrow> bool" where
  "finSpatial acc \<longleftrightarrow> isFin (diffClose acc) \<and> isFin (diffMid acc) \<and> isFin (diffFar acc)"

definition spatial0 :: SpatialAcc where
  "spatial0 = \<lparr>diffClose = Fin 0, diffMid = Fin 0, diffFar = Fin 0, samples = 0\<rparr>"

lemma lumaAt_Fin:
  assumes "k + 2 < length pd"
  shows "\<exists>v. luma (px pd k) (px pd (k + 1)) (px pd (k + 2)) = Fin v"
  using assms by (simp add: px_def luma_Fin)

lemma spatialStep_samples: "samples (spatialStep pd i acc) = Suc (samples acc)"
  by (simp add: spatialStep_def Let_def)

lemma spatialStep_inv:
  assumes "int i < int (length pd) - 8 * 4" "finSpatial acc"
  shows "finSpatial (spatialStep pd i acc)"
proof -
  from assms(1) have r: "i + 2 < length pd" "(i + 4) + 2 < length pd"
    "(i + 4 * 4) + 2 < length pd"
    "nat (min (int i + 8 * 4) (int (length pd) - 4)) + 2 < length pd"
    by auto
  from lumaAt_Fin[OF r(1)] lumaAt_Fin[OF r(2)] lumaAt_Fin[OF r(3)] lumaAt_Fin[OF r(4)]
  obtain v0 v1 v4 v8 where l:
    "luma (px pd i) (px pd (i + 1)) (px pd (i + 2)) = Fin v0"
    "luma (px pd (i + 4)) (px pd (i + 4 + 1)) (px pd (i + 4 + 2)) = Fin v1"
    "luma (px pd (i + 4 * 4)) (px pd (i + 4 * 4 + 1)) (px pd (i + 4 * 4 + 2)) = Fin v4"
    "luma (px pd (nat (min (int i + 8 * 4) (int (length pd) - 4))))
          (px pd (nat (min (int i + 8 * 4) (int (length pd) - 4)) + 1))
          (px pd (nat (min (int i + 8 * 4) (int (length pd) - 4)) + 2)) = Fin v8"
    by blast
  from assms(2) obtain a b c where
    d: "diffClose acc = Fin a" "diffMid acc = Fin b" "diffFar acc = Fin c"
    by (auto simp: finSpatial_def isFin_def)
  show ?thesis
    unfolding spatialStep_def Let_def finSpatial_def by (simp only: l d) simp
qed

lemma spatialLoop_inv:
  "finSpatial acc \<Longrightarrow> finSpatial (spatialLoop pd w h i acc)
     \<and> samples acc \<le> samples (spatialLoop pd w h i acc)"
proof (induction pd w h i acc rule: spatialLoop.induct)
  case (1 pd w h i acc)
  show ?case
  proof (cases "int i < int (length pd) - 8 * 4")
    case True
    from "1.IH"[OF True spatialStep_inv[OF True "1.prems"]] True
    show ?thesis by (simp add: spatialLoop.simps[of pd w h i acc] spatialStep_samples)
  next
    case False
    with "1.prems" show ?thesis by (simp add: spatialLoop.simps[of pd w h i acc])
  qed
qed

lemma spatialLoop_start:
  "finSpatial (spatialLoop pd w h 0 spatial0)"
  "32 < length pd \<Longrightarrow> 0 < samples (spatialLoop pd w h 0 spatial0)"
  "length pd \<le> 32 \<Longrightarrow> spatialLoop pd w h 0 spatial0 = spatial0"
proof -
  have f: "finSpatial spatial0" by (simp add: finSpatial_def spatial0_def)
  from spatialLoop_inv[OF f, where pd=pd and w=w and h=h and i=0] show "finSpatial (spatialLoop pd w h 0 spatial0)" by simp
  show "0 < samples (spatialLoop pd w h 0 spatial0)" if "32 < length pd"
  proof -
    from that have c: "int 0 < int (length pd) - 8 * 4" by simp
    then have eq: "spatialLoop pd w h 0 spatial0
        = spatialLoop pd w h (0 + stride w h 2048 * 4) (spatialStep pd 0 spatial0)"
      by (simp add: spatialLoop.simps[of pd w h 0 spatial0])
    from spatialLoop_inv[OF spatialStep_inv[OF c f], where w=w and h=h and i="0 + stride w h 2048 * 4"]
    have "Suc (samples spatial0)
       \<le> samples (spatialLoop pd w h (0 + stride w h 2048 * 4) (spatialStep pd 0 spatial0))"
      by (simp add: spatialStep_samples)
    then show ?thesis unfolding eq by simp
  qed
  show "spatialLoop pd w h 0 spatial0 = spatial0" if "length pd \<le> 32"
    using that by (simp add: spatialLoop.simps[of pd w h 0 spatial0])
qed

lemma estimateSpatialFreqs_cases:
  "length pd \<le> 32 \<Longrightarrow> estimateSpatialFreqs pd w h = \<lparr>high = NaN, mid = NaN, low = NaN\<rparr>"
  "32 < length pd \<Longrightarrow>
     isFin (high (estimateSpatialFreqs pd w h)) \<and> isFin (mid (estimateSpatialFreqs pd w h))
     \<and> isFin (low (estimateSpatialFreqs pd w h))"
proof -
  show "estimateSpatialFreqs pd w h = \<lparr>high = NaN, mid = NaN, low = NaN\<rparr>"
    if "length pd \<le> 32"
    using spatialLoop_start(3)[OF that, where w=w and h=h]
    by (simp add: estimateSpatialFreqs_def Let_def spatial0_def)
  show "isFin (high (estimateSpatialFreqs pd w h)) \<and> isFin (mid (estimateSpatialFreqs pd w h))
     \<and> isFin (low (estimateSpatialFreqs pd w h))" if "32 < length pd"
  proof -
    from spatialLoop_start(1)[where pd=pd and w=w and h=h] obtain a b c where
      d: "diffClose (spatialLoop pd w h 0 spatial0) = Fin a"
         "diffMid (spatialLoop pd w h 0 spatial0) = Fin b"
         "diffFar (spatialLoop pd w h 0 spatial0) = Fin c"
      by (auto simp: finSpatial_def isFin_def)
    from spatialLoop_start(2)[OF that, where w=w and h=h]
    have n: "real (samples (spatialLoop pd w h 0 spatial0)) \<noteq> 0" by simp
    show ?thesis
      using n by (simp add: estimateSpatialFreqs_def Let_def spatial0_def[symmetric] d)
  qed
qed

subsection \<open>The measured profile\<close>

definition stats :: "8 word list \<Rightarrow> nat \<Rightarrow> nat \<Rightarrow> ColorAcc" where
  "stats pd w h = colorLoop pd w h 0 acc0"

definition mean :: "num \<Rightarrow> ColorAcc \<Rightarrow> num" where
  "mean t acc = ndiv t (Fin (real (count acc)))"

lemma measureProfile_fields:
  "brightness (measureProfile pd w h) = average (brightnessValues (stats pd w h))"
  "contrast (measureProfile pd w h)
     = contrastOf (varianceOf (brightnessValues (stats pd w h))
                     (average (brightnessValues (stats pd w h))))"
  "rhythmicDensity (measureProfile pd w h) = contrast (measureProfile pd w h)"
  "warmth (measureProfile pd w h)
     = warmthOf (mean (totalR (stats pd w h)) (stats pd w h))
                (mean (totalB (stats pd w h)) (stats pd w h))"
  "spatialLow (measureProfile pd w h) = low (estimateSpatialFreqs pd w h)"
  "spatialMid (measureProfile pd w h) = mid (estimateSpatialFreqs pd w h)"
  "spatialHigh (measureProfile pd w h) = high (estimateSpatialFreqs pd w h)"
  "generatedModes (measureProfile pd w h) = []"
  by (simp_all add: measureProfile_def Let_def stats_def acc0_def mean_def)

lemma measureProfile_saturation:
  "saturation (measureProfile pd w h)
     = saturationOf
         (nmax (nmax (mean (totalR (stats pd w h)) (stats pd w h))
                     (mean (totalG (stats pd w h)) (stats pd w h)))
               (mean (totalB (stats pd w h)) (stats pd w h)))
         (nmin (nmin (mean (totalR (stats pd w h)) (stats pd w h))
                     (mean (totalG (stats pd w h)) (stats pd w h)))
               (mean (totalB (stats pd w h)) (stats pd w h)))"
  by (simp add: measureProfile_def Let_def stats_def acc0_def mean_def)

lemma saturationOf_Fin: "isFin (saturationOf (Fin a) (Fin b))"
  by (simp add: saturationOf_def)

lemma warmthOf_Fin: "isFin (warmthOf (Fin a) (Fin b))"
  by (simp add: warmthOf_def)

text \<open>The brightness and the contrast are NaN together; where they are numbers, so are the
  warmth and the saturation.\<close>

lemma measureProfile_cases:
  "(contrast (measureProfile pd w h) = NaN \<and> brightness (measureProfile pd w h) = NaN)
   \<or> (isFin (contrast (measureProfile pd w h)) \<and> isFin (brightness (measureProfile pd w h))
      \<and> isFin (warmth (measureProfile pd w h)) \<and> isFin (saturation (measureProfile pd w h)))"
proof -
  define acc where "acc = stats pd w h"
  define bvs where "bvs = brightnessValues acc"
  have cl: "count acc = length bvs"
    using colorLoop_start(2)[where pd=pd and w=w and h=h] by (simp add: acc_def bvs_def stats_def)
  have gb: "goodAcc acc \<or> badAcc acc"
    using colorLoop_start(1)[where pd=pd and w=w and h=h] by (simp add: acc_def stats_def)
  consider (empty) "bvs = []" | (bad) "bvs \<noteq> []" "NaN \<in> set bvs"
    | (good) "bvs \<noteq> []" "goodAcc acc"
    using gb by (auto simp: badAcc_def bvs_def)
  then show ?thesis
  proof cases
    case empty
    then have "contrast (measureProfile pd w h) = NaN \<and> brightness (measureProfile pd w h) = NaN"
      by (simp add: measureProfile_fields acc_def[symmetric] bvs_def[symmetric]
          average_cases varianceOf_cases contrastOf_cases)
    then show ?thesis ..
  next
    case bad
    then have "contrast (measureProfile pd w h) = NaN \<and> brightness (measureProfile pd w h) = NaN"
      by (simp add: measureProfile_fields acc_def[symmetric] bvs_def[symmetric]
          average_cases varianceOf_cases contrastOf_cases)
    then show ?thesis ..
  next
    case good
    then have fin: "\<forall>v \<in> set bvs. isFin v" by (simp add: goodAcc_def bvs_def)
    from average_cases(3)[OF good(1) fin] obtain m where m: "average bvs = Fin m"
      by (auto simp: isFin_def)
    from varianceOf_cases(3)[OF good(1) fin, of m] obtain c where
      c: "varianceOf bvs (Fin m) = Fin c" "0 \<le> c" by blast
    from good(2) obtain tr tg tb where
      t: "totalR acc = Fin tr" "totalG acc = Fin tg" "totalB acc = Fin tb"
      by (auto simp: goodAcc_def isFin_def)
    have n: "real (count acc) \<noteq> 0" using cl good(1) by simp
    have means: "mean (totalR acc) acc = Fin (tr / real (count acc))"
      "mean (totalG acc) acc = Fin (tg / real (count acc))"
      "mean (totalB acc) acc = Fin (tb / real (count acc))"
      using n by (simp_all add: mean_def t)
    have "isFin (contrast (measureProfile pd w h))" "isFin (brightness (measureProfile pd w h))"
      by (simp_all add: measureProfile_fields acc_def[symmetric] bvs_def[symmetric] m c
          contrastOf_cases)
    moreover have "isFin (warmth (measureProfile pd w h))"
      by (simp add: measureProfile_fields acc_def[symmetric] means warmthOf_Fin)
    moreover have "isFin (saturation (measureProfile pd w h))"
      by (simp add: measureProfile_saturation acc_def[symmetric] means saturationOf_Fin)
    ultimately show ?thesis by blast
  qed
qed

lemma scores_NaN_contrast:
  assumes "contrast p = NaN" "brightness p = NaN"
  shows "\<forall>e \<in> set (scoreAll p). score e = NaN"
  by (simp add: scoreAll_def scoreTonal_def scoreRhythmic_def scoreTextural_def scoreSub_def
      scoreSpectral_def scoreChromaticNoise_def Let_def assms)

lemma scores_NaN_spatial:
  assumes "spatialLow p = NaN" "spatialMid p = NaN" "spatialHigh p = NaN"
  shows "\<forall>e \<in> set (scoreAll p). score e = NaN"
  by (simp add: scoreAll_def scoreTonal_def scoreRhythmic_def scoreTextural_def scoreSub_def
      scoreSpectral_def scoreChromaticNoise_def Let_def assms)

lemma scores_Fin:
  assumes "isFin (contrast p)" "isFin (brightness p)" "isFin (warmth p)" "isFin (saturation p)"
    "rhythmicDensity p = contrast p"
    "isFin (spatialLow p)" "isFin (spatialMid p)" "isFin (spatialHigh p)"
  shows "\<forall>e \<in> set (scoreAll p). isFin (score e)"
proof -
  from assms obtain c b wm s l m hh where
    v: "contrast p = Fin c" "brightness p = Fin b" "warmth p = Fin wm" "saturation p = Fin s"
       "spatialLow p = Fin l" "spatialMid p = Fin m" "spatialHigh p = Fin hh"
    by (auto simp: isFin_def)
  show ?thesis
    by (simp add: scoreAll_def scoreTonal_def scoreRhythmic_def scoreTextural_def scoreSub_def
        scoreSpectral_def scoreChromaticNoise_def Let_def v assms(5))
qed

text \<open>The six scores are all numbers or all NaN.\<close>

lemma scores_cases:
  "(\<forall>e \<in> set (scoreAll (measureProfile pd w h)). isFin (score e))
   \<or> (\<forall>e \<in> set (scoreAll (measureProfile pd w h)). score e = NaN)"
proof (cases "length pd \<le> 32")
  case True
  from estimateSpatialFreqs_cases(1)[OF True, where w=w and h=h]
  have "\<forall>e \<in> set (scoreAll (measureProfile pd w h)). score e = NaN"
    by (intro scores_NaN_spatial) (simp_all add: measureProfile_fields)
  then show ?thesis ..
next
  case False
  then have "32 < length pd" by simp
  note sp = estimateSpatialFreqs_cases(2)[OF this, where w=w and h=h]
  from measureProfile_cases[of pd w h] show ?thesis
  proof
    assume "contrast (measureProfile pd w h) = NaN \<and> brightness (measureProfile pd w h) = NaN"
    then have "\<forall>e \<in> set (scoreAll (measureProfile pd w h)). score e = NaN"
      by (intro scores_NaN_contrast) simp_all
    then show ?thesis ..
  next
    assume "isFin (contrast (measureProfile pd w h)) \<and> isFin (brightness (measureProfile pd w h))
      \<and> isFin (warmth (measureProfile pd w h)) \<and> isFin (saturation (measureProfile pd w h))"
    then have "\<forall>e \<in> set (scoreAll (measureProfile pd w h)). isFin (score e)"
      using sp by (intro scores_Fin) (simp_all add: measureProfile_fields)
    then show ?thesis ..
  qed
qed

lemma map_snd_filter_subset: "set (map snd (filter P ys)) \<subseteq> set (map snd ys)"
  by (induction ys) auto

lemma selectModes_subset: "set (selectModes xs) \<subseteq> set xs"
  using map_snd_filter_subset[where ys="enumerate 0 xs"]
  unfolding selectModes_def by (simp only: map_snd_enumerate)

lemma analyzeImage_modes: "generatedModes (analyzeImage pd w h) = generate (measureProfile pd w h)"
  by (simp add: analyzeImage_def Let_def)

lemma colorLoop_whole_pixels:
  "length pd mod 4 = 0 \<Longrightarrow> i mod 4 = 0 \<Longrightarrow> goodAcc acc \<Longrightarrow> goodAcc (colorLoop pd w h i acc)"
proof (induction pd w h i acc rule: colorLoop.induct)
  case (1 pd w h i acc)
  show ?case
  proof (cases "i < length pd")
    case True
    with "1.prems"(1,2) have r: "i + 2 < length pd" by presburger
    from "1.prems"(3) obtain tr tg tb where
      t: "totalR acc = Fin tr" "totalG acc = Fin tg" "totalB acc = Fin tb"
      by (auto simp: goodAcc_def isFin_def)
    have g: "goodAcc (colorStep pd i acc)"
      using r "1.prems"(3) by (simp add: goodAcc_def colorStep_def Let_def px_def t luma_Fin)
    have m: "(i + stride w h 4096 * 4) mod 4 = 0" using "1.prems"(2) by simp
    from "1.IH"[OF True "1.prems"(1) m g] True
    show ?thesis by (simp add: colorLoop.simps[of pd w h i acc])
  next
    case False
    with "1.prems" show ?thesis by (simp add: colorLoop.simps[of pd w h i acc])
  qed
qed

lemma scores_Fin_whole_pixels:
  assumes "length pd mod 4 = 0" "32 < length pd"
  shows "\<forall>e \<in> set (scoreAll (measureProfile pd w h)). isFin (score e)"
proof -
  have "goodAcc acc0" by (simp add: goodAcc_def acc0_def)
  from colorLoop_whole_pixels[OF assms(1) _ this, of 0 w h]
  have g: "goodAcc (stats pd w h)" by (simp add: stats_def)
  have ne: "pd \<noteq> []" using assms(2) by auto
  from colorLoop_start(3)[OF ne, where w=w and h=h] colorLoop_start(2)[where pd=pd and w=w and h=h]
  have b: "brightnessValues (stats pd w h) \<noteq> []" by (auto simp: stats_def)
  from g have fin: "\<forall>v \<in> set (brightnessValues (stats pd w h)). isFin v"
    by (simp add: goodAcc_def)
  from average_cases(3)[OF b fin]
  have "brightness (measureProfile pd w h) \<noteq> NaN"
    by (auto simp: measureProfile_fields isFin_def)
  with measureProfile_cases[of pd w h]
  have c: "isFin (contrast (measureProfile pd w h)) \<and> isFin (brightness (measureProfile pd w h))
      \<and> isFin (warmth (measureProfile pd w h)) \<and> isFin (saturation (measureProfile pd w h))"
    by blast
  from estimateSpatialFreqs_cases(2)[OF assms(2), where w=w and h=h] c
  show ?thesis by (intro scores_Fin) (simp_all add: measureProfile_fields)
qed

lemma ball_image_subset:
  "f ` A \<subseteq> g ` B \<Longrightarrow> \<forall>b \<in> B. P (g b) \<Longrightarrow> \<forall>a \<in> A. P (f a)"
  by auto

subsection \<open>The generated modes\<close>

text \<open>
  Claim C1, amended. For every pixel buffer, width and height, \<open>generatedModes\<close> has
  between 3 and 5 entries, no entry has a score below the score of a later entry, and every
  entry beyond the first 3 has a score of at least 0.25. Either every score is a finite
  number, and then the list is sorted by non-increasing score, or every score is NaN and
  the modes are tonal, rhythmic and textural in that order (the comparator of the sort
  returns NaN for every pair, which leaves the order in which the archetypes are scored).
  For a buffer of whole pixels with more than eight pixels every score is finite.
\<close>

theorem analyzeImage_generates_3_to_5_sorted_modes:
  "3 \<le> length (generatedModes (analyzeImage pd w h))
   \<and> length (generatedModes (analyzeImage pd w h)) \<le> 5
   \<and> sorted_wrt (\<lambda>a b. \<not> nlt (score a) (score b)) (generatedModes (analyzeImage pd w h))
   \<and> (\<forall>m \<in> set (drop 3 (generatedModes (analyzeImage pd w h))). nge (score m) (Fin 0.25))
   \<and> (((\<forall>m \<in> set (generatedModes (analyzeImage pd w h)). isFin (score m))
        \<and> sorted_wrt (\<lambda>a b. nge (score a) (score b)) (generatedModes (analyzeImage pd w h)))
       \<or> ((\<forall>m \<in> set (generatedModes (analyzeImage pd w h)). score m = NaN)
          \<and> map archetype (generatedModes (analyzeImage pd w h)) = [Tonal, Rhythmic, Textural]))
   \<and> (length pd mod 4 = 0 \<and> 32 < length pd \<longrightarrow>
        (\<forall>m \<in> set (generatedModes (analyzeImage pd w h)). isFin (score m)))"
proof -
  define p where "p = measureProfile pd w h"
  define ms where "ms = generatedModes (analyzeImage pd w h)"
  define srt where "srt = arraySort (\<lambda>a b. nsub (score b) (score a)) (scoreAll p)"
  have ms: "ms = generate p" by (simp add: ms_def p_def analyzeImage_modes)
  have sc: "map score ms = map score (selectModes srt)"
    and ar: "map archetype ms = map archetype (selectModes srt)"
    by (simp_all add: ms srt_def generate_scores)
  have len: "length srt = 6" by (simp add: srt_def scoreAll_def)
  have setms: "score ` set ms \<subseteq> score ` set (scoreAll p)"
  proof -
    have "score ` set ms = set (map score ms)" by simp
    also have "\<dots> = score ` set (selectModes srt)" unfolding sc by simp
    also have "\<dots> \<subseteq> score ` set srt" using selectModes_subset[of srt] by blast
    also have "\<dots> = score ` set (scoreAll p)" by (simp add: srt_def)
    finally show ?thesis .
  qed
  have tr: "sorted_wrt (\<lambda>a b. R (score a) (score b)) ms \<longleftrightarrow> sorted_wrt R (map score ms)" for R
    by (simp add: sorted_wrt_map)
  have dr: "(\<forall>m \<in> set (drop 3 ms). nge (score m) (Fin 0.25))
      \<longleftrightarrow> (\<forall>v \<in> set (drop 3 (map score ms)). nge v (Fin 0.25))"
    by (simp add: drop_map)
  have whole: "length pd mod 4 = 0 \<and> 32 < length pd \<longrightarrow> (\<forall>m \<in> set ms. isFin (score m))"
  proof
    assume "length pd mod 4 = 0 \<and> 32 < length pd"
    then have "\<forall>e \<in> set (scoreAll p). isFin (score e)"
      unfolding p_def by (intro scores_Fin_whole_pixels) simp_all
    with setms show "\<forall>m \<in> set ms. isFin (score m)" by (rule ball_image_subset)
  qed
  have six: "scoreAll p = [\<lparr>archetype = Tonal, score = scoreTonal p\<rparr>,
      \<lparr>archetype = Rhythmic, score = scoreRhythmic p\<rparr>,
      \<lparr>archetype = Textural, score = scoreTextural p\<rparr>,
      \<lparr>archetype = Sub, score = scoreSub p\<rparr>,
      \<lparr>archetype = Spectral, score = scoreSpectral p\<rparr>,
      \<lparr>archetype = ChromaticNoise, score = scoreChromaticNoise p\<rparr>]"
    by (rule scoreAll_def)
  from scores_cases[of pd w h]
  have main: "selectionOk (map score ms)
     \<and> (((\<forall>m \<in> set ms. isFin (score m)) \<and> sorted_wrt nge (map score ms))
        \<or> ((\<forall>m \<in> set ms. score m = NaN) \<and> map archetype ms = [Tonal, Rhythmic, Textural]))"
  proof
    assume fin: "\<forall>e \<in> set (scoreAll (measureProfile pd w h)). isFin (score e)"
    then have "sorted_wrt (\<lambda>a b. nge (score a) (score b)) srt"
      unfolding srt_def p_def by (rule arraySort_sorted)
    from select_sorted[OF len this]
    have "selectionOk (map score ms)" "sorted_wrt nge (map score ms)"
      unfolding sc by blast+
    moreover have "\<forall>m \<in> set ms. isFin (score m)"
      using fin unfolding p_def[symmetric] by (rule ball_image_subset[OF setms])
    ultimately show ?thesis by blast
  next
    assume nan: "\<forall>e \<in> set (scoreAll (measureProfile pd w h)). score e = NaN"
    then have nan': "\<forall>e \<in> set (scoreAll p). score e = NaN" unfolding p_def .
    from nan have srt: "srt = scoreAll p"
      unfolding srt_def p_def by (rule arraySort_NaN)
    have sel: "selectModes srt = [\<lparr>archetype = Tonal, score = scoreTonal p\<rparr>,
      \<lparr>archetype = Rhythmic, score = scoreRhythmic p\<rparr>,
      \<lparr>archetype = Textural, score = scoreTextural p\<rparr>]"
      unfolding srt by (rule select_NaN[OF six nan'])
    have all: "\<forall>m \<in> set ms. score m = NaN"
      using nan' by (rule ball_image_subset[OF setms])
    have "scoreTonal p = NaN" "scoreRhythmic p = NaN" "scoreTextural p = NaN"
      using nan' unfolding six by simp_all
    then have vals: "map score ms = [NaN, NaN, NaN]"
      unfolding sc sel by simp
    have "selectionOk (map score ms)"
      unfolding vals by (simp add: selectionOk_def)
    moreover have "map archetype ms = [Tonal, Rhythmic, Textural]"
      unfolding ar sel by simp
    ultimately show ?thesis using all by blast
  qed
  from main have ok: "selectionOk (map score ms)" by (rule conjunct1)
  have c1: "3 \<le> length ms" "length ms \<le> 5"
    using ok unfolding selectionOk_def by simp_all
  have c2: "sorted_wrt (\<lambda>a b. \<not> nlt (score a) (score b)) ms"
    using ok unfolding selectionOk_def by (simp add: sorted_wrt_map)
  have c3: "\<forall>m \<in> set (drop 3 ms). nge (score m) (Fin 0.25)"
    using ok unfolding selectionOk_def by (simp add: drop_map)
  have c4: "((\<forall>m \<in> set ms. isFin (score m)) \<and> sorted_wrt (\<lambda>a b. nge (score a) (score b)) ms)
       \<or> ((\<forall>m \<in> set ms. score m = NaN) \<and> map archetype ms = [Tonal, Rhythmic, Textural])"
    using conjunct2[OF main] by (simp add: sorted_wrt_map)
  show ?thesis
    unfolding ms_def[symmetric]
    by (rule conjI[OF c1(1) conjI[OF c1(2) conjI[OF c2 conjI[OF c3 conjI[OF c4 whole]]]]])
qed

subsection \<open>A black image\<close>

text \<open>
  A buffer of whole pixels whose red, green and blue bytes are 0; the alpha byte is free.
\<close>

fun blackPixels :: "8 word list \<Rightarrow> bool" where
  "blackPixels [] = True"
| "blackPixels (r # g # b # a # rest) = (r = 0 \<and> g = 0 \<and> b = 0 \<and> blackPixels rest)"
| "blackPixels _ = False"

definition blackPixel :: "8 word list" where
  "blackPixel = [0, 0, 0, 255]"

definition black3x3 :: "8 word list" where
  "black3x3 = blackPixel @ blackPixel @ blackPixel @ blackPixel @ blackPixel
            @ blackPixel @ blackPixel @ blackPixel @ blackPixel"

definition zeroAcc :: "ColorAcc \<Rightarrow> bool" where
  "zeroAcc acc \<longleftrightarrow>
     totalR acc = Fin 0 \<and> totalG acc = Fin 0 \<and> totalB acc = Fin 0
     \<and> (\<forall>v \<in> set (brightnessValues acc). v = Fin 0)"

definition zeroSpatial :: "SpatialAcc \<Rightarrow> bool" where
  "zeroSpatial acc \<longleftrightarrow> diffClose acc = Fin 0 \<and> diffMid acc = Fin 0 \<and> diffFar acc = Fin 0"

lemma blackPixels_length: "blackPixels pd \<Longrightarrow> length pd mod 4 = 0"
  by (induction pd rule: blackPixels.induct) simp_all

lemma blackPixels_nth:
  "blackPixels pd \<Longrightarrow> i < length pd \<Longrightarrow> i mod 4 = 0 \<Longrightarrow>
   i + 2 < length pd \<and> pd ! i = 0 \<and> pd ! (i + 1) = 0 \<and> pd ! (i + 2) = 0"
proof (induction pd arbitrary: i rule: blackPixels.induct)
  case 1
  then show ?case by simp
next
  case (2 r g b a rest)
  show ?case
  proof (cases "i = 0")
    case True
    with "2.prems" show ?thesis by simp
  next
    case False
    with "2.prems"(3) have i4: "4 \<le> i" by presburger
    define j where "j = i - 4"
    have j: "i = Suc (Suc (Suc (Suc j)))" "j mod 4 = 0"
      using i4 "2.prems"(3) unfolding j_def by presburger+
    from "2.prems" j have "j < length rest" "blackPixels rest" by simp_all
    from "2.IH"[OF this(2) this(1) j(2)] show ?thesis by (simp add: j)
  qed
qed simp_all

lemma lumaAt_black:
  assumes "blackPixels pd" "k < length pd" "k mod 4 = 0"
  shows "luma (px pd k) (px pd (k + 1)) (px pd (k + 2)) = Fin 0"
  using blackPixels_nth[OF assms] by (simp add: px_def luma_Fin)

lemma colorStep_black:
  assumes "blackPixels pd" "i < length pd" "i mod 4 = 0" "zeroAcc acc"
  shows "zeroAcc (colorStep pd i acc)"
  using blackPixels_nth[OF assms(1-3)] assms(4)
  by (simp add: zeroAcc_def colorStep_def Let_def px_def luma_Fin)

lemma colorLoop_black:
  "blackPixels pd \<Longrightarrow> i mod 4 = 0 \<Longrightarrow> zeroAcc acc \<Longrightarrow> zeroAcc (colorLoop pd w h i acc)"
proof (induction pd w h i acc rule: colorLoop.induct)
  case (1 pd w h i acc)
  show ?case
  proof (cases "i < length pd")
    case True
    have m: "(i + stride w h 4096 * 4) mod 4 = 0" using "1.prems"(2) by simp
    from "1.IH"[OF True "1.prems"(1) m colorStep_black[OF "1.prems"(1) True "1.prems"(2,3)]] True
    show ?thesis by (simp add: colorLoop.simps[of pd w h i acc])
  next
    case False
    with "1.prems" show ?thesis by (simp add: colorLoop.simps[of pd w h i acc])
  qed
qed

lemma spatialStep_black:
  assumes "blackPixels pd" "int i < int (length pd) - 8 * 4" "i mod 4 = 0" "zeroSpatial acc"
  shows "zeroSpatial (spatialStep pd i acc)"
proof -
  have len: "length pd mod 4 = 0" using assms(1) by (rule blackPixels_length)
  define k where "k = nat (min (int i + 8 * 4) (int (length pd) - 4))"
  from assms(2) have r: "i < length pd" "i + 4 < length pd" "i + 4 * 4 < length pd"
    "k < length pd" by (auto simp: k_def)
  have m: "(i + 4) mod 4 = 0" "(i + 4 * 4) mod 4 = 0" using assms(3) by presburger+
  have "k = i + 32 \<or> k = length pd - 4" using assms(2) by (auto simp: k_def)
  then have mk: "k mod 4 = 0" using assms(2,3) len by presburger
  note l = lumaAt_black[OF assms(1) r(1) assms(3)] lumaAt_black[OF assms(1) r(2) m(1)]
    lumaAt_black[OF assms(1) r(3) m(2)] lumaAt_black[OF assms(1) r(4) mk]
  show ?thesis
    using assms(4) unfolding spatialStep_def Let_def zeroSpatial_def k_def[symmetric]
    by (simp only: l) simp
qed

lemma spatialLoop_black:
  "blackPixels pd \<Longrightarrow> i mod 4 = 0 \<Longrightarrow> zeroSpatial acc \<Longrightarrow>
   zeroSpatial (spatialLoop pd w h i acc)"
proof (induction pd w h i acc rule: spatialLoop.induct)
  case (1 pd w h i acc)
  show ?case
  proof (cases "int i < int (length pd) - 8 * 4")
    case True
    have m: "(i + stride w h 2048 * 4) mod 4 = 0" using "1.prems"(2) by simp
    from "1.IH"[OF True "1.prems"(1) m spatialStep_black[OF "1.prems"(1) True "1.prems"(2,3)]]
      True
    show ?thesis by (simp add: spatialLoop.simps[of pd w h i acc])
  next
    case False
    with "1.prems" show ?thesis by (simp add: spatialLoop.simps[of pd w h i acc])
  qed
qed

lemma foldl_nadd_zero:
  "\<forall>x \<in> set xs. f x = Fin 0 \<Longrightarrow> foldl (\<lambda>a v. nadd a (f v)) (Fin 0) xs = Fin 0"
  by (induction xs) simp_all

lemma average_zero:
  assumes "bvs \<noteq> []" "\<forall>v \<in> set bvs. v = Fin 0"
  shows "average bvs = Fin 0"
  using foldl_nadd_zero[of bvs "\<lambda>v. v"] assms by (simp add: average_def)

lemma varianceOf_zero:
  assumes "bvs \<noteq> []" "\<forall>v \<in> set bvs. v = Fin 0"
  shows "varianceOf bvs (Fin 0) = Fin 0"
proof -
  have "\<forall>x \<in> set bvs. nmul (nsub x (Fin 0)) (nsub x (Fin 0)) = Fin 0"
  proof
    fix x assume "x \<in> set bvs"
    with assms(2) have "x = Fin 0" by blast
    then show "nmul (nsub x (Fin 0)) (nsub x (Fin 0)) = Fin 0" by simp
  qed
  from foldl_nadd_zero[of bvs "\<lambda>v. nmul (nsub v (Fin 0)) (nsub v (Fin 0))", OF this] assms(1)
  show ?thesis by (simp add: varianceOf_def)
qed

text \<open>The measured profile of a black image.\<close>

lemma measureProfile_black:
  assumes "blackPixels pd" "pd \<noteq> []"
  shows "warmth (measureProfile pd w h) = Fin 0.5"
    and "saturation (measureProfile pd w h) = Fin 0"
    and "contrast (measureProfile pd w h) = Fin 0"
    and "brightness (measureProfile pd w h) = Fin 0"
    and "rhythmicDensity (measureProfile pd w h) = Fin 0"
proof -
  define acc where "acc = stats pd w h"
  have z0: "zeroAcc acc0" by (simp add: zeroAcc_def acc0_def)
  have z: "zeroAcc acc"
    unfolding acc_def stats_def by (rule colorLoop_black[OF assms(1) _ z0]) simp
  have cl: "count acc = length (brightnessValues acc)" "0 < count acc"
    using colorLoop_start(2)[where pd=pd and w=w and h=h]
      colorLoop_start(3)[OF assms(2), where w=w and h=h]
    by (simp_all add: acc_def stats_def)
  then have ne: "brightnessValues acc \<noteq> []" by auto
  from z have bz: "\<forall>v \<in> set (brightnessValues acc). v = Fin 0" by (simp add: zeroAcc_def)
  have means: "mean (totalR acc) acc = Fin 0" "mean (totalG acc) acc = Fin 0"
    "mean (totalB acc) acc = Fin 0"
    using z cl(2) by (simp_all add: mean_def zeroAcc_def)
  note av = average_zero[OF ne bz]
  note va = varianceOf_zero[OF ne bz]
  show "warmth (measureProfile pd w h) = Fin 0.5"
    by (simp add: measureProfile_fields acc_def[symmetric] means warmthOf_def)
  show "saturation (measureProfile pd w h) = Fin 0"
    by (simp add: measureProfile_saturation acc_def[symmetric] means saturationOf_def)
  show c: "contrast (measureProfile pd w h) = Fin 0"
    by (simp add: measureProfile_fields acc_def[symmetric] av va contrastOf_cases)
  show "brightness (measureProfile pd w h) = Fin 0"
    by (simp add: measureProfile_fields acc_def[symmetric] av)
  show "rhythmicDensity (measureProfile pd w h) = Fin 0"
    by (simp add: measureProfile_fields(3) c)
qed

lemma estimateSpatialFreqs_black:
  assumes "blackPixels pd" "32 < length pd"
  shows "estimateSpatialFreqs pd w h = \<lparr>high = Fin 0, mid = Fin 0, low = Fin 0\<rparr>"
proof -
  have z0: "zeroSpatial spatial0" by (simp add: zeroSpatial_def spatial0_def)
  have z: "zeroSpatial (spatialLoop pd w h 0 spatial0)"
    by (rule spatialLoop_black[OF assms(1) _ z0]) simp
  from spatialLoop_start(2)[OF assms(2), where w=w and h=h]
  have n: "real (samples (spatialLoop pd w h 0 spatial0)) \<noteq> 0" by simp
  show ?thesis
    using n z by (simp add: estimateSpatialFreqs_def Let_def spatial0_def[symmetric]
        zeroSpatial_def)
qed

lemma analyzeImage_fields:
  "warmth (analyzeImage pd w h) = warmth (measureProfile pd w h)"
  "saturation (analyzeImage pd w h) = saturation (measureProfile pd w h)"
  "contrast (analyzeImage pd w h) = contrast (measureProfile pd w h)"
  "rootHz (analyzeImage pd w h) = rootHz (measureProfile pd w h)"
  "scaleRatios (analyzeImage pd w h) = scaleRatios (measureProfile pd w h)"
  by (simp_all add: analyzeImage_def Let_def)

lemma generate_NaN:
  assumes "\<forall>e \<in> set (scoreAll p). score e = NaN"
  shows "map archetype (generate p) = [Tonal, Rhythmic, Textural]"
    and "map score (generate p) = [NaN, NaN, NaN]"
proof -
  have six: "scoreAll p = [\<lparr>archetype = Tonal, score = scoreTonal p\<rparr>,
      \<lparr>archetype = Rhythmic, score = scoreRhythmic p\<rparr>,
      \<lparr>archetype = Textural, score = scoreTextural p\<rparr>,
      \<lparr>archetype = Sub, score = scoreSub p\<rparr>,
      \<lparr>archetype = Spectral, score = scoreSpectral p\<rparr>,
      \<lparr>archetype = ChromaticNoise, score = scoreChromaticNoise p\<rparr>]"
    by (rule scoreAll_def)
  have srt: "arraySort (\<lambda>a b. nsub (score b) (score a)) (scoreAll p) = scoreAll p"
    using assms by (rule arraySort_NaN)
  have sel: "selectModes (scoreAll p) = [\<lparr>archetype = Tonal, score = scoreTonal p\<rparr>,
      \<lparr>archetype = Rhythmic, score = scoreRhythmic p\<rparr>,
      \<lparr>archetype = Textural, score = scoreTextural p\<rparr>]"
    by (rule select_NaN[OF six assms])
  have n: "scoreTonal p = NaN" "scoreRhythmic p = NaN" "scoreTextural p = NaN"
    using assms unfolding six by simp_all
  show "map archetype (generate p) = [Tonal, Rhythmic, Textural]"
    unfolding generate_scores srt sel by simp
  show "map score (generate p) = [NaN, NaN, NaN]"
    unfolding generate_scores srt sel using n by simp
qed

text \<open>The scores of a black image of more than eight pixels, and the modes they give.\<close>

lemma scores_black:
  assumes "blackPixels pd" "32 < length pd"
  shows "scoreAll (measureProfile pd w h) =
     [\<lparr>archetype = Tonal, score = Fin 0.7\<rparr>,
      \<lparr>archetype = Rhythmic, score = Fin 0\<rparr>,
      \<lparr>archetype = Textural, score = Fin 0.12\<rparr>,
      \<lparr>archetype = Sub, score = Fin 0.65\<rparr>,
      \<lparr>archetype = Spectral, score = Fin 0.4\<rparr>,
      \<lparr>archetype = ChromaticNoise, score = Fin 0.3\<rparr>]"
proof -
  define p where "p = measureProfile pd w h"
  have ne: "pd \<noteq> []" using assms(2) by auto
  note m = measureProfile_black[OF assms(1) ne, where w=w and h=h, folded p_def]
  have s: "spatialLow p = Fin 0" "spatialMid p = Fin 0" "spatialHigh p = Fin 0"
    unfolding p_def
    by (simp_all add: measureProfile_fields estimateSpatialFreqs_black[OF assms])
  have "scoreTonal p = Fin 0.7" by (simp add: scoreTonal_def m s)
  moreover have "scoreRhythmic p = Fin 0" by (simp add: scoreRhythmic_def m s)
  moreover have "scoreTextural p = Fin 0.12" by (simp add: scoreTextural_def m s)
  moreover have "scoreSub p = Fin 0.65" by (simp add: scoreSub_def m s)
  moreover have "scoreSpectral p = Fin 0.4" by (simp add: scoreSpectral_def Let_def m s)
  moreover have "scoreChromaticNoise p = Fin 0.3" by (simp add: scoreChromaticNoise_def m s)
  ultimately show ?thesis unfolding p_def[symmetric] scoreAll_def by simp
qed

lemma generate_black:
  assumes "blackPixels pd" "32 < length pd"
  shows "map archetype (generate (measureProfile pd w h)) = [Tonal, Sub, Spectral, ChromaticNoise]"
    and "map score (generate (measureProfile pd w h)) = [Fin 0.7, Fin 0.65, Fin 0.4, Fin 0.3]"
proof -
  have srt: "arraySort (\<lambda>a b. nsub (score b) (score a)) (scoreAll (measureProfile pd w h)) =
     [\<lparr>archetype = Tonal, score = Fin 0.7\<rparr>,
      \<lparr>archetype = Sub, score = Fin 0.65\<rparr>,
      \<lparr>archetype = Spectral, score = Fin 0.4\<rparr>,
      \<lparr>archetype = ChromaticNoise, score = Fin 0.3\<rparr>,
      \<lparr>archetype = Textural, score = Fin 0.12\<rparr>,
      \<lparr>archetype = Rhythmic, score = Fin 0\<rparr>]"
    unfolding scores_black[OF assms] by (simp add: arraySort_def)
  show "map archetype (generate (measureProfile pd w h)) = [Tonal, Sub, Spectral, ChromaticNoise]"
    unfolding generate_scores srt by (simp add: selectModes_6 THRESHOLD_def)
  show "map score (generate (measureProfile pd w h)) = [Fin 0.7, Fin 0.65, Fin 0.4, Fin 0.3]"
    unfolding generate_scores srt by (simp add: selectModes_6 THRESHOLD_def)
qed

lemma generate_black_small:
  assumes "length pd \<le> 32"
  shows "map archetype (generate (measureProfile pd w h)) = [Tonal, Rhythmic, Textural]"
    and "map score (generate (measureProfile pd w h)) = [NaN, NaN, NaN]"
proof -
  from estimateSpatialFreqs_cases(1)[OF assms, where w=w and h=h]
  have n: "\<forall>e \<in> set (scoreAll (measureProfile pd w h)). score e = NaN"
    by (intro scores_NaN_spatial) (simp_all add: measureProfile_fields)
  show "map archetype (generate (measureProfile pd w h)) = [Tonal, Rhythmic, Textural]"
    and "map score (generate (measureProfile pd w h)) = [NaN, NaN, NaN]"
    by (rule generate_NaN[OF n])+
qed

lemma black3x3_facts: "blackPixels black3x3" "black3x3 \<noteq> []" "32 < length black3x3"
  "length black3x3 mod 4 = 0"
  by (simp_all add: black3x3_def blackPixel_def)

lemma hd_archetype:
  "map archetype ms = a # as \<Longrightarrow> archetype (hd ms) = a"
  by (cases ms) simp_all

text \<open>
  Claim C6, as stated, fails: on a black image the top entry is not \<open>sub\<close>. With no
  brightness, no contrast and no spatial detail \<open>scoreSub\<close> is 0.5 + 0.3 * (1 - 0.5) = 0.65,
  but \<open>scoreTonal\<close> is 0.4 + 0.3 = 0.7: the first mode of a black image of three by
  three opaque pixels is \<open>tonal\<close>, and \<open>sub\<close> comes second.
\<close>

theorem black_image_top_archetype_is_tonal:
  "map archetype (generatedModes (analyzeImage black3x3 3 3))
     = [Tonal, Sub, Spectral, ChromaticNoise]
   \<and> map score (generatedModes (analyzeImage black3x3 3 3))
     = [Fin 0.7, Fin 0.65, Fin 0.4, Fin 0.3]
   \<and> archetype (hd (generatedModes (analyzeImage black3x3 3 3))) \<noteq> Sub"
proof -
  note g = generate_black[OF black3x3_facts(1,3), where w=3 and h=3, folded analyzeImage_modes]
  from hd_archetype[OF g(1)] g show ?thesis by simp
qed

text \<open>
  Claim C6, amended: for a black image that is not empty \<open>analyzeImage\<close> yields warmth
  0.5, saturation 0 and contrast 0, and the first entry of \<open>generatedModes\<close> has
  archetype \<open>tonal\<close>. With more than eight pixels (32 bytes) the modes are tonal 0.7,
  sub 0.65, spectral 0.4 and chromatic noise 0.3; with eight pixels or fewer the spatial
  estimate divides 0 by 0, every score is NaN and the modes are the first three archetypes
  in the order they are scored.
\<close>

theorem analyzeImage_black_image:
  assumes "blackPixels pd" "pd \<noteq> []"
  shows "warmth (analyzeImage pd w h) = Fin 0.5
     \<and> saturation (analyzeImage pd w h) = Fin 0
     \<and> contrast (analyzeImage pd w h) = Fin 0
     \<and> archetype (hd (generatedModes (analyzeImage pd w h))) = Tonal
     \<and> (if 32 < length pd
        then map archetype (generatedModes (analyzeImage pd w h))
               = [Tonal, Sub, Spectral, ChromaticNoise]
           \<and> map score (generatedModes (analyzeImage pd w h))
               = [Fin 0.7, Fin 0.65, Fin 0.4, Fin 0.3]
        else map archetype (generatedModes (analyzeImage pd w h)) = [Tonal, Rhythmic, Textural]
           \<and> map score (generatedModes (analyzeImage pd w h)) = [NaN, NaN, NaN])"
proof -
  note m = measureProfile_black[OF assms, where w=w and h=h]
  have f: "warmth (analyzeImage pd w h) = Fin 0.5" "saturation (analyzeImage pd w h) = Fin 0"
    "contrast (analyzeImage pd w h) = Fin 0"
    by (simp_all add: analyzeImage_fields m)
  show ?thesis
  proof (cases "32 < length pd")
    case True
    note g = generate_black[OF assms(1) True, where w=w and h=h, folded analyzeImage_modes]
    from hd_archetype[OF g(1)] g f True show ?thesis by simp
  next
    case False
    then have "length pd \<le> 32" by simp
    note g = generate_black_small[OF this, where w=w and h=h, folded analyzeImage_modes]
    from hd_archetype[OF g(1)] g f False show ?thesis by simp
  qed
qed

theorem analyzeImage_black_image_witness:
  "blackPixels black3x3 \<and> black3x3 \<noteq> [] \<and> 32 < length black3x3
   \<and> warmth (analyzeImage black3x3 3 3) = Fin 0.5
   \<and> saturation (analyzeImage black3x3 3 3) = Fin 0
   \<and> contrast (analyzeImage black3x3 3 3) = Fin 0
   \<and> archetype (hd (generatedModes (analyzeImage black3x3 3 3))) = Tonal"
  using analyzeImage_black_image[of black3x3 3 3] black3x3_facts by simp

text \<open>
  Claim C1, as stated, fails on an image of eight pixels or fewer: the loop of
  \<open>estimateSpatialFreqs\<close> does not run, the three spatial estimates are 0 / 0, and every
  score is NaN. For an image of one pixel the modes are three entries with the score NaN:
  no score is at least the next one, the list is not sorted by non-increasing score.
\<close>

theorem analyzeImage_one_pixel_scores_are_NaN:
  "map score (generatedModes (analyzeImage [200, 100, 50, 255] 1 1)) = [NaN, NaN, NaN]
   \<and> map archetype (generatedModes (analyzeImage [200, 100, 50, 255] 1 1))
       = [Tonal, Rhythmic, Textural]
   \<and> \<not> sorted_wrt (\<lambda>a b. nge (score a) (score b))
         (generatedModes (analyzeImage [200, 100, 50, 255] 1 1))"
proof -
  define ms where "ms = generatedModes (analyzeImage [200, 100, 50, 255] 1 1)"
  have l: "length [200, 100, 50, 255 :: 8 word] \<le> 32" by simp
  note g = generate_black_small[OF l, where w=1 and h=1, folded analyzeImage_modes,
      folded ms_def]
  have "sorted_wrt (\<lambda>a b. nge (score a) (score b)) ms
      \<longleftrightarrow> sorted_wrt nge (map score ms)"
    by (simp add: sorted_wrt_map)
  then have "\<not> sorted_wrt (\<lambda>a b. nge (score a) (score b)) ms"
    unfolding g(2) by simp
  with g show ?thesis unfolding ms_def by simp
qed

theorem analyzeImage_generates_3_to_5_sorted_modes_witness:
  "length black3x3 mod 4 = 0 \<and> 32 < length black3x3
   \<and> length (generatedModes (analyzeImage black3x3 3 3)) = 4
   \<and> drop 3 (generatedModes (analyzeImage black3x3 3 3))
       = [generatedModes (analyzeImage black3x3 3 3) ! 3]
   \<and> nge (score (generatedModes (analyzeImage black3x3 3 3) ! 3)) (Fin 0.25)
   \<and> isFin (score (generatedModes (analyzeImage black3x3 3 3) ! 3))"
proof -
  define ms where "ms = generatedModes (analyzeImage black3x3 3 3)"
  note g = generate_black[OF black3x3_facts(1,3), where w=3 and h=3, folded analyzeImage_modes,
      folded ms_def]
  have "length (map archetype ms) = length [Tonal, Sub, Spectral, ChromaticNoise]"
    by (simp only: g(1))
  then have len: "length ms = 4" by simp
  have dr: "drop 3 ms = [ms ! 3]"
    using Cons_nth_drop_Suc[of 3 ms] len by simp
  note t = analyzeImage_generates_3_to_5_sorted_modes[of black3x3 3 3, folded ms_def]
  from t have d: "\<forall>m \<in> set (drop 3 ms). nge (score m) (Fin 0.25)"
    by (elim conjE)
  from t have "length black3x3 mod 4 = 0 \<and> 32 < length black3x3 \<longrightarrow>
      (\<forall>m \<in> set ms. isFin (score m))"
    by (elim conjE)
  with black3x3_facts have f: "\<forall>m \<in> set ms. isFin (score m)" by simp
  have "ms ! 3 \<in> set (drop 3 ms)" "ms ! 3 \<in> set ms"
    using len by (simp_all add: dr)
  with d f have "nge (score (ms ! 3)) (Fin 0.25)" "isFin (score (ms ! 3))"
    by (simp_all only: )
  with len dr black3x3_facts show ?thesis unfolding ms_def by simp
qed

section \<open>snapToScale\<close>

text \<open>
  The two \<open>while\<close> loops of \<open>snapToScale\<close>, which bring the note into the two octaves
  above the root. Neither has a bound: on 0, a negative number or an infinity they do not
  return, and \<open>None\<close> stands for that.
\<close>

partial_function (option) raiseNote :: "num \<Rightarrow> num \<Rightarrow> num option" where
  "raiseNote note rootFreq =
     (if nlt note rootFreq then raiseNote (nmul note (Fin 2)) rootFreq else Some note)"

partial_function (option) lowerNote :: "num \<Rightarrow> num \<Rightarrow> num option" where
  "lowerNote note rootFreq =
     (if ngt note (nmul rootFreq (Fin 4)) then lowerNote (ndiv note (Fin 2)) rootFreq
      else Some note)"

text \<open>The body of the \<open>for\<close> loop over the ratios, on the pair \<open>(best, bestDist)\<close>.\<close>

definition nearestStep :: "num \<Rightarrow> real \<Rightarrow> num \<times> num \<Rightarrow> num \<times> num" where
  "nearestStep inOctave r st =
     (case st of (best, bestDist) \<Rightarrow>
        (let dist = nabs (nsub inOctave (Fin r))
         in if nlt dist bestDist then (Fin r, dist) else (best, bestDist)))"

definition snapToScale :: "num \<Rightarrow> 'a Tuning_scheme \<Rightarrow> num option" where
  "snapToScale hz profile =
     (case raiseNote hz (rootHz profile) of
        None \<Rightarrow> None
      | Some raised \<Rightarrow>
          (case lowerNote raised (rootHz profile) of
             None \<Rightarrow> None
           | Some note \<Rightarrow>
               (let ratio = ndiv note (rootHz profile);
                    octaveMult = npow2 (nfloor (nlog2 ratio));
                    inOctave = ndiv ratio octaveMult;
                    best = fst (fold (nearestStep inOctave) (scaleRatios profile)
                                  (nthInt (scaleRatios profile) 0, PInf))
                in Some (nmul (nmul (rootHz profile) octaveMult) best))))"

subsection \<open>The loops return on positive numbers\<close>

lemma raiseNote_steps:
  assumes "0 < x" "0 < r" "r \<le> x * 2 ^ n"
  shows "\<exists>y. raiseNote (Fin x) (Fin r) = Some (Fin y) \<and> r \<le> y
           \<and> (r \<le> x \<longrightarrow> y = x) \<and> (x < r \<longrightarrow> y < 2 * r)"
  using assms
proof (induction n arbitrary: x)
  case 0
  then show ?case by (simp add: raiseNote.simps[of "Fin x" "Fin r"])
next
  case (Suc n)
  show ?case
  proof (cases "x < r")
    case False
    then show ?thesis by (simp add: raiseNote.simps[of "Fin x" "Fin r"])
  next
    case True
    have "r \<le> (x * 2) * 2 ^ n" using Suc.prems(3) by (simp add: mult.assoc)
    from Suc.IH[OF _ Suc.prems(2) this] Suc.prems(1)
    obtain y where y: "raiseNote (Fin (x * 2)) (Fin r) = Some (Fin y)" "r \<le> y"
      "r \<le> x * 2 \<longrightarrow> y = x * 2" "x * 2 < r \<longrightarrow> y < 2 * r"
      by auto
    have "raiseNote (Fin x) (Fin r) = Some (Fin y)"
      using True y(1) by (simp add: raiseNote.simps[of "Fin x" "Fin r"])
    moreover have "y < 2 * r" using y(3,4) True by (cases "r \<le> x * 2") auto
    ultimately show ?thesis using y(2) True by auto
  qed
qed

lemma raiseNote_returns:
  assumes "0 < x" "0 < r"
  shows "\<exists>y. raiseNote (Fin x) (Fin r) = Some (Fin y) \<and> r \<le> y
           \<and> (r \<le> x \<longrightarrow> y = x) \<and> (x < r \<longrightarrow> y < 2 * r)"
proof -
  obtain n where "r / x < 2 ^ n" using real_arch_pow[of 2 "r / x"] by auto
  then have "r \<le> x * 2 ^ n" using assms(1) by (simp add: field_simps)
  from raiseNote_steps[OF assms this] show ?thesis .
qed

lemma lowerNote_steps:
  assumes "0 < x" "0 < r" "x \<le> 4 * r * 2 ^ n"
  shows "\<exists>y. lowerNote (Fin x) (Fin r) = Some (Fin y) \<and> y \<le> 4 * r
           \<and> (x \<le> 4 * r \<longrightarrow> y = x) \<and> (4 * r < x \<longrightarrow> 2 * r < y)"
  using assms
proof (induction n arbitrary: x)
  case 0
  then show ?case by (simp add: lowerNote.simps[of "Fin x" "Fin r"] ngt_def)
next
  case (Suc n)
  show ?case
  proof (cases "4 * r < x")
    case False
    then show ?thesis by (simp add: lowerNote.simps[of "Fin x" "Fin r"] ngt_def)
  next
    case True
    have "x / 2 \<le> 4 * r * 2 ^ n" using Suc.prems(3) by simp
    from Suc.IH[OF _ Suc.prems(2) this] Suc.prems(1)
    obtain y where y: "lowerNote (Fin (x / 2)) (Fin r) = Some (Fin y)" "y \<le> 4 * r"
      "x / 2 \<le> 4 * r \<longrightarrow> y = x / 2" "4 * r < x / 2 \<longrightarrow> 2 * r < y"
      by auto
    have "lowerNote (Fin x) (Fin r) = Some (Fin y)"
      using True y(1) by (simp add: lowerNote.simps[of "Fin x" "Fin r"] ngt_def)
    moreover have "2 * r < y" using y(3,4) True by (cases "x / 2 \<le> 4 * r") auto
    ultimately show ?thesis using y(2) True by auto
  qed
qed

lemma lowerNote_returns:
  assumes "0 < x" "0 < r"
  shows "\<exists>y. lowerNote (Fin x) (Fin r) = Some (Fin y) \<and> y \<le> 4 * r
           \<and> (x \<le> 4 * r \<longrightarrow> y = x) \<and> (4 * r < x \<longrightarrow> 2 * r < y)"
proof -
  obtain n where "x / (4 * r) < 2 ^ n" using real_arch_pow[of 2 "x / (4 * r)"] by auto
  then have "x \<le> 4 * r * 2 ^ n" using assms(2) by (simp add: field_simps)
  from lowerNote_steps[OF assms this] show ?thesis .
qed

text \<open>Both loops: the note ends between the root and four times the root.\<close>

lemma loops_return:
  assumes "0 < x" "0 < r"
  shows "\<exists>u y. raiseNote (Fin x) (Fin r) = Some (Fin u) \<and> lowerNote (Fin u) (Fin r) = Some (Fin y)
           \<and> r \<le> y \<and> y \<le> 4 * r \<and> (r \<le> x \<and> x \<le> 4 * r \<longrightarrow> y = x)"
proof -
  from raiseNote_returns[OF assms] obtain u where
    u: "raiseNote (Fin x) (Fin r) = Some (Fin u)" "r \<le> u" "r \<le> x \<longrightarrow> u = x" by blast
  from u(2) assms(2) have "0 < u" by simp
  from lowerNote_returns[OF this assms(2)] obtain y where
    y: "lowerNote (Fin u) (Fin r) = Some (Fin y)" "y \<le> 4 * r" "u \<le> 4 * r \<longrightarrow> y = u"
    "4 * r < u \<longrightarrow> 2 * r < y" by blast
  have "r \<le> y" using y(3,4) u(2) assms(2) by (cases "u \<le> 4 * r") auto
  moreover have "r \<le> x \<and> x \<le> 4 * r \<longrightarrow> y = x" using u(3) y(3) by auto
  ultimately show ?thesis using u(1) y(1,2) by blast
qed

subsection \<open>The nearest ratio\<close>

definition nearest :: "real \<Rightarrow> real list \<Rightarrow> num" where
  "nearest x ratios = fst (fold (nearestStep (Fin x)) ratios (nthInt ratios 0, PInf))"

lemma nearestStep_Fin:
  "nearestStep (Fin x) r (b, Fin d) = (if \<bar>x - r\<bar> < d then (Fin r, Fin \<bar>x - r\<bar>) else (b, Fin d))"
  "nearestStep (Fin x) r (b, PInf) = (Fin r, Fin \<bar>x - r\<bar>)"
  by (simp_all add: nearestStep_def Let_def nsub_def)

text \<open>Once a ratio has been seen, the best is one of the ratios seen.\<close>

lemma fold_nearest_in:
  "c \<in> S \<Longrightarrow> set rs \<subseteq> S \<Longrightarrow>
   \<exists>c' e. fold (nearestStep (Fin x)) rs (Fin c, Fin d) = (Fin c', Fin e) \<and> c' \<in> S"
proof (induction rs arbitrary: c d)
  case Nil
  then show ?case by simp
next
  case (Cons r rs)
  show ?case
  proof (cases "\<bar>x - r\<bar> < d")
    case True
    have "r \<in> S" using Cons.prems(2) by simp
    from Cons.IH[OF this, of "\<bar>x - r\<bar>"] Cons.prems(2) True
    show ?thesis by (simp add: nearestStep_Fin)
  next
    case False
    from Cons.IH[OF Cons.prems(1), of d] Cons.prems(2) False
    show ?thesis by (simp add: nearestStep_Fin)
  qed
qed

lemma nearest_in:
  assumes "ratios \<noteq> []"
  shows "\<exists>c. nearest x ratios = Fin c \<and> c \<in> set ratios"
proof -
  from assms obtain r rs where rs: "ratios = r # rs" by (cases ratios) auto
  from fold_nearest_in[of r "set ratios" rs x "\<bar>x - r\<bar>"]
  obtain c e where "fold (nearestStep (Fin x)) rs (Fin r, Fin \<bar>x - r\<bar>) = (Fin c, Fin e)"
    "c \<in> set ratios" by (auto simp: rs)
  then show ?thesis by (simp add: nearest_def rs nearestStep_Fin)
qed

text \<open>A ratio of the list is its own nearest ratio.\<close>

lemma fold_nearest_found:
  "fold (nearestStep (Fin x)) rs (Fin x, Fin 0) = (Fin x, Fin 0)"
  by (induction rs) (simp_all add: nearestStep_Fin)

lemma fold_nearest_before:
  "x \<notin> set rs \<Longrightarrow> st = (b, PInf) \<or> (\<exists>d. st = (b, Fin d) \<and> 0 < d) \<Longrightarrow>
   \<exists>b'. fold (nearestStep (Fin x)) rs st = (b', PInf)
       \<or> (\<exists>d. fold (nearestStep (Fin x)) rs st = (b', Fin d) \<and> 0 < d)"
proof (induction rs arbitrary: st b)
  case Nil
  then show ?case by auto
next
  case (Cons r rs)
  from Cons.prems(1) have r: "0 < \<bar>x - r\<bar>" "x \<notin> set rs" by auto
  have "\<exists>b'. nearestStep (Fin x) r st = (b', PInf)
      \<or> (\<exists>d. nearestStep (Fin x) r st = (b', Fin d) \<and> 0 < d)"
    using Cons.prems(2) r(1) by (auto simp: nearestStep_Fin)
  then obtain b' where "nearestStep (Fin x) r st = (b', PInf)
      \<or> (\<exists>d. nearestStep (Fin x) r st = (b', Fin d) \<and> 0 < d)" by blast
  from Cons.IH[OF r(2) this] show ?case by simp
qed

lemma nearest_self:
  assumes "x \<in> set ratios"
  shows "nearest x ratios = Fin x"
proof -
  define b0 where "b0 = nthInt ratios 0"
  from split_list_first[OF assms] obtain pre post where
    s: "ratios = pre @ x # post" "x \<notin> set pre" by blast
  from fold_nearest_before[OF s(2), of "(b0, PInf)" b0]
  obtain b where b: "fold (nearestStep (Fin x)) pre (b0, PInf) = (b, PInf)
       \<or> (\<exists>d. fold (nearestStep (Fin x)) pre (b0, PInf) = (b, Fin d) \<and> 0 < d)"
    by auto
  then have "nearestStep (Fin x) x (fold (nearestStep (Fin x)) pre (b0, PInf))
      = (Fin x, Fin 0)"
    by (auto simp: nearestStep_Fin)
  then have "fold (nearestStep (Fin x)) (pre @ x # post) (b0, PInf) = (Fin x, Fin 0)"
    by (simp add: fold_nearest_found)
  with s(1) have "fold (nearestStep (Fin x)) ratios (b0, PInf) = (Fin x, Fin 0)" by simp
  then show ?thesis by (simp add: nearest_def b0_def)
qed

subsection \<open>The value of snapToScale\<close>

lemma floor_log2:
  assumes "0 < x" "2 ^ k \<le> x" "x < 2 ^ Suc k"
  shows "\<lfloor>log 2 x\<rfloor> = int k"
proof -
  have "real k \<le> log 2 x"
    using assms(1,2) by (simp add: le_log_iff powr_realpow)
  moreover have "log 2 x < real (Suc k)"
  proof -
    have "(2::real) powr real (Suc k) = 2 ^ Suc k" by (rule powr_realpow) simp
    with assms(3) have h: "x < 2 powr real (Suc k)" by simp
    have iff: "(log 2 x < real (Suc k)) = (x < 2 powr real (Suc k))"
      by (rule log_less_iff) (simp_all add: assms(1))
    from iffD2[OF iff h] show ?thesis .
  qed
  ultimately have "real_of_int (int k) \<le> log 2 x" "log 2 x < real_of_int (int k) + 1"
    by simp_all
  then show ?thesis by (simp only: floor_eq_iff)
qed

lemma raiseNote_stays: "r \<le> x \<Longrightarrow> raiseNote (Fin x) (Fin r) = Some (Fin x)"
  by (simp add: raiseNote.simps[of "Fin x" "Fin r"])

lemma lowerNote_stays: "x \<le> 4 * r \<Longrightarrow> lowerNote (Fin x) (Fin r) = Some (Fin x)"
  by (simp add: lowerNote.simps[of "Fin x" "Fin r"] ngt_def)

text \<open>After the loops: the octave of the note and the nearest ratio within it.\<close>

lemma snapToScale_after_loops:
  assumes "rootHz p = Fin r" "0 < r"
    "raiseNote (Fin hz) (Fin r) = Some (Fin u)" "lowerNote (Fin u) (Fin r) = Some (Fin x)"
    "2 ^ k \<le> x / r" "x / r < 2 ^ Suc k"
  shows "snapToScale (Fin hz) p
       = Some (nmul (Fin (r * 2 ^ k)) (nearest (x / r / 2 ^ k) (scaleRatios p)))"
proof -
  have "(0::real) < 2 ^ k" by simp
  with assms(5) have pos: "0 < x / r" by linarith
  have fl: "\<lfloor>log 2 (x / r)\<rfloor> = int k" by (rule floor_log2[OF pos assms(5,6)])
  have pw: "(2::real) powr real k = 2 ^ k" by (simp add: powr_realpow)
  have r0: "r \<noteq> 0" using assms(2) by simp
  have ratio: "ndiv (Fin x) (Fin r) = Fin (x / r)" using r0 by simp
  have om: "npow2 (nfloor (nlog2 (Fin (x / r)))) = Fin (2 ^ k)"
    using pos by (simp add: fl pw)
  have p0: "(2::real) ^ k \<noteq> 0" by simp
  have ino: "ndiv (Fin (x / r)) (Fin (2 ^ k)) = Fin (x / r / 2 ^ k)"
    using p0 by simp
  have res: "nmul (Fin r) (Fin (2 ^ k)) = Fin (r * 2 ^ k)" by simp
  show ?thesis
    unfolding snapToScale_def assms(1) assms(3) option.case assms(4) Let_def
      ratio om ino res nearest_def
    by (rule refl)
qed

lemma snapToScale_in_range:
  assumes "rootHz p = Fin r" "0 < r" "r \<le> x" "x \<le> 4 * r"
    "2 ^ k \<le> x / r" "x / r < 2 ^ Suc k"
  shows "snapToScale (Fin x) p
       = Some (nmul (Fin (r * 2 ^ k)) (nearest (x / r / 2 ^ k) (scaleRatios p)))"
  by (rule snapToScale_after_loops[OF assms(1,2) raiseNote_stays[OF assms(3)]
        lowerNote_stays[OF assms(4)] assms(5,6)])

text \<open>The octave of a ratio between 1 and 4.\<close>

lemma octave_cases:
  assumes "1 \<le> q" "q \<le> (4::real)"
  shows "\<exists>k. k \<le> 2 \<and> 2 ^ k \<le> q \<and> q < 2 ^ Suc k \<and> (k = 2 \<longrightarrow> q = 4)"
proof -
  consider "q < 2" | "2 \<le> q" "q < 4" | "q = 4" using assms by linarith
  then show ?thesis
  proof cases
    case 1
    with assms show ?thesis by (intro exI[of _ 0]) simp
  next
    case 2
    then show ?thesis by (intro exI[of _ 1]) simp
  next
    case 3
    then show ?thesis by (intro exI[of _ 2]) simp
  qed
qed

text \<open>The nearest ratio is at the least distance.\<close>

lemma fold_nearest_least:
  "\<forall>c' \<in> S. \<bar>x - c\<bar> \<le> \<bar>x - c'\<bar> \<Longrightarrow>
   \<exists>c''. fold (nearestStep (Fin x)) rs (Fin c, Fin \<bar>x - c\<bar>) = (Fin c'', Fin \<bar>x - c''\<bar>)
       \<and> (\<forall>c' \<in> S \<union> set rs. \<bar>x - c''\<bar> \<le> \<bar>x - c'\<bar>)"
proof (induction rs arbitrary: c S)
  case Nil
  then show ?case by simp
next
  case (Cons r rs)
  show ?case
  proof (cases "\<bar>x - r\<bar> < \<bar>x - c\<bar>")
    case True
    have "\<forall>c' \<in> insert r S. \<bar>x - r\<bar> \<le> \<bar>x - c'\<bar>"
      using Cons.prems True by fastforce
    from Cons.IH[OF this] True show ?thesis by (simp add: nearestStep_Fin)
  next
    case False
    have "\<forall>c' \<in> insert r S. \<bar>x - c\<bar> \<le> \<bar>x - c'\<bar>"
      using Cons.prems False by fastforce
    from Cons.IH[OF this] False show ?thesis by (simp add: nearestStep_Fin)
  qed
qed

lemma nearest_least:
  assumes "ratios \<noteq> []"
  shows "\<exists>c. nearest x ratios = Fin c \<and> c \<in> set ratios
           \<and> (\<forall>c' \<in> set ratios. \<bar>x - c\<bar> \<le> \<bar>x - c'\<bar>)"
proof -
  from assms obtain r rs where rs: "ratios = r # rs" by (cases ratios) auto
  from fold_nearest_least[of "{r}" x r rs]
  obtain c where c: "fold (nearestStep (Fin x)) rs (Fin r, Fin \<bar>x - r\<bar>) = (Fin c, Fin \<bar>x - c\<bar>)"
    "\<forall>c' \<in> set ratios. \<bar>x - c\<bar> \<le> \<bar>x - c'\<bar>" by (auto simp: rs)
  then have n: "nearest x ratios = Fin c" by (simp add: nearest_def rs nearestStep_Fin)
  from nearest_in[OF assms, of x] n have "c \<in> set ratios" by simp
  with n c(2) show ?thesis by simp
qed

text \<open>The ratios of every scale lie in the octave from 1, which is among them.\<close>

lemma SCALES_octave:
  "SCALES s \<noteq> []" "1 \<in> set (SCALES s)" "\<forall>c \<in> set (SCALES s). 1 \<le> c \<and> c < 2"
  by (cases s; simp)+

text \<open>
  The snapped note: the root times 1, 2 or 4 times a ratio of the scale, the one nearest
  to the note within its octave; and it snaps to itself.
\<close>

lemma snapToScale_fixed:
  assumes "rootHz p = Fin r" "0 < r" "scaleRatios p = SCALES s" "0 < hz"
  shows "\<exists>x k c. raiseNote (Fin hz) (Fin r) \<noteq> None
        \<and> Option.bind (raiseNote (Fin hz) (Fin r)) (\<lambda>u. lowerNote u (Fin r)) = Some (Fin x)
        \<and> r \<le> x \<and> x \<le> 4 * r \<and> (r \<le> hz \<and> hz \<le> 4 * r \<longrightarrow> x = hz)
        \<and> k \<le> 2 \<and> 2 ^ k \<le> x / r \<and> x / r < 2 ^ Suc k
        \<and> c \<in> set (SCALES s) \<and> (\<forall>c' \<in> set (SCALES s). \<bar>x / r / 2 ^ k - c\<bar> \<le> \<bar>x / r / 2 ^ k - c'\<bar>)
        \<and> snapToScale (Fin hz) p = Some (Fin (r * 2 ^ k * c))
        \<and> r \<le> r * 2 ^ k * c \<and> r * 2 ^ k * c \<le> 4 * r
        \<and> snapToScale (Fin (r * 2 ^ k * c)) p = Some (Fin (r * 2 ^ k * c))"
proof -
  from loops_return[OF assms(4,2)] obtain u x where
    l: "raiseNote (Fin hz) (Fin r) = Some (Fin u)" "lowerNote (Fin u) (Fin r) = Some (Fin x)"
    "r \<le> x" "x \<le> 4 * r" "r \<le> hz \<and> hz \<le> 4 * r \<longrightarrow> x = hz" by blast
  have q: "1 \<le> x / r" "x / r \<le> 4" using l(3,4) assms(2) by (simp_all add: field_simps)
  from octave_cases[OF q] obtain k where
    k: "k \<le> 2" "2 ^ k \<le> x / r" "x / r < 2 ^ Suc k" "k = 2 \<longrightarrow> x / r = 4" by blast
  from nearest_least[OF SCALES_octave(1), of "x / r / 2 ^ k" s] obtain c where
    c: "nearest (x / r / 2 ^ k) (SCALES s) = Fin c" "c \<in> set (SCALES s)"
    "\<forall>c' \<in> set (SCALES s). \<bar>x / r / 2 ^ k - c\<bar> \<le> \<bar>x / r / 2 ^ k - c'\<bar>" by blast
  define y where "y = r * 2 ^ k * c"
  have v: "snapToScale (Fin hz) p = Some (Fin y)"
    using snapToScale_after_loops[OF assms(1,2) l(1,2) k(2,3)]
    unfolding assms(3) c(1) y_def by simp
  from SCALES_octave(3) c(2) have cb: "1 \<le> c" "c < 2" by auto
  have c4: "k = 2 \<longrightarrow> c = 1"
  proof
    assume k2: "k = 2"
    with k(4) have one: "x / r / 2 ^ k = 1" by simp
    from c(1)[unfolded one] nearest_self[OF SCALES_octave(2), of s] show "c = 1" by simp
  qed
  have p2: "(1::real) \<le> 2 ^ k" by simp
  have ylo: "r \<le> y"
  proof -
    have "r * 1 * 1 \<le> r * 2 ^ k * c"
      using assms(2) p2 cb(1) by (intro mult_mono) simp_all
    then show ?thesis by (simp add: y_def)
  qed
  have yhi: "y \<le> 4 * r"
  proof (cases "k = 2")
    case True
    with c4 show ?thesis by (simp add: y_def)
  next
    case False
    with k(1) have "k = 0 \<or> k = 1" by linarith
    then show ?thesis using cb assms(2) by (auto simp: y_def)
  qed
  have yr: "y / r = 2 ^ k * c" using assms(2) by (simp add: y_def)
  have b1: "2 ^ k \<le> y / r" unfolding yr using cb(1) by simp
  have b2: "y / r < 2 ^ Suc k" unfolding yr using cb(2) by simp
  have yc: "y / r / 2 ^ k = c" unfolding yr by simp
  have again: "snapToScale (Fin y) p = Some (Fin y)"
    using snapToScale_in_range[OF assms(1,2) ylo yhi b1 b2]
    unfolding assms(3) yc nearest_self[OF c(2)] by (simp add: y_def)
  have bind: "Option.bind (raiseNote (Fin hz) (Fin r)) (\<lambda>u. lowerNote u (Fin r)) = Some (Fin x)"
    by (simp add: l(1,2))
  have ne: "raiseNote (Fin hz) (Fin r) \<noteq> None" by (simp add: l(1))
  show ?thesis
    apply (rule exI[of _ x], rule exI[of _ k], rule exI[of _ c])
    using ne bind l(3,4,5) k(1,2,3) c(2,3) v ylo yhi again unfolding y_def
    apply (intro conjI)
    apply assumption+
    done
qed

subsection \<open>The root and the scale of an analyzed image\<close>

lemma js_mod_nonneg:
  assumes "0 \<le> x" "0 < y"
  shows "0 \<le> js_mod x y"
proof -
  have q: "0 \<le> x / y" using assms by simp
  have "y * of_int \<lfloor>x / y\<rfloor> \<le> y * (x / y)"
    using assms(2) by (intro mult_left_mono) simp_all
  moreover have "y * (x / y) = x" using assms(2) by simp
  ultimately have "y * of_int \<lfloor>x / y\<rfloor> \<le> x" by simp
  then show ?thesis using q by (simp add: js_mod_def js_trunc_def)
qed

lemma js_mod_of_int:
  assumes "0 \<le> k"
  shows "js_mod (of_int k) 12 = of_int (k mod 12)"
proof -
  have "\<lfloor>real_of_int k / 12\<rfloor> = k div 12"
    using floor_divide_of_int_eq[of k 12, where ?'a = real] by simp
  moreover have "k = 12 * (k div 12) + k mod 12" by simp
  then have "real_of_int k = 12 * real_of_int (k div 12) + real_of_int (k mod 12)"
    by (metis of_int_add of_int_mult of_int_numeral)
  ultimately show ?thesis using assms by (simp add: js_mod_def js_trunc_def)
qed

text \<open>The hue is a finite number that is not negative, whatever the averages.\<close>

lemma hueOf_NaN:
  "hueOf avgR avgG avgB NaN minC = Fin 0"
  by (simp add: hueOf_def)

lemma hue_ratio_bound:
  assumes "m \<le> p" "p \<le> M" "m \<le> q" "q \<le> M" "1 < M - (m::real)"
  shows "- 1 \<le> (p - q) / (M - m)"
proof -
  have "- (M - m) \<le> p - q" using assms by linarith
  then show ?thesis using assms(5) by (simp add: pos_le_divide_eq)
qed

lemma if_nonneg:
  "0 \<le> x \<Longrightarrow> 0 \<le> y \<Longrightarrow> 0 \<le> z \<Longrightarrow> (0::real) \<le> (if P then x else if Q then y else z)"
  by simp

lemma hueOf_Fin:
  "\<exists>h. hueOf (Fin a) (Fin b) (Fin c) (Fin (max (max a b) c)) (Fin (min (min a b) c)) = Fin h
      \<and> 0 \<le> h"
proof (cases "1 < max (max a b) c - min (min a b) c")
  case False
  then show ?thesis by (simp add: hueOf_def)
next
  case True
  define M where "M = max (max a b) c"
  define m where "m = min (min a b) c"
  have d: "1 < M - m" using True by (simp add: M_def m_def)
  then have d0: "M - m \<noteq> 0" by simp
  have bd: "m \<le> a" "a \<le> M" "m \<le> b" "b \<le> M" "m \<le> c" "c \<le> M"
    by (simp_all add: M_def m_def)
  note r1 = hue_ratio_bound[OF bd(3,4,5,6) d]
  note r2 = hue_ratio_bound[OF bd(5,6,1,2) d]
  note r3 = hue_ratio_bound[OF bd(1,2,3,4) d]
  have h1: "0 \<le> js_mod ((b - c) / (M - m) + 6) 6 / 6"
    using js_mod_nonneg[of "(b - c) / (M - m) + 6" 6] r1 by simp
  have h2: "0 \<le> ((c - a) / (M - m) + 2) / 6" using r2 by simp
  have h3: "0 \<le> ((a - b) / (M - m) + 4) / 6" using r3 by simp
  have "hueOf (Fin a) (Fin b) (Fin c) (Fin M) (Fin m)
      = Fin (if M = a then js_mod ((b - c) / (M - m) + 6) 6 / 6
             else if M = b then ((c - a) / (M - m) + 2) / 6
             else ((a - b) / (M - m) + 4) / 6)"
    using d d0 by (simp add: hueOf_def neq_def)
  moreover have "0 \<le> (if M = a then js_mod ((b - c) / (M - m) + 6) 6 / 6
             else if M = b then ((c - a) / (M - m) + 2) / 6
             else ((a - b) / (M - m) + 4) / 6)"
    by (rule if_nonneg[OF h1 h2 h3])
  ultimately show ?thesis unfolding M_def m_def by blast
qed

lemma ROOT_NOTES_pos: "\<forall>x \<in> set ROOT_NOTES. 0 < x"
  by (simp add: ROOT_NOTES_def)

lemma rootOf_pos:
  assumes "0 \<le> h"
  shows "\<exists>r. rootOf (Fin h) = Fin r \<and> r \<in> set ROOT_NOTES \<and> 0 < r"
proof -
  define k where "k = \<lfloor>h * 12\<rfloor>"
  have k0: "0 \<le> k" using assms by (simp add: k_def)
  define j where "j = k mod 12"
  have j: "0 \<le> j" "j < 12" by (simp_all add: j_def)
  have len: "length ROOT_NOTES = 12" by (simp add: ROOT_NOTES_def)
  have "rootOf (Fin h) = nthNum ROOT_NOTES (Fin (of_int j))"
    unfolding rootOf_def j_def using js_mod_of_int[OF k0] by (simp add: k_def)
  also have "\<dots> = Fin (ROOT_NOTES ! nat j)"
    using j by (simp add: nthInt_def len)
  finally have e: "rootOf (Fin h) = Fin (ROOT_NOTES ! nat j)" .
  have "nat j < length ROOT_NOTES" using j by (simp add: len)
  then have m: "ROOT_NOTES ! nat j \<in> set ROOT_NOTES" by (rule nth_mem)
  with ROOT_NOTES_pos have "0 < ROOT_NOTES ! nat j" by blast
  with e m show ?thesis by blast
qed

lemma measureProfile_rootHz:
  "rootHz (measureProfile pd w h)
     = rootOf (hueOf (mean (totalR (stats pd w h)) (stats pd w h))
                     (mean (totalG (stats pd w h)) (stats pd w h))
                     (mean (totalB (stats pd w h)) (stats pd w h))
         (nmax (nmax (mean (totalR (stats pd w h)) (stats pd w h))
                     (mean (totalG (stats pd w h)) (stats pd w h)))
               (mean (totalB (stats pd w h)) (stats pd w h)))
         (nmin (nmin (mean (totalR (stats pd w h)) (stats pd w h))
                     (mean (totalG (stats pd w h)) (stats pd w h)))
               (mean (totalB (stats pd w h)) (stats pd w h))))"
  "scaleRatios (measureProfile pd w h) = SCALES (scale (measureProfile pd w h))"
  by (simp_all add: measureProfile_def Let_def stats_def acc0_def mean_def)

lemma analyzeImage_tuning:
  "\<exists>r. rootHz (analyzeImage pd w h) = Fin r \<and> r \<in> set ROOT_NOTES \<and> 0 < r"
  "scaleRatios (analyzeImage pd w h) = SCALES (scale (analyzeImage pd w h))"
proof -
  define acc where "acc = stats pd w h"
  define R where "R = mean (totalR acc) acc"
  define G where "G = mean (totalG acc) acc"
  define B where "B = mean (totalB acc) acc"
  have gb: "goodAcc acc \<or> badAcc acc"
    using colorLoop_start(1)[where pd=pd and w=w and h=h] by (simp add: acc_def stats_def)
  have "(\<exists>a b c. R = Fin a \<and> G = Fin b \<and> B = Fin c) \<or> nmax (nmax R G) B = NaN"
  proof (cases "pd = []")
    case True
    then have "acc = acc0"
      using colorLoop_start(4)[of pd w h] by (simp add: acc_def stats_def)
    then have "B = NaN" by (simp add: B_def mean_def acc0_def)
    then show ?thesis by simp
  next
    case False
    then have n: "0 < count acc"
      using colorLoop_start(3)[of pd w h] by (simp add: acc_def stats_def)
    from gb show ?thesis
    proof
      assume "goodAcc acc"
      then obtain a b c where "totalR acc = Fin a" "totalG acc = Fin b" "totalB acc = Fin c"
        by (auto simp: goodAcc_def isFin_def)
      with n show ?thesis by (simp add: R_def G_def B_def mean_def)
    next
      assume "badAcc acc"
      then have "G = NaN \<or> B = NaN" by (auto simp: badAcc_def G_def B_def mean_def)
      then show ?thesis by auto
    qed
  qed
  then have "\<exists>hu. hueOf R G B (nmax (nmax R G) B) (nmin (nmin R G) B) = Fin hu \<and> 0 \<le> hu"
  proof
    assume "\<exists>a b c. R = Fin a \<and> G = Fin b \<and> B = Fin c"
    then obtain a b c where f: "R = Fin a" "G = Fin b" "B = Fin c" by blast
    from hueOf_Fin[of a b c] show ?thesis by (simp add: f)
  next
    assume "nmax (nmax R G) B = NaN"
    then show ?thesis by (simp add: hueOf_NaN)
  qed
  then obtain hu where hu: "hueOf R G B (nmax (nmax R G) B) (nmin (nmin R G) B) = Fin hu"
    "0 \<le> hu" by blast
  have "rootHz (analyzeImage pd w h) = rootOf (Fin hu)"
    unfolding analyzeImage_fields measureProfile_rootHz(1) acc_def[symmetric]
      R_def[symmetric] G_def[symmetric] B_def[symmetric] hu(1) by (rule refl)
  with rootOf_pos[OF hu(2)]
  show "\<exists>r. rootHz (analyzeImage pd w h) = Fin r \<and> r \<in> set ROOT_NOTES \<and> 0 < r" by simp
  show "scaleRatios (analyzeImage pd w h) = SCALES (scale (analyzeImage pd w h))"
    by (simp add: analyzeImage_def Let_def measureProfile_rootHz(2))
qed

text \<open>The profile of the black image of three by three pixels: A2 and the whole-tone scale.\<close>

lemma black3x3_tuning:
  "rootHz (analyzeImage black3x3 3 3) = Fin 110"
  "scaleRatios (analyzeImage black3x3 3 3) = SCALES Wholetone"
proof -
  note m = measureProfile_black[OF black3x3_facts(1,2), of 3 3]
  define acc where "acc = stats black3x3 3 3"
  have z0: "zeroAcc acc0" by (simp add: zeroAcc_def acc0_def)
  have z: "zeroAcc acc"
    unfolding acc_def stats_def by (rule colorLoop_black[OF black3x3_facts(1) _ z0]) simp
  have n: "0 < count acc"
    using colorLoop_start(3)[OF black3x3_facts(2), of 3 3] by (simp add: acc_def stats_def)
  have means: "mean (totalR acc) acc = Fin 0" "mean (totalG acc) acc = Fin 0"
    "mean (totalB acc) acc = Fin 0"
    using z n by (simp_all add: mean_def zeroAcc_def)
  show "rootHz (analyzeImage black3x3 3 3) = Fin 110"
    unfolding analyzeImage_fields measureProfile_rootHz(1) acc_def[symmetric] means
    by (simp add: hueOf_def rootOf_def js_mod_def js_trunc_def nthInt_def ROOT_NOTES_def)
  have "scale (measureProfile black3x3 3 3)
      = scaleOf (saturation (measureProfile black3x3 3 3)) (warmth (measureProfile black3x3 3 3))
          (contrast (measureProfile black3x3 3 3))"
    by (simp add: measureProfile_def Let_def)
  then have "scale (measureProfile black3x3 3 3) = Wholetone"
    by (simp add: m scaleOf_def)
  then show "scaleRatios (analyzeImage black3x3 3 3) = SCALES Wholetone"
    by (simp add: analyzeImage_fields measureProfile_rootHz(2))
qed

text \<open>
  Claim C8. For every positive frequency and every profile \<open>analyzeImage\<close> returns,
  \<open>snapToScale\<close> returns (its two loops end), and the note it returns snaps to itself.
  The note is the root times 1, 2 or 4 times a ratio of the profile's scale: the loops
  bring the frequency to a note \<open>x\<close> from the root to four times the root (and leave it
  alone if it is already there), \<open>2 ^ k\<close> is the octave of \<open>x\<close> above the root and the
  ratio is the one nearest to \<open>x\<close> within that octave. The root is one of the twelve
  \<open>ROOT_NOTES\<close> and the ratios are one of the five \<open>SCALES\<close>. Frequencies are exact
  reals.
\<close>

theorem snapToScale_idempotent:
  assumes "0 < hz"
  shows "\<exists>y. snapToScale (Fin hz) (analyzeImage pd w h) = Some (Fin y)
           \<and> snapToScale (Fin y) (analyzeImage pd w h) = Some (Fin y)
           \<and> (\<exists>r x k c. rootHz (analyzeImage pd w h) = Fin r \<and> r \<in> set ROOT_NOTES
                 \<and> scaleRatios (analyzeImage pd w h) = SCALES (scale (analyzeImage pd w h))
                 \<and> Option.bind (raiseNote (Fin hz) (Fin r)) (\<lambda>u. lowerNote u (Fin r))
                       = Some (Fin x)
                 \<and> r \<le> x \<and> x \<le> 4 * r \<and> (r \<le> hz \<and> hz \<le> 4 * r \<longrightarrow> x = hz)
                 \<and> k \<le> 2 \<and> 2 ^ k \<le> x / r \<and> x / r < 2 ^ Suc k
                 \<and> c \<in> set (scaleRatios (analyzeImage pd w h))
                 \<and> (\<forall>c' \<in> set (scaleRatios (analyzeImage pd w h)).
                        \<bar>x / r / 2 ^ k - c\<bar> \<le> \<bar>x / r / 2 ^ k - c'\<bar>)
                 \<and> y = r * 2 ^ k * c)"
proof -
  define p where "p = analyzeImage pd w h"
  from analyzeImage_tuning(1)[of pd w h] obtain r where
    r: "rootHz p = Fin r" "r \<in> set ROOT_NOTES" "0 < r" unfolding p_def by blast
  have s: "scaleRatios p = SCALES (scale p)"
    unfolding p_def by (rule analyzeImage_tuning(2))
  from snapToScale_fixed[OF r(1) r(3) s assms] obtain x k c where
    f: "Option.bind (raiseNote (Fin hz) (Fin r)) (\<lambda>u. lowerNote u (Fin r)) = Some (Fin x)"
      "r \<le> x" "x \<le> 4 * r" "r \<le> hz \<and> hz \<le> 4 * r \<longrightarrow> x = hz"
      "k \<le> 2" "2 ^ k \<le> x / r" "x / r < 2 ^ Suc k"
      "c \<in> set (SCALES (scale p))"
      "\<forall>c' \<in> set (SCALES (scale p)). \<bar>x / r / 2 ^ k - c\<bar> \<le> \<bar>x / r / 2 ^ k - c'\<bar>"
      "snapToScale (Fin hz) p = Some (Fin (r * 2 ^ k * c))"
      "snapToScale (Fin (r * 2 ^ k * c)) p = Some (Fin (r * 2 ^ k * c))"
    by (elim exE conjE)
  define y where "y = r * 2 ^ k * c"
  have inner: "\<exists>r x k c. rootHz p = Fin r \<and> r \<in> set ROOT_NOTES
                 \<and> scaleRatios p = SCALES (scale p)
                 \<and> Option.bind (raiseNote (Fin hz) (Fin r)) (\<lambda>u. lowerNote u (Fin r))
                       = Some (Fin x)
                 \<and> r \<le> x \<and> x \<le> 4 * r \<and> (r \<le> hz \<and> hz \<le> 4 * r \<longrightarrow> x = hz)
                 \<and> k \<le> 2 \<and> 2 ^ k \<le> x / r \<and> x / r < 2 ^ Suc k
                 \<and> c \<in> set (scaleRatios p)
                 \<and> (\<forall>c' \<in> set (scaleRatios p).
                        \<bar>x / r / 2 ^ k - c\<bar> \<le> \<bar>x / r / 2 ^ k - c'\<bar>)
                 \<and> y = r * 2 ^ k * c"
    apply (rule exI[of _ r], rule exI[of _ x], rule exI[of _ k], rule exI[of _ c])
    unfolding s using r(1,2) f(1-9) y_def by (intro conjI refl) assumption+
  show ?thesis
    unfolding p_def[symmetric]
    by (rule exI[of _ y]) (rule conjI[OF f(10)[folded y_def] conjI[OF f(11)[folded y_def] inner]])
qed

theorem snapToScale_idempotent_witness:
  "(0::real) < 300
   \<and> rootHz (analyzeImage black3x3 3 3) = Fin 110
   \<and> scaleRatios (analyzeImage black3x3 3 3) = [1, 9/8, 5/4, 45/32, 3/2, 27/16]
   \<and> snapToScale (Fin 300) (analyzeImage black3x3 3 3) = Some (Fin 309.375)
   \<and> snapToScale (Fin 309.375) (analyzeImage black3x3 3 3) = Some (Fin 309.375)"
proof -
  define p where "p = analyzeImage black3x3 3 3"
  note t = black3x3_tuning[folded p_def]
  have v: "snapToScale (Fin 300) p = Some (Fin 309.375)"
    using snapToScale_in_range[OF t(1), of 300 1]
    by (simp add: t(2) nearest_def nearestStep_Fin nthInt_def)
  have pos: "(0::real) < 300" by simp
  from snapToScale_idempotent[OF pos, of black3x3 3 3, folded p_def]
  obtain y where y: "snapToScale (Fin 300) p = Some (Fin y)"
    "snapToScale (Fin y) p = Some (Fin y)" by (elim exE conjE) (rule that)
  from y(1) v have "y = 309.375" by simp
  with y(2) have "snapToScale (Fin 309.375) p = Some (Fin 309.375)" by simp
  with v t show ?thesis unfolding p_def by simp
qed

end
